(* ===== verification/Todo_Prelude.thy ===== *)
theory Todo_Prelude
  imports Complex_Main "HOL-Library.Multiset" "HOL-Library.List_Lexorder" "HOL-Library.Char_ord"
begin

text \<open>
  Shared vocabulary of the ToDo development (\<^verbatim>\<open>src/todo.py\<close>): the Python built-ins the
  application relies on, written with the behaviour CPython gives them, and the generic
  list, map and string lemmas the component theories share.
  \<^item> \<open>py_index\<close>, \<open>py_pop\<close> and \<open>py_take\<close> are \<^verbatim>\<open>xs[i]\<close>, \<^verbatim>\<open>xs.pop(i)\<close> and
    \<^verbatim>\<open>xs[:n]\<close>, including negative indices and the \<^verbatim>\<open>IndexError\<close> out of range;
  \<^item> \<open>py_truediv\<close> is \<^verbatim>\<open>a / b\<close> on ints, raising \<^verbatim>\<open>ZeroDivisionError\<close> for \<open>b = 0\<close>;
  \<^item> \<open>dict_get\<close> is \<^verbatim>\<open>d.get(k, default)\<close> on a dictionary modelled as a map;
  \<^item> \<open>py_str\<close> is \<^verbatim>\<open>str(n)\<close> on an int, with the inverse \<open>parse_nat\<close> on the
    non-negative ones and the round trip that makes it injective there;
  \<^item> \<open>outcome\<close> is how a GUI handler ends (normal return, warning dialog, exception).
  The collections \<open>store_simps\<close> and \<open>handler_simps\<close> gather the frame facts of the
  object store and the unfoldings of the GUI handlers for the component proofs.
\<close>

named_theorems store_simps "lookup and frame facts of the object store"
named_theorems handler_simps "unfoldings of the handlers of the application"

type_synonym loc = nat

text \<open>
  The Python exceptions the code can meet: a list index out of range, and a division by
  zero (\<^verbatim>\<open>/\<close> raises on a zero divisor, where HOL's division would return 0).
\<close>

datatype py_error = IndexError | ZeroDivisionError

text \<open>
  How a GUI handler of \<^verbatim>\<open>TodoApp\<close> ends: it returns normally, it shows a warning
  dialog (\<^verbatim>\<open>messagebox.showwarning\<close>) and returns, or an exception escapes it (Tk
  reports it and keeps running, with every mutation made before the raise in place).
\<close>

datatype outcome = Ok | Warned string | Raised py_error

text \<open>\<^verbatim>\<open>a / b\<close> on two ints: true division, exact here (floats are not modelled).\<close>

definition py_truediv :: "int \<Rightarrow> int \<Rightarrow> py_error + real" where
  "py_truediv a b = (if b = 0 then Inl ZeroDivisionError else Inr (real_of_int a / real_of_int b))"

subsection \<open>Lists as Python lists\<close>

definition py_index :: "'a list \<Rightarrow> int \<Rightarrow> py_error + 'a" where
  "py_index xs i =
     (if - int (length xs) \<le> i \<and> i < int (length xs)
      then Inr (xs ! nat (i mod int (length xs)))
      else Inl IndexError)"

definition remove_at :: "nat \<Rightarrow> 'a list \<Rightarrow> 'a list" where
  "remove_at i xs = take i xs @ drop (Suc i) xs"

text \<open>\<^verbatim>\<open>xs.pop(i)\<close> for a non-negative index: the element and the list without it.\<close>

definition py_pop :: "'a list \<Rightarrow> nat \<Rightarrow> py_error + ('a \<times> 'a list)" where
  "py_pop xs i = (if i < length xs then Inr (xs ! i, remove_at i xs) else Inl IndexError)"

text \<open>The slice \<^verbatim>\<open>xs[:n]\<close>: a negative bound counts from the end.\<close>

definition py_take :: "int \<Rightarrow> 'a list \<Rightarrow> 'a list" where
  "py_take n xs = (if 0 \<le> n then take (nat n) xs else take (length xs - nat (- n)) xs)"

text \<open>\<^verbatim>\<open>d.get(k, default)\<close>.\<close>

definition dict_get :: "('k \<rightharpoonup> 'v) \<Rightarrow> 'k \<Rightarrow> 'v \<Rightarrow> 'v" where
  "dict_get m k d = (case m k of None \<Rightarrow> d | Some v \<Rightarrow> v)"

lemma py_index_nonneg [simp]:
  "0 \<le> i \<Longrightarrow> py_index xs i = (if i < int (length xs) then Inr (xs ! nat i) else Inl IndexError)"
  by (simp add: py_index_def mod_pos_pos_trivial)

lemma nat_int_plus_one [simp]: "nat (int k + 1) = Suc k"
  and nat_one_plus_int [simp]: "nat (1 + int k) = Suc k"
  by arith+

lemma py_pop_in_range [simp]:
  "i < length xs \<Longrightarrow> py_pop xs i = Inr (xs ! i, remove_at i xs)"
  by (simp add: py_pop_def)

lemma py_pop_out_of_range [simp]:
  "\<not> i < length xs \<Longrightarrow> py_pop xs i = Inl IndexError"
  by (simp add: py_pop_def)

lemma py_pop_head [simp]: "py_pop (x # xs) 0 = Inr (x, xs)"
  by (simp add: py_pop_def remove_at_def)

lemma py_take_nonneg [simp]: "0 \<le> n \<Longrightarrow> py_take n xs = take (nat n) xs"
  by (simp add: py_take_def)

lemma dict_get_Some [simp]: "m k = Some v \<Longrightarrow> dict_get m k d = v"
  and dict_get_None [simp]: "m k = None \<Longrightarrow> dict_get m k d = d"
  by (simp_all add: dict_get_def)

subsection \<open>Removing the element at an index\<close>

text \<open>The list \<^verbatim>\<open>pop\<close> leaves behind, and the facts the rotation proofs use about it.\<close>

lemma length_remove_at [simp]: "i < length xs \<Longrightarrow> length (remove_at i xs) = length xs - 1"
  by (simp add: remove_at_def)

lemma map_remove_at: "map f (remove_at i xs) = remove_at i (map f xs)"
  by (simp add: remove_at_def take_map drop_map)

lemma mset_remove_at_snoc:
  "i < length xs \<Longrightarrow> mset (remove_at i xs @ [xs ! i]) = mset xs"
proof -
  assume i: "i < length xs"
  have "xs = take i xs @ xs ! i # drop (Suc i) xs"
    using i by (simp add: id_take_nth_drop)
  then have "mset xs = mset (take i xs) + add_mset (xs ! i) (mset (drop (Suc i) xs))"
    by (metis mset.simps(2) mset_append)
  then show ?thesis by (simp add: remove_at_def)
qed

lemma set_remove_at_snoc:
  "i < length xs \<Longrightarrow> set (remove_at i xs @ [xs ! i]) = set xs"
  by (rule mset_eq_setD [OF mset_remove_at_snoc])

lemma distinct_remove_at_snoc:
  "i < length xs \<Longrightarrow> distinct (remove_at i xs @ [xs ! i]) = distinct xs"
  by (rule mset_eq_imp_distinct_iff [OF mset_remove_at_snoc])

lemma nth_notin_remove_at:
  "distinct xs \<Longrightarrow> i < length xs \<Longrightarrow> xs ! i \<notin> set (remove_at i xs)"
  using distinct_remove_at_snoc [of i xs] by simp

lemma set_remove_at_subset: "set (remove_at i xs) \<subseteq> set xs"
  by (auto simp: remove_at_def dest: in_set_takeD in_set_dropD)

lemma distinct_remove_at: "distinct xs \<Longrightarrow> distinct (remove_at i xs)"
  by (simp add: remove_at_def distinct_take distinct_drop set_take_disj_set_drop_if_distinct)

lemma remove_at_nth:
  "i < length xs \<Longrightarrow> j < length xs - 1 \<Longrightarrow>
   remove_at i xs ! j = (if j < i then xs ! j else xs ! Suc j)"
  by (auto simp: remove_at_def nth_append min_def)

lemma remove_at_0 [simp]: "remove_at 0 (x # xs) = xs"
  by (simp add: remove_at_def)

subsection \<open>\<^verbatim>\<open>str(n)\<close> on integers\<close>

text \<open>
  The decimal digits of a non-negative Python int, most significant first, without
  leading zeros; \<^verbatim>\<open>str\<close> prints them, with a minus sign for a negative number.
\<close>

function int_digits :: "int \<Rightarrow> nat list" where
  "int_digits n = (if 10 \<le> n then int_digits (n div 10) else []) @ [nat (n mod 10)]"
  by pat_completeness auto
termination
  by (relation "measure nat") auto

declare int_digits.simps [simp del]

definition digit_char :: "nat \<Rightarrow> char" where
  "digit_char d = char_of (48 + d)"

definition py_str :: "int \<Rightarrow> string" where
  "py_str n = (if n < 0 then ''-'' @ map digit_char (int_digits (- n)) else map digit_char (int_digits n))"

abbreviation py_str_nat :: "nat \<Rightarrow> string" where
  "py_str_nat n \<equiv> py_str (int n)"

definition parse_nat :: "string \<Rightarrow> nat" where
  "parse_nat s = foldl (\<lambda>acc c. 10 * acc + (of_char c - 48)) 0 s"

lemma int_digits_small: "d \<in> set (int_digits n) \<Longrightarrow> d < 10"
proof (induction n rule: int_digits.induct)
  case (1 n)
  then show ?case
    by (cases "10 \<le> n") (auto simp: int_digits.simps [of n] nat_less_iff)
qed

lemma int_digits_nonempty [simp]: "int_digits n \<noteq> []"
  by (subst int_digits.simps) simp

lemma of_char_digit_char [simp]: "d < 10 \<Longrightarrow> of_char (digit_char d) - 48 = (d::nat)"
  by (simp add: digit_char_def)

lemma parse_nat_snoc: "parse_nat (s @ [c]) = 10 * parse_nat s + (of_char c - 48)"
  by (simp add: parse_nat_def)

text \<open>Round trip: reading back what \<^verbatim>\<open>str\<close> printed gives the number.\<close>

lemma parse_int_digits: "0 \<le> n \<Longrightarrow> int (parse_nat (map digit_char (int_digits n))) = n"
proof (induction n rule: int_digits.induct)
  case (1 n)
  have last: "nat (n mod 10) < 10" by (simp add: nat_less_iff)
  show ?case
  proof (cases "10 \<le> n")
    case True
    then have "int (parse_nat (map digit_char (int_digits (n div 10)))) = n div 10"
      using "1.IH" by simp
    with True last show ?thesis
      by (simp add: int_digits.simps [of n] parse_nat_snoc)
  next
    case False
    with "1.prems" last show ?thesis
      by (simp add: int_digits.simps [of n] parse_nat_def)
  qed
qed

lemma parse_py_str_nat: "parse_nat (py_str_nat n) = n"
  using parse_int_digits [of "int n"] by (simp add: py_str_def)

lemma inj_py_str_nat: "inj py_str_nat"
  by (metis injI parse_py_str_nat)

lemma py_str_nat_eq_iff [simp]: "py_str_nat m = py_str_nat n \<longleftrightarrow> m = n"
  by (metis parse_py_str_nat)

lemma py_str_nat_nonempty [simp]: "py_str_nat n \<noteq> []"
  by (simp add: py_str_def)

subsection \<open>Sums over the values of a dictionary\<close>

text \<open>\<^verbatim>\<open>sum(d.values())\<close> for a dictionary with finitely many keys.\<close>

definition dict_sum :: "('k \<rightharpoonup> int) \<Rightarrow> int" where
  "dict_sum m = (\<Sum>k\<in>dom m. the (m k))"

lemma dict_sum_empty [simp]: "dict_sum Map.empty = 0"
  by (simp add: dict_sum_def)

lemma dict_sum_bump:
  assumes "finite (dom m)"
  shows "dict_sum (m(k \<mapsto> dict_get m k 0 + 1)) = dict_sum m + 1"
proof (cases "m k")
  case None
  then have "k \<notin> dom m" by auto
  moreover have "(\<Sum>j\<in>dom m. the ((m(k \<mapsto> 1)) j)) = (\<Sum>j\<in>dom m. the (m j))"
    using None by (intro sum.cong) auto
  ultimately show ?thesis
    using assms None by (simp add: dict_sum_def)
next
  case (Some v)
  then have k: "k \<in> dom m" by auto
  have "(\<Sum>j\<in>dom m. the ((m(k \<mapsto> v + 1)) j))
        = (\<Sum>j\<in>dom m. the (m j) + (if j = k then 1 else 0))"
    using Some by (intro sum.cong) auto
  also have "\<dots> = dict_sum m + 1"
    using assms k by (simp add: sum.distrib dict_sum_def)
  finally show ?thesis
    using Some k by (simp add: dict_sum_def insert_absorb)
qed

end
