(* ===== verification/Object_Store.thy ===== *)
theory Object_Store
  imports Todo_Prelude
begin

text \<open>
  The data of \<^verbatim>\<open>TodoApp\<close> (\<^verbatim>\<open>src/todo.py\<close>, lines 20--30) with Python's sharing made
  explicit. A task is a dictionary object, and the \<^verbatim>\<open>'daily'\<close> entry of the statistics
  dictionary is a dictionary object too: both live in an object store and are reached by
  reference (\<open>loc\<close>). The list \<^verbatim>\<open>self.tasks\<close> and the dictionary
  \<^verbatim>\<open>self.statistics\<close> are values here, because the code copies them whenever it stores
  or restores them (\<^verbatim>\<open>.copy()\<close>, lines 174--175 and 338--339), so no two places ever
  share them. The copies are shallow: a snapshot in the history holds the same task
  references and the same \<^verbatim>\<open>daily\<close> reference as the live state, which is what the
  theorems of \<open>History\<close> and \<open>Todo_App\<close> about undo are about.
  \<^item> \<open>task\<close>: the task dictionary (lines 215--221);
  \<^item> \<open>stats\<close>: \<^verbatim>\<open>self.statistics\<close>, its \<^verbatim>\<open>daily\<close> field a reference (the unused
    \<^verbatim>\<open>weekly\<close> and \<^verbatim>\<open>monthly\<close> dictionaries are left out);
  \<^item> \<open>store\<close>: the objects, with the next free reference;
  \<^item> \<open>snapshot\<close>: one history entry \<^verbatim>\<open>{'tasks': ..., 'statistics': ...}\<close>;
  \<^item> \<open>todo_app\<close>: the fields of the application object the core reads and writes.
  \<open>task_values\<close> and \<open>stats_value\<close> read a list of references and a statistics
  record back as values: what a deep copy would hold, and what the user sees.
\<close>

record task =
  task_id :: string
  description :: string
  created :: string
  completed_count :: int
  skipped_count :: int

record stats =
  daily :: loc
  total_done :: int
  total_skipped :: int

record store =
  task_objs :: "loc \<Rightarrow> task"
  dict_objs :: "loc \<Rightarrow> (string \<rightharpoonup> int)"
  next_loc :: loc

record snapshot =
  snap_tasks :: "loc list"
  snap_statistics :: stats

record todo_app =
  tasks :: "loc list"
  history :: "snapshot list"
  history_index :: int
  statistics :: stats
  store :: store

subsection \<open>Allocation and update\<close>

definition new_task :: "task \<Rightarrow> store \<Rightarrow> loc \<times> store" where
  "new_task t h =
     (next_loc h, h\<lparr>task_objs := (task_objs h)(next_loc h := t), next_loc := Suc (next_loc h)\<rparr>)"

definition new_dict :: "(string \<rightharpoonup> int) \<Rightarrow> store \<Rightarrow> loc \<times> store" where
  "new_dict d h =
     (next_loc h, h\<lparr>dict_objs := (dict_objs h)(next_loc h := d), next_loc := Suc (next_loc h)\<rparr>)"

text \<open>Writing a field of a task object in place (\<^verbatim>\<open>task['completed_count'] += 1\<close>).\<close>

definition update_task :: "loc \<Rightarrow> (task \<Rightarrow> task) \<Rightarrow> store \<Rightarrow> store" where
  "update_task l f h = h\<lparr>task_objs := (task_objs h)(l := f (task_objs h l))\<rparr>"

definition update_dict :: "loc \<Rightarrow> ((string \<rightharpoonup> int) \<Rightarrow> (string \<rightharpoonup> int)) \<Rightarrow> store \<Rightarrow> store" where
  "update_dict l f h = h\<lparr>dict_objs := (dict_objs h)(l := f (dict_objs h l))\<rparr>"

subsection \<open>Reading references back as values\<close>

record stats_value =
  daily_counts :: "string \<rightharpoonup> int"
  done_total :: int
  skipped_total :: int

definition task_values :: "store \<Rightarrow> loc list \<Rightarrow> task list" where
  "task_values h ls = map (task_objs h) ls"

definition stats_value :: "store \<Rightarrow> stats \<Rightarrow> stats_value" where
  "stats_value h s =
     \<lparr>daily_counts = dict_objs h (daily s), done_total = total_done s,
      skipped_total = total_skipped s\<rparr>"

definition live_tasks :: "todo_app \<Rightarrow> task list" where
  "live_tasks s = task_values (store s) (tasks s)"

definition live_stats :: "todo_app \<Rightarrow> stats_value" where
  "live_stats s = stats_value (store s) (statistics s)"

text \<open>What a history entry shows when it is read now, through the current objects.\<close>

definition snapshot_view :: "store \<Rightarrow> snapshot \<Rightarrow> task list \<times> stats_value" where
  "snapshot_view h e = (task_values h (snap_tasks e), stats_value h (snap_statistics e))"

subsection \<open>Facts of the store\<close>

lemma task_values_simps [simp, store_simps]:
  "task_values h [] = []"
  "task_values h (l # ls) = task_objs h l # task_values h ls"
  "task_values h (ls @ ms) = task_values h ls @ task_values h ms"
  "length (task_values h ls) = length ls"
  by (simp_all add: task_values_def)

lemma task_values_nth [simp, store_simps]:
  "i < length ls \<Longrightarrow> task_values h ls ! i = task_objs h (ls ! i)"
  by (simp add: task_values_def)

lemma task_values_remove_at [store_simps]:
  "task_values h (remove_at i ls) = remove_at i (task_values h ls)"
  unfolding task_values_def by (rule map_remove_at)

lemma new_task_fst [simp, store_simps]: "fst (new_task t h) = next_loc h"
  by (simp add: new_task_def)

lemma new_task_objs [simp, store_simps]:
  "task_objs (snd (new_task t h)) = (task_objs h)(next_loc h := t)"
  "dict_objs (snd (new_task t h)) = dict_objs h"
  "next_loc (snd (new_task t h)) = Suc (next_loc h)"
  by (simp_all add: new_task_def)

lemma new_dict_objs [simp, store_simps]:
  "fst (new_dict d h) = next_loc h"
  "task_objs (snd (new_dict d h)) = task_objs h"
  "dict_objs (snd (new_dict d h)) = (dict_objs h)(next_loc h := d)"
  "next_loc (snd (new_dict d h)) = Suc (next_loc h)"
  by (simp_all add: new_dict_def)

lemma update_task_objs [simp, store_simps]:
  "task_objs (update_task l f h) = (task_objs h)(l := f (task_objs h l))"
  "dict_objs (update_task l f h) = dict_objs h"
  "next_loc (update_task l f h) = next_loc h"
  by (simp_all add: update_task_def)

lemma update_dict_objs [simp, store_simps]:
  "task_objs (update_dict l f h) = task_objs h"
  "dict_objs (update_dict l f h) = (dict_objs h)(l := f (dict_objs h l))"
  "next_loc (update_dict l f h) = next_loc h"
  by (simp_all add: update_dict_def)

text \<open>Frame: objects that are not referenced by a list keep its values.\<close>

lemma task_values_upd_other [simp, store_simps]:
  "l \<notin> set ls \<Longrightarrow> task_values (h\<lparr>task_objs := (task_objs h)(l := t)\<rparr>) ls = task_values h ls"
  by (induction ls) auto

lemma task_values_fresh [simp, store_simps]:
  "\<forall>m\<in>set ls. m < next_loc h \<Longrightarrow> task_values (snd (new_task t h)) ls = task_values h ls"
  by (induction ls) auto

lemma task_values_update_other [simp, store_simps]:
  "l \<notin> set ls \<Longrightarrow> task_values (update_task l f h) ls = task_values h ls"
  by (induction ls) auto

lemma task_values_update_dict [simp, store_simps]:
  "task_values (update_dict l f h) ls = task_values h ls"
  by (simp add: task_values_def)

text \<open>The objects left in the list after \<^verbatim>\<open>pop\<close> do not see an update of the popped one.\<close>

lemma task_values_update_remove_at [store_simps]:
  assumes "distinct ls" and "i < length ls"
  shows "task_values (update_task (ls ! i) f h) (remove_at i ls) = remove_at i (task_values h ls)"
proof -
  have "task_values (update_task (ls ! i) f h) (remove_at i ls) = task_values h (remove_at i ls)"
    using nth_notin_remove_at [OF assms] by (rule task_values_update_other)
  then show ?thesis by (simp add: task_values_remove_at)
qed

text \<open>
  Updating one referenced object in place changes exactly its position in a list with no
  repeated references.
\<close>

lemma task_values_update_nth:
  assumes "distinct ls" and "i < length ls"
  shows "task_values (update_task (ls ! i) f h) ls = (task_values h ls)[i := f (task_objs h (ls ! i))]"
proof (rule nth_equalityI)
  show "length (task_values (update_task (ls ! i) f h) ls)
        = length ((task_values h ls)[i := f (task_objs h (ls ! i))])"
    by simp
next
  fix j assume "j < length (task_values (update_task (ls ! i) f h) ls)"
  then have j: "j < length ls" by simp
  with assms have "ls ! j = ls ! i \<longleftrightarrow> j = i"
    by (simp add: nth_eq_iff_index_eq)
  with j show "task_values (update_task (ls ! i) f h) ls ! j
        = (task_values h ls)[i := f (task_objs h (ls ! i))] ! j"
    by (simp add: nth_list_update)
qed

end
