(* ===== verification/History.thy ===== *)
theory History
  imports Object_Store
begin

text \<open>
  The undo/redo history of \<^verbatim>\<open>TodoApp\<close> (\<^verbatim>\<open>src/todo.py\<close>): \<open>save_state\<close> (lines
  171--187), \<open>undo\<close> (333--340) and \<open>redo\<close> (342--349). A history entry is a shallow
  copy of the task list and of the statistics dictionary; the cursor
  \<^verbatim>\<open>history_index\<close> is a Python int, -1 for the empty history.
  \<^item> \<open>hist_ok\<close> is the cursor invariant: at most 50 entries, the cursor at -1 exactly
    when the history is empty and on an entry otherwise; every operation keeps it.
  \<^item> \<open>hist_abs\<close> reads the list and its cursor as two stacks, the entries up to the
    cursor (most recent first) and the entries after it. \<open>hist_push\<close>, \<open>hist_undo\<close>
    and \<open>hist_redo\<close> are the contract of a bounded undo stack on that pair, and the
    refinement lemmas show that the three methods implement it.
  \<^item> The lemmas at the end say what the code's undo does after a fresh action: it
    installs the entry at the cursor of the state before the action, which holds the
    state before the previous action; redo after a fresh action does nothing; and Undo
    then Redo after an action installs the snapshot taken before the action, so the
    action's result cannot be brought back.
\<close>

subsection \<open>The methods\<close>

definition state_snapshot :: "todo_app \<Rightarrow> snapshot" where
  "state_snapshot s = \<lparr>snap_tasks = tasks s, snap_statistics = statistics s\<rparr>"

definition save_state :: "todo_app \<Rightarrow> todo_app" where
  "save_state s =
     (let state = state_snapshot s;
          h = (if history_index s < int (length (history s)) - 1
               then py_take (history_index s + 1) (history s) else history s);
          s1 = s\<lparr>history := h @ [state], history_index := history_index s + 1\<rparr>
      in if 50 < length (history s1)
         then s1\<lparr>history := tl (history s1), history_index := history_index s1 - 1\<rparr>
         else s1)"

text \<open>Installing an entry: \<^verbatim>\<open>self.tasks = state['tasks'].copy()\<close> and the same for statistics.\<close>

definition install :: "snapshot \<Rightarrow> todo_app \<Rightarrow> todo_app" where
  "install e s = s\<lparr>tasks := snap_tasks e, statistics := snap_statistics e\<rparr>"

definition undo :: "todo_app \<Rightarrow> todo_app \<times> outcome" where
  "undo s =
     (if 0 < history_index s then
        let s1 = s\<lparr>history_index := history_index s - 1\<rparr>
        in case py_index (history s1) (history_index s1) of
             Inl e \<Rightarrow> (s1, Raised e)
           | Inr e \<Rightarrow> (install e s1, Ok)
      else (s, Ok))"

definition redo :: "todo_app \<Rightarrow> todo_app \<times> outcome" where
  "redo s =
     (if history_index s < int (length (history s)) - 1 then
        let s1 = s\<lparr>history_index := history_index s + 1\<rparr>
        in case py_index (history s1) (history_index s1) of
             Inl e \<Rightarrow> (s1, Raised e)
           | Inr e \<Rightarrow> (install e s1, Ok)
      else (s, Ok))"

definition hist_ok :: "todo_app \<Rightarrow> bool" where
  "hist_ok s \<longleftrightarrow> length (history s) \<le> 50 \<and>
     (if history s = [] then history_index s = -1
      else 0 \<le> history_index s \<and> history_index s < int (length (history s)))"

subsection \<open>The abstract undo stack\<close>

definition hist_abs :: "todo_app \<Rightarrow> snapshot list \<times> snapshot list" where
  "hist_abs s =
     (rev (take (nat (history_index s + 1)) (history s)), drop (nat (history_index s + 1)) (history s))"

definition hist_push :: "'a \<Rightarrow> 'a list \<times> 'a list \<Rightarrow> 'a list \<times> 'a list" where
  "hist_push x z = (take 50 (x # fst z), [])"

fun hist_undo :: "'a list \<times> 'a list \<Rightarrow> ('a list \<times> 'a list) \<times> 'a option" where
  "hist_undo (c # c' # p, f) = ((c' # p, c # f), Some c')"
| "hist_undo z = (z, None)"

fun hist_redo :: "'a list \<times> 'a list \<Rightarrow> ('a list \<times> 'a list) \<times> 'a option" where
  "hist_redo (p, c # f) = ((c # p, f), Some c)"
| "hist_redo z = (z, None)"

text \<open>
  The concrete state an abstract pair stands for, and the state an abstract step leaves:
  unchanged, or the entry it returns installed.
\<close>

definition hist_conc :: "snapshot list \<times> snapshot list \<Rightarrow> todo_app \<Rightarrow> todo_app" where
  "hist_conc z s = s\<lparr>history := rev (fst z) @ snd z, history_index := int (length (fst z)) - 1\<rparr>"


definition apply_entry :: "snapshot option \<Rightarrow> todo_app \<Rightarrow> todo_app" where
  "apply_entry r s = (case r of None \<Rightarrow> s | Some e \<Rightarrow> install e s)"

text \<open>
  What \<open>save_state\<close> does when the invariant holds: the entries up to the cursor, the
  new entry, the oldest entry dropped past 50, and the cursor on the new entry.
\<close>

definition pushed_history :: "todo_app \<Rightarrow> snapshot list" where
  "pushed_history s =
     (let t = take (nat (history_index s + 1)) (history s) @ [state_snapshot s]
      in if 50 < length t then tl t else t)"

text \<open>\<open>n\<close> presses of Undo in a row.\<close>

abbreviation undo_times :: "nat \<Rightarrow> todo_app \<Rightarrow> todo_app" where
  "undo_times n \<equiv> (\<lambda>s. fst (undo s)) ^^ n"

subsection \<open>Closed forms under the invariant\<close>

lemma hist_okD:
  assumes "hist_ok s" and "history s \<noteq> []"
  obtains k where "history_index s = int k" and "k < length (history s)" and "length (history s) \<le> 50"
  using assms unfolding hist_ok_def by (metis nonneg_int_cases of_nat_less_iff)

lemma hist_ok_empty: "hist_ok s \<Longrightarrow> history s = [] \<Longrightarrow> history_index s = -1"
  by (simp add: hist_ok_def)

lemma install_simps [simp]:
  "tasks (install e s) = snap_tasks e"
  "statistics (install e s) = snap_statistics e"
  "history (install e s) = history s"
  "history_index (install e s) = history_index s"
  "store (install e s) = store s"
  by (simp_all add: install_def)

lemma save_state_frame [simp, handler_simps]:
  "tasks (save_state s) = tasks s"
  "statistics (save_state s) = statistics s"
  "store (save_state s) = store s"
  by (simp_all add: save_state_def Let_def)

lemma save_state_closed:
  assumes "hist_ok s"
  shows "save_state s = s\<lparr>history := pushed_history s,
                           history_index := int (length (pushed_history s)) - 1\<rparr>"
proof (cases "history s = []")
  case True
  with assms have "history_index s = -1" by (rule hist_ok_empty)
  with True show ?thesis
    by (simp add: save_state_def pushed_history_def Let_def)
next
  case False
  with assms obtain k where k: "history_index s = int k" "k < length (history s)"
    and n: "length (history s) \<le> 50"
    by (rule hist_okD)
  have h: "(if history_index s < int (length (history s)) - 1
            then py_take (history_index s + 1) (history s) else history s)
           = take (Suc k) (history s)"
    using k by auto
  have "length (take (Suc k) (history s) @ [state_snapshot s]) = Suc (Suc k)"
    using k by simp
  then show ?thesis
    using k n unfolding save_state_def pushed_history_def Let_def h
    by (simp add: nat_int_add)
qed

lemma length_pushed_history:
  "hist_ok s \<Longrightarrow> 0 < length (pushed_history s) \<and> length (pushed_history s) \<le> 50"
proof (cases "history s = []")
  case True
  assume "hist_ok s"
  then have "history_index s = -1" using True by (rule hist_ok_empty)
  with True show ?thesis by (simp add: pushed_history_def)
next
  case False
  assume ok: "hist_ok s"
  from ok False obtain k where "history_index s = int k" "k < length (history s)"
    "length (history s) \<le> 50"
    by (rule hist_okD)
  then show ?thesis
    unfolding pushed_history_def Let_def by (cases "history s") auto
qed

lemma save_state_hist_ok: "hist_ok s \<Longrightarrow> hist_ok (save_state s)"
  using length_pushed_history [of s] by (simp add: save_state_closed hist_ok_def)

text \<open>\<open>undo\<close> and \<open>redo\<close> when the invariant holds: the index is always in range.\<close>

lemma undo_closed:
  assumes "hist_ok s"
  shows "undo s = (if 0 < history_index s
                   then (install (history s ! (nat (history_index s) - 1))
                           (s\<lparr>history_index := history_index s - 1\<rparr>), Ok)
                   else (s, Ok))"
proof (cases "0 < history_index s")
  case True
  with assms have "history_index s < int (length (history s))"
    by (auto simp: hist_ok_def split: if_splits)
  with True show ?thesis
    by (simp add: undo_def Let_def nat_diff_distrib)
qed (simp add: undo_def)

lemma redo_closed:
  assumes "hist_ok s"
  shows "redo s = (if history_index s < int (length (history s)) - 1
                   then (install (history s ! Suc (nat (history_index s)))
                           (s\<lparr>history_index := history_index s + 1\<rparr>), Ok)
                   else (s, Ok))"
proof (cases "history_index s < int (length (history s)) - 1")
  case True
  with assms have "0 \<le> history_index s"
    by (auto simp: hist_ok_def split: if_splits)
  with True show ?thesis
    by (simp add: redo_def Let_def nat_add_distrib)
qed (simp add: redo_def)

lemma undo_hist_ok: "hist_ok s \<Longrightarrow> hist_ok (fst (undo s))"
  by (auto simp: undo_closed hist_ok_def)

lemma redo_hist_ok: "hist_ok s \<Longrightarrow> hist_ok (fst (redo s))"
  by (auto simp: redo_closed hist_ok_def)

lemma undo_outcome: "hist_ok s \<Longrightarrow> snd (undo s) = Ok"
  and redo_outcome: "hist_ok s \<Longrightarrow> snd (redo s) = Ok"
  by (simp_all add: undo_closed redo_closed)

subsection \<open>Refinement: the methods implement the abstract undo stack\<close>

lemma rev_take_Suc: "k < length h \<Longrightarrow> rev (take (Suc k) h) = h ! k # rev (take k h)"
  by (simp add: take_Suc_conv_app_nth)

lemma take_nth_nth_drop:
  "Suc k < length h \<Longrightarrow> take k h @ h ! k # h ! Suc k # drop (Suc (Suc k)) h = h"
  by (simp add: Cons_nth_drop_Suc)

lemma rev_evict:
  assumes "length t \<le> 51"
  shows "rev (if 50 < length t then tl t else t) = take 50 (rev t)"
proof (cases "50 < length t")
  case True
  with assms have "length t - 1 = 50" by simp
  with True show ?thesis by (simp add: butlast_rev [symmetric] butlast_conv_take)
qed simp

lemma hist_conc_abs: "hist_ok s \<Longrightarrow> hist_conc (hist_abs s) s = s"
proof (cases "history s = []")
  case True
  assume "hist_ok s"
  then have "history_index s = -1" using True by (rule hist_ok_empty)
  with True show ?thesis by (simp add: hist_conc_def hist_abs_def)
next
  case False
  assume ok: "hist_ok s"
  from ok False obtain k where "history_index s = int k" "k < length (history s)"
    by (rule hist_okD)
  then show ?thesis by (simp add: hist_conc_def hist_abs_def min_def)
qed

text \<open>C31: when the cursor invariant holds, \<open>save_state\<close> implements the push of a bounded undo stack: the new entry goes on top of the entries up to the cursor, the redo entries are dropped, and only the 50 most recent entries are kept.\<close>

lemma save_state_refines:
  assumes "hist_ok s"
  shows "hist_abs (save_state s) = hist_push (state_snapshot s) (hist_abs s)"
proof -
  let ?t = "take (nat (history_index s + 1)) (history s) @ [state_snapshot s]"
  have "length ?t \<le> 51" using assms by (simp add: hist_ok_def min_le_iff_disj)
  then have "rev (pushed_history s) = take 50 (rev ?t)"
    unfolding pushed_history_def Let_def by (rule rev_evict)
  also have "\<dots> = take 50 (state_snapshot s # fst (hist_abs s))"
    by (simp add: hist_abs_def)
  finally have "rev (pushed_history s) = take 50 (state_snapshot s # fst (hist_abs s))" .
  moreover have "0 < length (pushed_history s)"
    using length_pushed_history [OF assms] by simp
  ultimately show ?thesis
    using assms by (simp add: save_state_closed hist_abs_def hist_push_def)
qed

text \<open>C32: when the cursor invariant holds, \<open>undo\<close> implements the undo of the abstract stack: with at least two entries up to the cursor it moves the top one to the redo side and installs the entry below it; otherwise it changes nothing.\<close>

lemma undo_refines:
  assumes "hist_ok s"
  shows "undo s = (case hist_undo (hist_abs s) of (z, r) \<Rightarrow> (apply_entry r (hist_conc z s), Ok))"
proof (cases "0 < history_index s")
  case True
  with assms have "history s \<noteq> []" by (auto simp: hist_ok_def)
  with assms obtain k0 where k0: "history_index s = int k0" "k0 < length (history s)"
    by (rule hist_okD)
  with True obtain k where "k0 = Suc k" by (cases k0) auto
  with k0 have k: "history_index s = int (Suc k)" "Suc k < length (history s)" by simp_all
  then have "history_index s + 1 = int (Suc (Suc k))" by simp
  then have m: "nat (history_index s + 1) = Suc (Suc k)" by (simp only: nat_int)
  with k have "hist_abs s = (history s ! Suc k # history s ! k # rev (take k (history s)),
                           drop (Suc (Suc k)) (history s))"
    by (simp only: hist_abs_def m rev_take_Suc Suc_lessD)
  with k show ?thesis
    by (simp add: undo_closed [OF assms] hist_conc_def apply_entry_def take_nth_nth_drop)
next
  case False
  with assms have "length (fst (hist_abs s)) \<le> 1"
    by (auto simp: hist_ok_def hist_abs_def split: if_splits)
  then have "hist_undo (hist_abs s) = (hist_abs s, None)"
    by (cases "hist_abs s" rule: hist_undo.cases) auto
  with False assms show ?thesis
    by (simp add: undo_closed apply_entry_def hist_conc_abs)
qed

text \<open>C33: when the cursor invariant holds, \<open>redo\<close> implements the redo of the abstract stack: it moves the first redo entry back on top and installs it, and changes nothing when there is none.\<close>

lemma redo_refines:
  assumes "hist_ok s"
  shows "redo s = (case hist_redo (hist_abs s) of (z, r) \<Rightarrow> (apply_entry r (hist_conc z s), Ok))"
proof (cases "history_index s < int (length (history s)) - 1")
  case True
  with assms have "history s \<noteq> []" by (auto simp: hist_ok_def)
  with assms obtain k where k0: "history_index s = int k" "k < length (history s)"
    by (rule hist_okD)
  with True have k: "history_index s = int k" "Suc k < length (history s)" by simp_all
  then have "hist_abs s = (rev (take (Suc k) (history s)),
                           history s ! Suc k # drop (Suc (Suc k)) (history s))"
    by (simp add: hist_abs_def Cons_nth_drop_Suc)
  with k show ?thesis
    by (simp add: redo_closed [OF assms] hist_conc_def apply_entry_def rev_take_Suc
        take_nth_nth_drop)
next
  case False
  with assms have "snd (hist_abs s) = []"
    by (auto simp: hist_ok_def hist_abs_def split: if_splits)
  then have "hist_redo (hist_abs s) = (hist_abs s, None)"
    by (cases "hist_abs s" rule: hist_redo.cases) auto
  with False assms show ?thesis
    by (simp add: redo_closed apply_entry_def hist_conc_abs)
qed

subsection \<open>Undo and redo right after an action\<close>

text \<open>
  Every action pushes with \<open>save_state\<close> and then changes only the live fields; the
  state \<open>t\<close> below is any state with the history and cursor \<open>save_state s\<close> left.
\<close>

lemma last_pushed_history: "hist_ok s \<Longrightarrow> last (history (save_state s)) = state_snapshot s"
  using length_pushed_history [of s]
  by (auto simp: save_state_closed pushed_history_def Let_def last_tl)

lemma hist_ok_same_history:
  "history t = history u \<Longrightarrow> history_index t = history_index u \<Longrightarrow> hist_ok t = hist_ok u"
  by (simp add: hist_ok_def)

lemma pushed_history_prev:
  assumes "hist_ok s" and "history_index s = int k" and "k < length (history s)"
  shows "2 \<le> length (pushed_history s) \<and>
         pushed_history s ! (length (pushed_history s) - 2) = history s ! k"
proof -
  let ?t = "take (Suc k) (history s) @ [state_snapshot s]"
  have len: "length ?t = Suc (Suc k)" using assms(3) by simp
  have nth: "?t ! k = history s ! k" using assms(3) by (simp add: nth_append)
  have "length (history s) \<le> 50" using assms(1) by (simp add: hist_ok_def)
  then have "50 < length ?t \<Longrightarrow> k = 49" using len assms(3) by simp
  then show ?thesis
    using assms(2) len nth by (auto simp: pushed_history_def Let_def nth_tl)
qed

text \<open>C1: an Undo right after an action does not restore the state before that action: it installs the entry at the cursor of the state before the action, which is the snapshot taken before the previous action, and it does nothing at all after the first action of a session.\<close>

lemma undo_after_push:
  assumes ok: "hist_ok s"
    and h: "history t = history (save_state s)" and i: "history_index t = history_index (save_state s)"
  shows "undo t = (if history s = [] then (t, Ok)
                   else (install (history s ! nat (history_index s))
                           (t\<lparr>history_index := history_index t - 1\<rparr>), Ok))"
proof -
  have okt: "hist_ok t"
    using hist_ok_same_history [OF h i] save_state_hist_ok [OF ok] by simp
  have ht: "history t = pushed_history s"
    and it: "history_index t = int (length (pushed_history s)) - 1"
    using h i by (simp_all add: save_state_closed [OF ok])
  show ?thesis
  proof (cases "history s = []")
    case True
    with ok have "history_index s = -1" by (rule hist_ok_empty)
    with True have "history_index t = 0" by (simp add: it pushed_history_def)
    with True show ?thesis by (simp add: undo_closed [OF okt])
  next
    case False
    with ok obtain k where k: "history_index s = int k" "k < length (history s)"
      by (rule hist_okD)
    with ok have p: "2 \<le> length (pushed_history s)"
      "pushed_history s ! (length (pushed_history s) - 2) = history s ! k"
      by (simp_all add: pushed_history_prev)
    then have "nat (history_index t) - 1 = length (pushed_history s) - 2"
      by (simp add: it nat_diff_distrib)
    with p k False show ?thesis
      by (simp add: undo_closed [OF okt] ht it)
  qed
qed

text \<open>Branch truncation: after an action there is nothing to redo.\<close>

text \<open>C25: branch truncation: after any action (a \<open>save_state\<close> followed by changes of the live fields) Redo does nothing.\<close>

lemma redo_after_push:
  assumes ok: "hist_ok s"
    and h: "history t = history (save_state s)" and i: "history_index t = history_index (save_state s)"
  shows "redo t = (t, Ok)"
  using h i by (simp add: redo_def save_state_closed [OF ok])

subsection \<open>How far undo reaches\<close>

lemma undo_times_index:
  "hist_ok s \<Longrightarrow>
   hist_ok (undo_times n s) \<and> history (undo_times n s) = history s \<and>
   history_index (undo_times n s) =
     (if history s = [] then -1 else max 0 (history_index s - int n))"
proof (induction n)
  case 0
  then show ?case by (auto simp: hist_ok_def)
next
  case (Suc n)
  let ?u = "undo_times n s"
  from Suc have u: "hist_ok ?u" "history ?u = history s"
    "history_index ?u = (if history s = [] then -1 else max 0 (history_index s - int n))"
    by simp_all
  have "undo_times (Suc n) s = fst (undo ?u)" by simp
  with u Suc.prems show ?case
    by (simp add: undo_closed undo_hist_ok) (auto simp: hist_ok_def)
qed

text \<open>C26: the history never holds more than 50 entries, and at most 49 Undo presses in a row change the state: after 49 the cursor is on the oldest entry and a further Undo does nothing.\<close>

theorem history_bound:
  assumes "hist_ok s"
  shows "length (history (save_state s)) \<le> 50 \<and> fst (undo (undo_times 49 s)) = undo_times 49 s"
proof -
  have "hist_ok (save_state s)" using assms by (rule save_state_hist_ok)
  then have "length (history (save_state s)) \<le> 50" by (simp add: hist_ok_def)
  moreover have "hist_ok (undo_times 49 s)" and "history_index (undo_times 49 s) \<le> 0"
    using undo_times_index [OF assms, of 49] assms by (auto simp: hist_ok_def)
  then have "fst (undo (undo_times 49 s)) = undo_times 49 s"
    by (simp add: undo_closed)
  ultimately show ?thesis by simp
qed

text \<open>
  C2: Undo then Redo right after an action does not come back to the state the action
  produced: Undo installs the entry before the previous action, and Redo then installs the
  snapshot taken just before the action, so the live task list and statistics are those of
  the state before the action, and what the action did is lost from the history.
\<close>

lemma redo_after_undo:
  assumes ok: "hist_ok s" and ne: "history s \<noteq> []"
    and h: "history t = history (save_state s)" and i: "history_index t = history_index (save_state s)"
  shows "fst (redo (fst (undo t))) = install (state_snapshot s) t"
proof -
  have okt: "hist_ok t"
    using hist_ok_same_history [OF h i] save_state_hist_ok [OF ok] by simp
  have ht: "history t = pushed_history s"
    and it: "history_index t = int (length (pushed_history s)) - 1"
    using h i by (simp_all add: save_state_closed [OF ok])
  from ok ne obtain k where k: "history_index s = int k" "k < length (history s)"
    by (rule hist_okD)
  have two: "2 \<le> length (pushed_history s)" using pushed_history_prev [OF ok k] by simp
  let ?u = "install (history t ! (nat (history_index t) - 1)) (t\<lparr>history_index := history_index t - 1\<rparr>)"
  have u: "fst (undo t) = ?u" using two it by (simp add: undo_closed [OF okt])
  have oku: "hist_ok ?u" using undo_hist_ok [OF okt] u by simp
  have lt: "history_index ?u < int (length (history ?u)) - 1" using it ht two by simp
  have idx: "Suc (nat (history_index ?u)) = length (pushed_history s) - 1" using it two by simp
  have "last (pushed_history s) = state_snapshot s"
    using last_pushed_history [OF ok] by (simp add: save_state_closed [OF ok])
  moreover have "pushed_history s \<noteq> []" using two by auto
  ultimately have e: "pushed_history s ! (length (pushed_history s) - 1) = state_snapshot s"
    by (simp add: last_conv_nth)
  have r: "fst (redo ?u) = install (history ?u ! Suc (nat (history_index ?u)))
                             (?u\<lparr>history_index := history_index ?u + 1\<rparr>)"
    using lt by (subst redo_closed [OF oku]) simp
  show ?thesis
    unfolding u r using idx e ht by (simp add: install_def)
qed

end
