(* ===== verification/Task_Ids.thy ===== *)
theory Task_Ids
  imports Object_Store
begin

text \<open>
  The identifier allocator inside \<^verbatim>\<open>add_task\<close> (\<^verbatim>\<open>src/todo.py\<close>, lines 194--213):
  the identifiers of the current tasks are collected, the first letter \<^verbatim>\<open>A\<close>..\<^verbatim>\<open>Z\<close>
  not among them is taken (\<^verbatim>\<open>for i in range(26)\<close> with \<^verbatim>\<open>break\<close>, written with
  \<open>find\<close>), and when all 26 are used a counter runs from 1 until
  \<^verbatim>\<open>f"Task{counter}"\<close> is free. The counter loop has no bound in the code; it is a
  \<^theory_text>\<open>function\<close> whose termination measure counts the identifiers of the form
  \<^verbatim>\<open>Task<n>\<close> with \<open>n\<close> at least the counter, which relies on \<^verbatim>\<open>str\<close> being
  injective (\<open>parse_py_str_nat\<close>).
  The lemmas show that the identifier returned is fresh, that it is exactly the one the
  specification describes (the least free letter, else the least free \<^verbatim>\<open>Task<n>\<close>),
  and that the counter loop runs at most once per existing identifier.
\<close>

definition letter_id :: "nat \<Rightarrow> string" where
  "letter_id i = [char_of (65 + i)]"

definition counter_id :: "nat \<Rightarrow> string" where
  "counter_id c = ''Task'' @ py_str_nat c"

function first_free_counter :: "string list \<Rightarrow> nat \<Rightarrow> nat" where
  "first_free_counter ids c =
     (if counter_id c \<in> set ids then first_free_counter ids (Suc c) else c)"
  by pat_completeness auto

definition existing_ids :: "store \<Rightarrow> loc list \<Rightarrow> string list" where
  "existing_ids h ls = map (\<lambda>l. task_id (task_objs h l)) ls"

definition next_task_id :: "string list \<Rightarrow> string" where
  "next_task_id ids =
     (case find (\<lambda>i. letter_id i \<notin> set ids) [0..<26] of
        Some i \<Rightarrow> letter_id i
      | None \<Rightarrow> counter_id (first_free_counter ids 1))"

text \<open>The specification of the allocator (section 4.1 of the design).\<close>

definition spec_task_id :: "string list \<Rightarrow> string" where
  "spec_task_id ids =
     (if \<exists>i<26. letter_id i \<notin> set ids then letter_id (LEAST i. letter_id i \<notin> set ids)
      else counter_id (LEAST c. 1 \<le> c \<and> counter_id c \<notin> set ids))"

subsection \<open>Termination of the counter loop\<close>

lemma counter_id_inj [simp]: "counter_id m = counter_id n \<longleftrightarrow> m = n"
  by (simp add: counter_id_def)

lemma length_filter_shrinks:
  assumes "\<And>y. Q y \<Longrightarrow> P y" and "x \<in> set xs" and "P x" and "\<not> Q x"
  shows "length (filter Q xs) < length (filter P xs)"
proof -
  have eq: "filter Q xs = filter Q (filter P xs)"
    using assms(1) by (induction xs) auto
  have "length (filter Q (filter P xs)) < length (filter P xs)"
    by (rule length_filter_less) (use assms(2-4) in auto)
  with eq show ?thesis by metis
qed

termination first_free_counter
proof (relation "measure (\<lambda>(ids, c). length (filter (\<lambda>s. \<exists>n\<ge>c. s = counter_id n) ids))")
  fix ids c
  assume "counter_id c \<in> set ids"
  then show "((ids, Suc c), ids, c)
             \<in> measure (\<lambda>(ids, c). length (filter (\<lambda>s. \<exists>n\<ge>c. s = counter_id n) ids))"
    by (auto intro!: length_filter_shrinks [where x = "counter_id c"])
qed simp

declare first_free_counter.simps [simp del]

subsection \<open>What the loops return\<close>

lemma first_free_counter_spec:
  "c \<le> first_free_counter ids c \<and> counter_id (first_free_counter ids c) \<notin> set ids \<and>
   (\<forall>d. c \<le> d \<and> d < first_free_counter ids c \<longrightarrow> counter_id d \<in> set ids)"
proof (induction ids c rule: first_free_counter.induct)
  case (1 ids c)
  show ?case
  proof (cases "counter_id c \<in> set ids")
    case True
    with "1.IH" have IH: "Suc c \<le> first_free_counter ids (Suc c) \<and>
        counter_id (first_free_counter ids (Suc c)) \<notin> set ids \<and>
        (\<forall>d. Suc c \<le> d \<and> d < first_free_counter ids (Suc c) \<longrightarrow> counter_id d \<in> set ids)"
      by simp
    have "\<forall>d. c \<le> d \<and> d < first_free_counter ids (Suc c) \<longrightarrow> counter_id d \<in> set ids"
    proof (intro allI impI)
      fix d assume "c \<le> d \<and> d < first_free_counter ids (Suc c)"
      with IH True show "counter_id d \<in> set ids" by (cases "d = c") auto
    qed
    with IH True show ?thesis
      by (simp add: first_free_counter.simps [of ids c])
  next
    case False
    then show ?thesis by (auto simp: first_free_counter.simps [of ids c])
  qed
qed

lemma find_letter_Some:
  assumes "find (\<lambda>i. letter_id i \<notin> set ids) [0..<26] = Some i"
  shows "i < 26 \<and> letter_id i \<notin> set ids \<and> (\<forall>j<i. letter_id j \<in> set ids)"
  using assms by (auto simp: find_Some_iff)

lemma find_letter_None:
  "find (\<lambda>i. letter_id i \<notin> set ids) [0..<26] = None \<longleftrightarrow> (\<forall>i<26. letter_id i \<in> set ids)"
  by (auto simp: find_None_iff)

subsection \<open>Properties of the allocator\<close>

lemma next_task_id_unused: "next_task_id ids \<notin> set ids"
proof (cases "find (\<lambda>i. letter_id i \<notin> set ids) [0..<26]")
  case None
  then show ?thesis using first_free_counter_spec [of 1 ids] by (simp add: next_task_id_def)
next
  case (Some i)
  then show ?thesis using find_letter_Some [OF Some] by (simp add: next_task_id_def)
qed

text \<open>The identifier \<open>add_task\<close> allocates is not the identifier of any current task.\<close>

lemma next_task_id_fresh: "next_task_id ids \<notin> set ids"
  by (rule next_task_id_unused)

text \<open>
  C30: the allocator returns exactly what its specification describes: the least letter
  not in use when one of \<^verbatim>\<open>A\<close>..\<^verbatim>\<open>Z\<close> is free, and otherwise
  \<^verbatim>\<open>Task<n>\<close> for the least \<open>n \<ge> 1\<close> not in use.
\<close>

theorem next_task_id_spec: "next_task_id ids = spec_task_id ids"
proof (cases "find (\<lambda>i. letter_id i \<notin> set ids) [0..<26]")
  case None
  then have used: "\<forall>i<26. letter_id i \<in> set ids" by (simp add: find_letter_None)
  have "(LEAST c. 1 \<le> c \<and> counter_id c \<notin> set ids) = first_free_counter ids 1"
  proof (rule Least_equality)
    show "1 \<le> first_free_counter ids 1 \<and> counter_id (first_free_counter ids 1) \<notin> set ids"
      using first_free_counter_spec [of 1 ids] by simp
  next
    fix d assume "1 \<le> d \<and> counter_id d \<notin> set ids"
    then show "first_free_counter ids 1 \<le> d"
      using first_free_counter_spec [of 1 ids] by (meson not_le)
  qed
  with None used show ?thesis by (auto simp: next_task_id_def spec_task_id_def)
next
  case (Some i)
  from find_letter_Some [OF Some]
  have i: "i < 26" "letter_id i \<notin> set ids" "\<forall>j<i. letter_id j \<in> set ids" by simp_all
  have "(LEAST j. letter_id j \<notin> set ids) = i"
  proof (rule Least_equality)
    show "letter_id i \<notin> set ids" by (rule i(2))
  next
    fix j assume "letter_id j \<notin> set ids"
    with i(3) show "i \<le> j" by (meson not_le)
  qed
  with Some i show ?thesis by (auto simp: next_task_id_def spec_task_id_def)
qed

text \<open>
  C40: the \<^verbatim>\<open>while f"Task{counter}" in existing_ids\<close> loop terminates after at most one
  iteration per existing identifier: started at \<open>c\<close>, it stops at a counter no larger
  than \<open>c\<close> plus the number of identifiers.
\<close>

theorem first_free_counter_bound: "first_free_counter ids c \<le> c + length ids"
proof -
  let ?r = "first_free_counter ids c"
  have sub: "counter_id ` {c..<?r} \<subseteq> set ids"
    using first_free_counter_spec [of c ids] by auto
  have "inj_on counter_id {c..<?r}" by (simp add: inj_on_def)
  then have "card (counter_id ` {c..<?r}) = ?r - c" by (simp add: card_image)
  moreover have "card (counter_id ` {c..<?r}) \<le> card (set ids)"
    using sub by (simp add: card_mono)
  moreover have "card (set ids) \<le> length ids" by (rule card_length)
  ultimately show ?thesis by linarith
qed

end
