(* ===== verification/Statistics.thy ===== *)
theory Statistics
  imports Object_Store
begin

text \<open>
  The statistics of \<^verbatim>\<open>TodoApp\<close> (\<^verbatim>\<open>src/todo.py\<close>): the per-day completion counter
  bumped by the Done handlers (line 266), the averages (\<^verbatim>\<open>calculate_daily_average\<close>,
  \<^verbatim>\<open>calculate_weekly_average\<close>, \<^verbatim>\<open>calculate_monthly_average\<close>, lines 434--455), the
  per-task success rate and the table sorted by identifier (lines 412--419), the table
  of the last seven days (426--430), and the data of the seven-day chart with its bar
  colours (464--485).

  Dates. The code keys \<^verbatim>\<open>daily\<close> by \<^verbatim>\<open>(datetime.now() - timedelta(days=i))
  .strftime('%Y-%m-%d')\<close>. The clock is an input here: the current date is a day number
  (days since 1970-01-01), \<open>civil_of_day\<close> turns a day number into year, month and day
  of the proleptic Gregorian calendar (the algorithm of H. Hinnant, with floor division
  as in \<^verbatim>\<open>datetime\<close>), and \<open>date_key\<close> prints it zero-padded as \<^verbatim>\<open>strftime\<close> does
  for the years 1000--9999.

  The lemmas show that the loop of \<^verbatim>\<open>calculate_daily_average\<close> computes the average
  over the dates of the window that have an entry (an equivalence with a reference
  definition), that it lies between 0 and the largest count of the window, that the
  weekly and monthly figures are the daily one times 7 and 30, that the success rate is
  a percentage and 0 for a task never acted on, and that a completion adds one to the sum
  of \<^verbatim>\<open>daily\<close>. The table sorted by identifier is used again by the per-task chart
  (theory \<open>Display\<close>).
\<close>

subsection \<open>Calendar keys\<close>

definition civil_of_day :: "int \<Rightarrow> int \<times> int \<times> int" where
  "civil_of_day day =
     (let z = day + 719468; era = z div 146097; doe = z - era * 146097;
          yoe = (doe - doe div 1460 + doe div 36524 - doe div 146096) div 365;
          doy = doe - (365 * yoe + yoe div 4 - yoe div 100);
          mp = (5 * doy + 2) div 153;
          d = doy - (153 * mp + 2) div 5 + 1;
          m = (if mp < 10 then mp + 3 else mp - 9)
      in (yoe + era * 400 + (if m \<le> 2 then 1 else 0), m, d))"

definition zero_pad :: "nat \<Rightarrow> nat \<Rightarrow> string" where
  "zero_pad w n = replicate (w - length (py_str_nat n)) (CHR ''0'') @ py_str_nat n"

definition date_key :: "int \<Rightarrow> string" where
  "date_key day =
     (case civil_of_day day of
        (y, m, d) \<Rightarrow> zero_pad 4 (nat y) @ ''-'' @ zero_pad 2 (nat m) @ ''-'' @ zero_pad 2 (nat d))"

subsection \<open>Completions per day\<close>

text \<open>\<^verbatim>\<open>daily[today] = daily.get(today, 0) + 1\<close>.\<close>

definition record_completion :: "(string \<rightharpoonup> int) \<Rightarrow> string \<Rightarrow> (string \<rightharpoonup> int)" where
  "record_completion d k = d(k \<mapsto> dict_get d k 0 + 1)"

subsection \<open>Averages\<close>

text \<open>One iteration of \<^verbatim>\<open>for i in range(30)\<close> in \<^verbatim>\<open>calculate_daily_average\<close>.\<close>

definition average_step :: "(string \<rightharpoonup> int) \<Rightarrow> int \<Rightarrow> int \<times> nat \<Rightarrow> nat \<Rightarrow> int \<times> nat" where
  "average_step per_day today acc i =
     (let date = date_key (today - int i)
      in case per_day date of
           None \<Rightarrow> acc
         | Some c \<Rightarrow> (fst acc + c, Suc (snd acc)))"

definition calculate_daily_average :: "(string \<rightharpoonup> int) \<Rightarrow> int \<Rightarrow> real" where
  "calculate_daily_average per_day today =
     (if dom per_day = {} then 0
      else case foldl (average_step per_day today) (0, 0) [0..<30] of
             (count_sum, days) \<Rightarrow> real_of_int count_sum / real (max days 1))"

definition calculate_weekly_average :: "(string \<rightharpoonup> int) \<Rightarrow> int \<Rightarrow> real" where
  "calculate_weekly_average per_day today = calculate_daily_average per_day today * 7"

definition calculate_monthly_average :: "(string \<rightharpoonup> int) \<Rightarrow> int \<Rightarrow> real" where
  "calculate_monthly_average per_day today = calculate_daily_average per_day today * 30"

text \<open>
  Reference definition: the counts of the dates of the last \<open>n\<close> days (today
  included) that have an entry, and their mean.
\<close>

definition window_keys :: "int \<Rightarrow> nat \<Rightarrow> string list" where
  "window_keys today n = map (\<lambda>i. date_key (today - int i)) [0..<n]"

definition window_counts :: "(string \<rightharpoonup> int) \<Rightarrow> int \<Rightarrow> nat \<Rightarrow> int list" where
  "window_counts per_day today n = List.map_filter per_day (window_keys today n)"

definition mean_of_present :: "(string \<rightharpoonup> int) \<Rightarrow> int \<Rightarrow> real" where
  "mean_of_present per_day today =
     (if dom per_day = {} then 0
      else let vs = window_counts per_day today 30
           in real_of_int (sum_list vs) / real (max (length vs) 1))"

subsection \<open>Per-task figures and tables\<close>

text \<open>\<^verbatim>\<open>rate = (completed / total * 100) if total > 0 else 0\<close> (line 418).\<close>

definition success_rate :: "task \<Rightarrow> py_error + real" where
  "success_rate t =
     (let completed = completed_count t; skipped = skipped_count t; total = completed + skipped
      in if 0 < total
         then (case py_truediv completed total of Inl e \<Rightarrow> Inl e | Inr q \<Rightarrow> Inr (q * 100))
         else Inr 0)"

text \<open>\<^verbatim>\<open>sorted(self.tasks, key=lambda x: x.get('task_id', 'ZZZ'))\<close> (lines 412 and 514).\<close>

definition task_table :: "task list \<Rightarrow> task list" where
  "task_table ts = sort_key task_id ts"

text \<open>The "Recent Daily Counts" lines: today first, seven days.\<close>

definition recent_counts :: "(string \<rightharpoonup> int) \<Rightarrow> int \<Rightarrow> (string \<times> int) list" where
  "recent_counts per_day today =
     map (\<lambda>i. let date = date_key (today - int i) in (date, dict_get per_day date 0)) [0..<7]"

text \<open>The seven-day chart: oldest day first, and the colour of each bar.\<close>

definition chart_counts :: "(string \<rightharpoonup> int) \<Rightarrow> int \<Rightarrow> int list" where
  "chart_counts per_day today = map (\<lambda>i. dict_get per_day (date_key (today - int i)) 0) (rev [0..<7])"

datatype bar_color = Green | Red | Blue

definition bar_colors :: "int list \<Rightarrow> bar_color list" where
  "bar_colors counts =
     (let max_count = Max (set counts); min_count = Min (set counts)
      in map (\<lambda>c. if c = max_count \<and> 0 < max_count then Green
                   else if c = min_count then Red else Blue) counts)"

definition chart_average :: "int list \<Rightarrow> real" where
  "chart_average counts = real_of_int (sum_list counts) / real (length counts)"

subsection \<open>The averaging loop\<close>

lemma foldl_average_step:
  "foldl (average_step per_day today) (t, d) is =
     (t + sum_list (List.map_filter per_day (map (\<lambda>i. date_key (today - int i)) is)),
      d + length (List.map_filter per_day (map (\<lambda>i. date_key (today - int i)) is)))"
proof (induction "is" arbitrary: t d)
  case Nil
  then show ?case by (simp add: map_filter_simps)
next
  case (Cons i "is")
  then show ?case
    by (cases "per_day (date_key (today - int i))")
       (simp_all add: average_step_def map_filter_simps)
qed

text \<open>
  C34: the loop of \<^verbatim>\<open>calculate_daily_average\<close> computes the mean of the counts of those
  dates among the last 30 days (today included) that have an entry in \<^verbatim>\<open>daily\<close>,
  divided by at least 1, and 0 for an empty dictionary.
\<close>

theorem daily_average_equiv: "calculate_daily_average per_day today = mean_of_present per_day today"
  by (simp add: calculate_daily_average_def mean_of_present_def window_counts_def
      window_keys_def foldl_average_step Let_def)

lemma set_map_filter_ran: "set (List.map_filter m ks) \<subseteq> ran m"
  by (induction ks) (auto simp: map_filter_simps ranI split: option.splits)

lemma sum_list_le_length_mult:
  "\<forall>v\<in>set vs. v \<le> (M::int) \<Longrightarrow> sum_list vs \<le> int (length vs) * M"
  by (induction vs) (auto simp: algebra_simps)

lemma sum_list_nonneg_int: "\<forall>v\<in>set vs. 0 \<le> (v::int) \<Longrightarrow> 0 \<le> sum_list vs"
  by (induction vs) auto

text \<open>
  C38: when every count in \<^verbatim>\<open>daily\<close> lies between 0 and a bound \<open>M \<ge> 0\<close>, the daily
  average lies between 0 and \<open>M\<close>, and so the weekly and monthly figures lie
  between 0 and \<open>7 M\<close> and \<open>30 M\<close>.
\<close>

theorem daily_average_bounds:
  assumes "0 \<le> M" and "\<forall>v\<in>ran per_day. 0 \<le> v \<and> v \<le> M"
  shows "0 \<le> calculate_daily_average per_day today \<and> calculate_daily_average per_day today \<le> M \<and>
         calculate_weekly_average per_day today \<le> 7 * M \<and>
         calculate_monthly_average per_day today \<le> 30 * M"
proof -
  let ?vs = "window_counts per_day today 30"
  have vs: "\<forall>v\<in>set ?vs. 0 \<le> v \<and> v \<le> M"
    using assms(2) set_map_filter_ran [of per_day] by (auto simp: window_counts_def)
  then have sum_le: "sum_list ?vs \<le> int (length ?vs) * M" and sum_ge: "0 \<le> sum_list ?vs"
    by (simp_all add: sum_list_le_length_mult sum_list_nonneg_int)
  have mean: "0 \<le> real_of_int (sum_list ?vs) / real (max (length ?vs) 1) \<and>
              real_of_int (sum_list ?vs) / real (max (length ?vs) 1) \<le> real_of_int M"
  proof (cases "?vs = []")
    case True
    with assms(1) show ?thesis by simp
  next
    case False
    then have len: "1 \<le> length ?vs" by (simp add: Suc_le_eq)
    then have eq: "max (length ?vs) 1 = length ?vs" by (rule max_absorb1)
    have pos: "0 < real (max (length ?vs) 1)" using eq False by simp
    have "real_of_int (sum_list ?vs) \<le> real (length ?vs) * real_of_int M"
      using sum_le by (metis of_int_le_iff of_int_mult of_int_of_nat_eq)
    with pos eq sum_ge show ?thesis
      by (simp add: divide_le_eq mult.commute)
  qed
  then have "0 \<le> calculate_daily_average per_day today \<and> calculate_daily_average per_day today \<le> M"
    using assms(1) by (simp add: daily_average_equiv mean_of_present_def Let_def)
  then show ?thesis
    by (simp add: calculate_weekly_average_def calculate_monthly_average_def)
qed

subsection \<open>Success rates\<close>

lemma percent_range:
  assumes "0 \<le> c" and "0 \<le> (s::int)" and "0 < c + s"
  shows "0 \<le> real_of_int c / real_of_int (c + s) * 100 \<and> real_of_int c / real_of_int (c + s) * 100 \<le> 100"
proof -
  have "real_of_int c \<le> real_of_int (c + s)" and "0 < real_of_int (c + s)" and "0 \<le> real_of_int c"
    using assms by simp_all
  moreover define x where "x = real_of_int c / real_of_int (c + s)"
  ultimately have "x \<le> 1" and "0 \<le> x" by simp_all
  then show ?thesis unfolding x_def [symmetric] by linarith
qed

text \<open>The division of line 418 when the guard holds: the total is not zero.\<close>

lemma success_rate_pos:
  "0 < completed_count t + skipped_count t \<Longrightarrow>
   success_rate t =
     Inr (real_of_int (completed_count t) / real_of_int (completed_count t + skipped_count t) * 100)"
  by (simp add: success_rate_def py_truediv_def Let_def)

lemma success_rate_range:
  assumes "0 \<le> completed_count t" and "0 \<le> skipped_count t"
  shows "\<exists>r. success_rate t = Inr r \<and> 0 \<le> r \<and> r \<le> 100"
proof (cases "0 < completed_count t + skipped_count t")
  case True
  then show ?thesis using success_rate_pos [OF True] percent_range [OF assms True] by simp
next
  case False
  then show ?thesis by (simp add: success_rate_def Let_def)
qed

text \<open>The guard of line 418 keeps the division away from zero: the rate never raises.\<close>

lemma success_rate_value: "\<exists>r. success_rate t = Inr r"
  by (simp add: success_rate_def py_truediv_def Let_def)

text \<open>
  C39: for non-negative counts the success rate of a task is a value, never an exception,
  between 0 and 100: it is \<open>100 * completed / (completed + skipped)\<close> for a task that was
  done or skipped, and 0, not a \<^verbatim>\<open>ZeroDivisionError\<close>, for a task that was neither
  (the guard \<^verbatim>\<open>if total > 0\<close> of line 418).
\<close>

theorem success_rate_bounds:
  assumes "0 \<le> completed_count t" and "0 \<le> skipped_count t"
  shows "(\<exists>r. success_rate t = Inr r \<and> 0 \<le> r \<and> r \<le> 100) \<and>
         (completed_count t + skipped_count t = 0 \<longrightarrow> success_rate t = Inr 0) \<and>
         (0 < completed_count t + skipped_count t \<longrightarrow>
            success_rate t =
              Inr (100 * real_of_int (completed_count t) / real_of_int (completed_count t + skipped_count t)))"
proof (cases "0 < completed_count t + skipped_count t")
  case True
  then show ?thesis using success_rate_pos [OF True] percent_range [OF assms True] by simp
next
  case False
  then have z: "completed_count t + skipped_count t = 0" using assms by simp
  have "success_rate t = Inr 0" using False by (simp add: success_rate_def Let_def)
  with z show ?thesis by simp
qed

text \<open>
  C35: the seven-day chart and the "Recent Daily Counts" lines of the statistics panel read
  the same seven counts, the chart oldest day first and the panel today first.
\<close>

theorem chart_matches_recent:
  "chart_counts per_day today = rev (map snd (recent_counts per_day today))"
  by (simp add: chart_counts_def recent_counts_def Let_def rev_map comp_def)

subsection \<open>Completions keep the total\<close>

lemma record_completion_sum:
  "finite (dom d) \<Longrightarrow>
   finite (dom (record_completion d k)) \<and> dict_sum (record_completion d k) = dict_sum d + 1"
  by (simp add: record_completion_def dict_sum_bump)

end
