(* ===== verification/Task_Queue.thy ===== *)
theory Task_Queue
  imports History Task_Ids Statistics
begin

text \<open>
  The button handlers of \<^verbatim>\<open>TodoApp\<close> that change data (\<^verbatim>\<open>src/todo.py\<close>, lines
  189--331). Each takes the application state and what the GUI supplies: the answer of a
  dialog (\<open>None\<close> for Cancel), the listbox selection (\<open>None\<close> for no selection), the
  answer of the confirmation box, and the clock (a timestamp string for
  \<^verbatim>\<open>created\<close>, the current day number for \<^verbatim>\<open>daily\<close>). Each returns the new state and
  how the handler ended. The branches follow the code: the guard that returns early,
  the warning dialogs, \<^verbatim>\<open>save_state\<close> before the mutation, and an
  \<^verbatim>\<open>IndexError\<close> of \<^verbatim>\<open>self.tasks[index]\<close> or \<^verbatim>\<open>pop(index)\<close>, which escapes
  with everything done before it in place. The bodies of the Done and Skip handlers are
  the same for the current and the selected task in the code; \<open>done_rotate\<close> and
  \<open>skip_rotate\<close> are those bodies, from \<^verbatim>\<open>save_state\<close> on.

  The lemmas give the result of every handler on every branch: the rejected inputs
  leave the state as it was; the rotation moves the acted-on task to the end with its
  counter incremented and keeps the order of the others; an out-of-range index raises
  after the history entry was pushed; and the snapshot the Done handler pushes is
  changed by the Done itself, because it shares the task object and the
  \<^verbatim>\<open>daily\<close> dictionary with the live state.
\<close>

subsection \<open>The handlers\<close>

definition add_task :: "todo_app \<Rightarrow> string option \<Rightarrow> string \<Rightarrow> todo_app \<times> outcome" where
  "add_task s answer now_iso =
     (case answer of
        None \<Rightarrow> (s, Ok)
      | Some desc \<Rightarrow>
          if desc = [] then (s, Ok)
          else
            let s1 = save_state s;
                new_id = next_task_id (existing_ids (store s1) (tasks s1));
                task_data = \<lparr>task_id = new_id, description = desc, created = now_iso,
                             completed_count = 0, skipped_count = 0\<rparr>;
                (l, h) = new_task task_data (store s1)
            in (s1\<lparr>tasks := tasks s1 @ [l], store := h\<rparr>, Ok))"

definition edit_task :: "todo_app \<Rightarrow> nat option \<Rightarrow> string option \<Rightarrow> todo_app \<times> outcome" where
  "edit_task s selection answer =
     (case selection of
        None \<Rightarrow> (s, Warned ''Please select a task to edit'')
      | Some index \<Rightarrow>
          (case py_index (tasks s) (int index) of
             Inl e \<Rightarrow> (s, Raised e)
           | Inr l \<Rightarrow>
               (case answer of
                  None \<Rightarrow> (s, Ok)
                | Some new_desc \<Rightarrow>
                    if new_desc = [] then (s, Ok)
                    else let s1 = save_state s
                         in (s1\<lparr>store := update_task l (\<lambda>t. t\<lparr>description := new_desc\<rparr>) (store s1)\<rparr>,
                             Ok))))"

definition delete_task :: "todo_app \<Rightarrow> nat option \<Rightarrow> bool \<Rightarrow> todo_app \<times> outcome" where
  "delete_task s selection confirmed =
     (case selection of
        None \<Rightarrow> (s, Warned ''Please select a task to delete'')
      | Some index \<Rightarrow>
          if confirmed then
            let s1 = save_state s
            in case py_pop (tasks s1) index of
                 Inl e \<Rightarrow> (s1, Raised e)
               | Inr (_, rest) \<Rightarrow> (s1\<lparr>tasks := rest\<rparr>, Ok)
          else (s, Ok))"

definition done_rotate :: "todo_app \<Rightarrow> nat \<Rightarrow> int \<Rightarrow> todo_app \<times> outcome" where
  "done_rotate s index today =
     (let s1 = save_state s
      in case py_pop (tasks s1) index of
           Inl e \<Rightarrow> (s1, Raised e)
         | Inr (l, rest) \<Rightarrow>
             let h1 = update_task l (\<lambda>t. t\<lparr>completed_count := completed_count t + 1\<rparr>) (store s1);
                 key = date_key today;
                 h2 = update_dict (daily (statistics s1)) (\<lambda>d. record_completion d key) h1;
                 st = statistics s1
             in (s1\<lparr>tasks := rest @ [l], store := h2,
                    statistics := st\<lparr>total_done := total_done st + 1\<rparr>\<rparr>, Ok))"

definition skip_rotate :: "todo_app \<Rightarrow> nat \<Rightarrow> todo_app \<times> outcome" where
  "skip_rotate s index =
     (let s1 = save_state s
      in case py_pop (tasks s1) index of
           Inl e \<Rightarrow> (s1, Raised e)
         | Inr (l, rest) \<Rightarrow>
             let h1 = update_task l (\<lambda>t. t\<lparr>skipped_count := skipped_count t + 1\<rparr>) (store s1);
                 st = statistics s1
             in (s1\<lparr>tasks := rest @ [l], store := h1,
                    statistics := st\<lparr>total_skipped := total_skipped st + 1\<rparr>\<rparr>, Ok))"

definition mark_current_done :: "todo_app \<Rightarrow> int \<Rightarrow> todo_app \<times> outcome" where
  "mark_current_done s today = (if tasks s = [] then (s, Ok) else done_rotate s 0 today)"

definition mark_current_skip :: "todo_app \<Rightarrow> todo_app \<times> outcome" where
  "mark_current_skip s = (if tasks s = [] then (s, Ok) else skip_rotate s 0)"

definition mark_selected_done :: "todo_app \<Rightarrow> nat option \<Rightarrow> int \<Rightarrow> todo_app \<times> outcome" where
  "mark_selected_done s selection today =
     (case selection of
        None \<Rightarrow> (s, Warned ''Please select a task to mark as done'')
      | Some index \<Rightarrow> done_rotate s index today)"

definition mark_selected_skip :: "todo_app \<Rightarrow> nat option \<Rightarrow> todo_app \<times> outcome" where
  "mark_selected_skip s selection =
     (case selection of
        None \<Rightarrow> (s, Warned ''Please select a task to mark as skipped'')
      | Some index \<Rightarrow> skip_rotate s index)"

text \<open>The aliases kept "for backward compatibility" (lines 325--331).\<close>

definition mark_done :: "todo_app \<Rightarrow> int \<Rightarrow> todo_app \<times> outcome" where
  "mark_done s today = mark_current_done s today"

definition mark_skip :: "todo_app \<Rightarrow> todo_app \<times> outcome" where
  "mark_skip s = mark_current_skip s"

text \<open>What a Done does to a task and to the statistics, read as values.\<close>

definition bump_done :: "task \<Rightarrow> task" where
  "bump_done t = t\<lparr>completed_count := completed_count t + 1\<rparr>"

definition bump_skip :: "task \<Rightarrow> task" where
  "bump_skip t = t\<lparr>skipped_count := skipped_count t + 1\<rparr>"

subsection \<open>Rotation\<close>

text \<open>The effect of \<open>done_rotate\<close> and \<open>skip_rotate\<close> on an index in range, field by field.\<close>

lemma done_rotate_in_range:
  assumes "i < length (tasks s)"
  shows "done_rotate s i today =
    (let l = tasks s ! i; st = statistics s in
     ((save_state s)\<lparr>tasks := remove_at i (tasks s) @ [l],
        store := update_dict (daily st) (\<lambda>d. record_completion d (date_key today))
                   (update_task l bump_done (store s)),
        statistics := st\<lparr>total_done := total_done st + 1\<rparr>\<rparr>, Ok))"
  using assms by (simp add: done_rotate_def Let_def bump_done_def)

lemma skip_rotate_in_range:
  assumes "i < length (tasks s)"
  shows "skip_rotate s i =
    (let l = tasks s ! i; st = statistics s in
     ((save_state s)\<lparr>tasks := remove_at i (tasks s) @ [l],
        store := update_task l bump_skip (store s),
        statistics := st\<lparr>total_skipped := total_skipped st + 1\<rparr>\<rparr>, Ok))"
  using assms by (simp add: skip_rotate_def Let_def bump_skip_def)

lemma done_rotate_view:
  assumes "distinct (tasks s)" and "i < length (tasks s)"
  shows "live_tasks (fst (done_rotate s i today)) =
           remove_at i (live_tasks s) @ [bump_done (live_tasks s ! i)] \<and>
         live_stats (fst (done_rotate s i today)) =
           (live_stats s)\<lparr>daily_counts := record_completion (daily_counts (live_stats s)) (date_key today),
                          done_total := done_total (live_stats s) + 1\<rparr> \<and>
         history (fst (done_rotate s i today)) = history (save_state s) \<and>
         history_index (fst (done_rotate s i today)) = history_index (save_state s) \<and>
         snd (done_rotate s i today) = Ok"
  using assms
  by (simp add: done_rotate_in_range Let_def live_tasks_def live_stats_def stats_value_def
      task_values_update_remove_at)

lemma skip_rotate_view:
  assumes "distinct (tasks s)" and "i < length (tasks s)"
  shows "live_tasks (fst (skip_rotate s i)) =
           remove_at i (live_tasks s) @ [bump_skip (live_tasks s ! i)] \<and>
         live_stats (fst (skip_rotate s i)) =
           (live_stats s)\<lparr>skipped_total := skipped_total (live_stats s) + 1\<rparr> \<and>
         history (fst (skip_rotate s i)) = history (save_state s) \<and>
         history_index (fst (skip_rotate s i)) = history_index (save_state s) \<and>
         snd (skip_rotate s i) = Ok"
  using assms
  by (simp add: skip_rotate_in_range Let_def live_tasks_def live_stats_def stats_value_def
      task_values_update_remove_at)

lemma add_task_view:
  assumes "desc \<noteq> []" and "\<forall>l\<in>set (tasks s). l < next_loc (store s)"
  shows "live_tasks (fst (add_task s (Some desc) now)) =
           live_tasks s @ [\<lparr>task_id = next_task_id (map task_id (live_tasks s)), description = desc,
                           created = now, completed_count = 0, skipped_count = 0\<rparr>] \<and>
         live_stats (fst (add_task s (Some desc) now)) = live_stats s"
proof -
  have "next_loc (store s) \<notin> set (tasks s)" using assms(2) by auto
  with assms(1) show ?thesis
    by (simp add: add_task_def Let_def live_tasks_def live_stats_def stats_value_def
        existing_ids_def task_values_def new_task_def comp_def)
qed

lemma edit_task_view:
  assumes "distinct (tasks s)" and "i < length (tasks s)" and "d \<noteq> []"
  shows "live_tasks (fst (edit_task s (Some i) (Some d))) =
           (live_tasks s)[i := (live_tasks s ! i)\<lparr>description := d\<rparr>] \<and>
         live_stats (fst (edit_task s (Some i) (Some d))) = live_stats s"
  using assms
  by (simp add: edit_task_def Let_def live_tasks_def live_stats_def stats_value_def
      task_values_update_nth)

lemma delete_task_view:
  assumes "i < length (tasks s)"
  shows "live_tasks (fst (delete_task s (Some i) True)) = remove_at i (live_tasks s) \<and>
         live_stats (fst (delete_task s (Some i) True)) = live_stats s"
  using assms
  by (simp add: delete_task_def Let_def live_tasks_def live_stats_def stats_value_def
      task_values_remove_at)

subsection \<open>The handlers on each branch\<close>

text \<open>
  C8: rotation of a selected task: Done on the task at index \<open>i\<close> of a queue without
  repeated references keeps the other tasks in their order, puts the task last with its
  completion count one higher, adds one to today's entry of \<^verbatim>\<open>daily\<close> and one to the
  total; Skip does the same with the skip count and the skip total and leaves
  \<^verbatim>\<open>daily\<close> alone.
\<close>

theorem rotate_selected:
  assumes "distinct (tasks s)" and "i < length (tasks s)"
  shows "live_tasks (fst (mark_selected_done s (Some i) today)) =
           remove_at i (live_tasks s) @ [bump_done (live_tasks s ! i)] \<and>
         live_stats (fst (mark_selected_done s (Some i) today)) =
           (live_stats s)\<lparr>daily_counts := record_completion (daily_counts (live_stats s)) (date_key today),
                          done_total := done_total (live_stats s) + 1\<rparr> \<and>
         live_tasks (fst (mark_selected_skip s (Some i))) =
           remove_at i (live_tasks s) @ [bump_skip (live_tasks s ! i)] \<and>
         live_stats (fst (mark_selected_skip s (Some i))) =
           (live_stats s)\<lparr>skipped_total := skipped_total (live_stats s) + 1\<rparr>"
  using done_rotate_view [OF assms] skip_rotate_view [OF assms]
  by (simp add: mark_selected_done_def mark_selected_skip_def)

text \<open>
  C7: rotation of the current task: on a non-empty queue of \<open>N\<close> tasks, Done (Current)
  and Skip (Current) move the head task to index \<open>N - 1\<close> with its count one higher and
  shift every other task one place to the front.
\<close>

theorem rotate_current:
  assumes "distinct (tasks s)" and "tasks s \<noteq> []"
  shows "live_tasks (fst (mark_current_done s today)) =
           tl (live_tasks s) @ [bump_done (hd (live_tasks s))] \<and>
         live_tasks (fst (mark_current_skip s)) =
           tl (live_tasks s) @ [bump_skip (hd (live_tasks s))]"
proof -
  have i: "0 < length (tasks s)" using assms(2) by simp
  have "remove_at 0 (live_tasks s) = tl (live_tasks s)" and "live_tasks s ! 0 = hd (live_tasks s)"
    using assms(2) by (simp_all add: remove_at_def live_tasks_def task_values_def hd_conv_nth drop_Suc)
  with done_rotate_view [OF assms(1) i] skip_rotate_view [OF assms(1) i] assms(2) show ?thesis
    by (simp add: mark_current_done_def mark_current_skip_def)
qed

text \<open>
  C28: rejected input changes nothing and pushes no history entry: Cancel or an empty
  description in Add or Edit, no selection in Edit, Delete, Done (Selected) and Skip
  (Selected) (which show a warning), a declined confirmation in Delete, and Done or Skip
  (Current) on an empty queue.
\<close>

theorem rejected_inputs_unchanged:
  "add_task s None now = (s, Ok) \<and> add_task s (Some []) now = (s, Ok) \<and>
   edit_task s None answer = (s, Warned ''Please select a task to edit'') \<and>
   (i < length (tasks s) \<longrightarrow> edit_task s (Some i) None = (s, Ok) \<and> edit_task s (Some i) (Some []) = (s, Ok)) \<and>
   delete_task s None c = (s, Warned ''Please select a task to delete'') \<and>
   delete_task s (Some i) False = (s, Ok) \<and>
   mark_selected_done s None today = (s, Warned ''Please select a task to mark as done'') \<and>
   mark_selected_skip s None = (s, Warned ''Please select a task to mark as skipped'') \<and>
   (tasks s = [] \<longrightarrow> mark_current_done s today = (s, Ok) \<and> mark_current_skip s = (s, Ok))"
  by (simp add: add_task_def edit_task_def delete_task_def mark_selected_done_def
      mark_selected_skip_def mark_current_done_def mark_current_skip_def)

text \<open>
  C29: a selection index out of range makes Done (Selected), Skip (Selected) and Delete
  raise \<^verbatim>\<open>IndexError\<close> after \<^verbatim>\<open>save_state\<close> has pushed a history entry, so the
  failed action leaves a new undo entry behind; Edit raises before changing anything.
\<close>

theorem out_of_range_raises:
  assumes "length (tasks s) \<le> i"
  shows "mark_selected_done s (Some i) today = (save_state s, Raised IndexError) \<and>
         mark_selected_skip s (Some i) = (save_state s, Raised IndexError) \<and>
         delete_task s (Some i) True = (save_state s, Raised IndexError) \<and>
         edit_task s (Some i) answer = (s, Raised IndexError)"
  using assms
  by (simp add: mark_selected_done_def mark_selected_skip_def done_rotate_def skip_rotate_def
      delete_task_def edit_task_def Let_def)

text \<open>
  C27: Add with a non-empty description (the code tests only for the empty string, so a
  description of blanks is accepted) pushes a history entry and appends a task with a
  fresh identifier from the allocator, that description, the given timestamp and zero
  counts; the other tasks and the statistics are unchanged.
\<close>

theorem add_task_appends:
  assumes "desc \<noteq> []" and "\<forall>l\<in>set (tasks s). l < next_loc (store s)"
  shows "live_tasks (fst (add_task s (Some desc) now)) =
           live_tasks s @ [\<lparr>task_id = next_task_id (map task_id (live_tasks s)), description = desc,
                           created = now, completed_count = 0, skipped_count = 0\<rparr>] \<and>
         live_stats (fst (add_task s (Some desc) now)) = live_stats s \<and>
         history (fst (add_task s (Some desc) now)) = history (save_state s) \<and>
         snd (add_task s (Some desc) now) = Ok"
  using add_task_view [OF assms] assms(1) by (simp add: add_task_def Let_def case_prod_beta)

subsection \<open>Snapshots share objects with the live state\<close>

lemma bump_done_neq [simp]: "bump_done t \<noteq> t"
proof
  assume "bump_done t = t"
  then have "completed_count (bump_done t) = completed_count t" by simp
  then show False by (simp add: bump_done_def)
qed

lemma list_update_neq:
  "i < length xs \<Longrightarrow> f (xs ! i) \<noteq> xs ! i \<Longrightarrow> xs[i := f (xs ! i)] \<noteq> xs"
  by (metis nth_list_update_eq)

text \<open>
  C4: the snapshot Done (Selected) pushes to undo it is changed by the Done itself: read
  after the action, the entry shows the acted-on task with its new count and
  \<^verbatim>\<open>daily\<close> with today's completion, next to the old \<^verbatim>\<open>total_done\<close>; it is not the
  state before the action.
\<close>

theorem done_alters_snapshot:
  fixes s :: todo_app and i :: nat and today :: int
  assumes "hist_ok s" and "distinct (tasks s)" and "i < length (tasks s)"
  defines "s' \<equiv> fst (mark_selected_done s (Some i) today)"
  shows "snapshot_view (store s') (last (history s')) =
           ((live_tasks s)[i := bump_done (live_tasks s ! i)],
            (live_stats s)\<lparr>daily_counts := record_completion (daily_counts (live_stats s)) (date_key today)\<rparr>) \<and>
         snapshot_view (store s') (last (history s')) \<noteq> (live_tasks s, live_stats s)"
proof -
  have hist: "last (history s') = state_snapshot s"
    using done_rotate_view [OF assms(2,3)] last_pushed_history [OF assms(1)]
    by (simp add: s'_def mark_selected_done_def)
  have st: "store s' = update_dict (daily (statistics s)) (\<lambda>d. record_completion d (date_key today))
                         (update_task (tasks s ! i) bump_done (store s))"
    using assms(3) by (simp add: s'_def mark_selected_done_def done_rotate_in_range Let_def)
  have view: "snapshot_view (store s') (last (history s')) =
           ((live_tasks s)[i := bump_done (live_tasks s ! i)],
            (live_stats s)\<lparr>daily_counts := record_completion (daily_counts (live_stats s)) (date_key today)\<rparr>)"
    using assms(2,3)
    by (simp add: hist st snapshot_view_def state_snapshot_def task_values_update_nth
        live_tasks_def live_stats_def stats_value_def)
  moreover have "(live_tasks s)[i := bump_done (live_tasks s ! i)] \<noteq> live_tasks s"
    using assms(3) by (intro list_update_neq) (simp_all add: live_tasks_def)
  ultimately show ?thesis by simp
qed

text \<open>
  C16: Edit changes the history entry it has just pushed as well: the entry shares the task
  object whose description Edit replaces, so read through the store it shows the new
  description, and Undo can never bring the old description back.
\<close>

theorem edit_alters_snapshot:
  fixes s :: todo_app and i :: nat and d :: string
  assumes "hist_ok s" and "distinct (tasks s)" and "i < length (tasks s)" and "d \<noteq> []"
  defines "s' \<equiv> fst (edit_task s (Some i) (Some d))"
  shows "snapshot_view (store s') (last (history s')) =
           ((live_tasks s)[i := (live_tasks s ! i)\<lparr>description := d\<rparr>], live_stats s) \<and>
         (d \<noteq> description (live_tasks s ! i) \<longrightarrow>
            snapshot_view (store s') (last (history s')) \<noteq> (live_tasks s, live_stats s))"
proof -
  have hist: "last (history s') = state_snapshot s"
    using last_pushed_history [OF assms(1)] assms(3,4)
    by (simp add: s'_def edit_task_def save_state_closed [OF assms(1)])
  have st: "store s' = update_task (tasks s ! i) (\<lambda>t. t\<lparr>description := d\<rparr>) (store s)"
    using assms(3,4) by (simp add: s'_def edit_task_def Let_def)
  have view: "snapshot_view (store s') (last (history s')) =
           ((live_tasks s)[i := (live_tasks s ! i)\<lparr>description := d\<rparr>], live_stats s)"
    using assms(2,3)
    by (simp add: hist st snapshot_view_def state_snapshot_def task_values_update_nth
        live_tasks_def live_stats_def stats_value_def)
  moreover have "d \<noteq> description (live_tasks s ! i) \<Longrightarrow>
      (live_tasks s)[i := (live_tasks s ! i)\<lparr>description := d\<rparr>] \<noteq> live_tasks s"
    using assms(3) by (intro list_update_neq) (auto simp: live_tasks_def dest: arg_cong [where f = description])
  ultimately show ?thesis by auto
qed

end
