(* ===== verification/Todo_App.thy ===== *)
theory Todo_App
  imports Task_Queue
begin

text \<open>
  The application as a state machine. The buttons of the task section
  (\<^verbatim>\<open>src/todo.py\<close>, lines 80--118) call one handler each; \<open>event\<close> is the button
  press together with what the GUI supplies to the handler, and \<open>handle\<close> dispatches
  it. A session is a sequence of events (\<open>run\<close>), and \<open>reachable\<close> collects the
  states a session can reach from a start state.

  \<open>app_inv\<close> is the invariant every event keeps, whatever its inputs: the cursor
  invariant of the history; the live task list and every snapshot list hold no repeated
  reference, only allocated ones, and pairwise distinct identifiers; and every snapshot
  refers to the one \<^verbatim>\<open>daily\<close> dictionary of the live statistics. The last part is why
  Undo and Redo never change the per-day counts.

  \<open>gui_event\<close> says which inputs the GUI can produce: a selection is an index of the
  listbox, which shows exactly \<^verbatim>\<open>self.tasks\<close> (it is rebuilt by every
  \<^verbatim>\<open>update_displays\<close>, which also clears the selection). For such events no handler
  raises.
\<close>

datatype event =
    AddTask "string option" string
  | EditTask "nat option" "string option"
  | DeleteTask "nat option" bool
  | DoneCurrent int
  | SkipCurrent
  | DoneSelected "nat option" int
  | SkipSelected "nat option"
  | Undo
  | Redo

fun handle :: "todo_app \<Rightarrow> event \<Rightarrow> todo_app \<times> outcome" where
  "handle s (AddTask answer now) = add_task s answer now"
| "handle s (EditTask selection answer) = edit_task s selection answer"
| "handle s (DeleteTask selection confirmed) = delete_task s selection confirmed"
| "handle s (DoneCurrent today) = mark_current_done s today"
| "handle s SkipCurrent = mark_current_skip s"
| "handle s (DoneSelected selection today) = mark_selected_done s selection today"
| "handle s (SkipSelected selection) = mark_selected_skip s selection"
| "handle s Undo = undo s"
| "handle s Redo = redo s"

definition app_step :: "todo_app \<Rightarrow> event \<Rightarrow> todo_app" where
  "app_step s e = fst (handle s e)"

fun run :: "todo_app \<Rightarrow> event list \<Rightarrow> todo_app" where
  "run s [] = s"
| "run s (e # es) = run (app_step s e) es"

fun selection_of :: "event \<Rightarrow> nat option" where
  "selection_of (EditTask selection _) = selection"
| "selection_of (DeleteTask selection _) = selection"
| "selection_of (DoneSelected selection _) = selection"
| "selection_of (SkipSelected selection) = selection"
| "selection_of _ = None"

definition gui_event :: "todo_app \<Rightarrow> event \<Rightarrow> bool" where
  "gui_event s e \<longleftrightarrow> (case selection_of e of None \<Rightarrow> True | Some i \<Rightarrow> i < length (tasks s))"

inductive reachable :: "todo_app \<Rightarrow> todo_app \<Rightarrow> bool" for s0 :: todo_app where
  start: "reachable s0 s0"
| step: "reachable s0 s \<Longrightarrow> reachable s0 (app_step s e)"

subsection \<open>The invariant\<close>

definition refs_valid :: "store \<Rightarrow> loc list \<Rightarrow> bool" where
  "refs_valid h ls \<longleftrightarrow> distinct ls \<and> (\<forall>l\<in>set ls. l < next_loc h) \<and> distinct (existing_ids h ls)"

definition app_inv :: "todo_app \<Rightarrow> bool" where
  "app_inv s \<longleftrightarrow> hist_ok s \<and> refs_valid (store s) (tasks s) \<and>
     daily (statistics s) < next_loc (store s) \<and>
     (\<forall>e\<in>set (history s). refs_valid (store s) (snap_tasks e) \<and>
                           daily (snap_statistics e) = daily (statistics s))"

text \<open>
  The state \<^verbatim>\<open>__init__\<close> builds before \<^verbatim>\<open>load_data\<close> (lines 21--30): no task, an
  empty history with the cursor at \<open>-1\<close>, and a fresh \<^verbatim>\<open>daily\<close> dictionary. The entries
  \<^verbatim>\<open>weekly\<close> and \<^verbatim>\<open>monthly\<close> of the statistics dictionary are never read or
  written after that and are left out. \<open>no_task\<close> is what an unallocated location holds.
\<close>

definition no_task :: task where
  "no_task = \<lparr>task_id = [], description = [], created = [], completed_count = 0, skipped_count = 0\<rparr>"

definition empty_store :: store where
  "empty_store = \<lparr>task_objs = (\<lambda>_. no_task), dict_objs = (\<lambda>_. Map.empty), next_loc = 0\<rparr>"

definition init_app :: todo_app where
  "init_app =
     (let (d, h) = new_dict Map.empty empty_store
      in \<lparr>tasks = [], history = [], history_index = -1,
          statistics = \<lparr>daily = d, total_done = 0, total_skipped = 0\<rparr>, store = h\<rparr>)"

text \<open>
  The two records of completions: the per-day dictionary the live statistics point to, and
  the running total. They agree when the total is the sum of the per-day counts.
\<close>

definition done_counts :: "todo_app \<Rightarrow> (string \<rightharpoonup> int) \<times> int" where
  "done_counts s = (dict_objs (store s) (daily (statistics s)), total_done (statistics s))"

definition counts_consistent :: "todo_app \<Rightarrow> bool" where
  "counts_consistent s \<longleftrightarrow>
     (case done_counts s of (d, n) \<Rightarrow> finite (dom d) \<and> n = dict_sum d)"

lemma existing_ids_simps [simp]:
  "existing_ids h (ls @ ms) = existing_ids h ls @ existing_ids h ms"
  "existing_ids h [l] = [task_id (task_objs h l)]"
  "existing_ids h (remove_at i ls) = remove_at i (existing_ids h ls)"
  "i < length ls \<Longrightarrow> existing_ids h ls ! i = task_id (task_objs h (ls ! i))"
  "length (existing_ids h ls) = length ls"
  by (simp_all add: existing_ids_def map_remove_at)

lemma existing_ids_live: "existing_ids h ls = map task_id (task_values h ls)"
  by (simp add: existing_ids_def task_values_def)

subsection \<open>What keeps references valid\<close>

lemma refs_valid_update_task:
  assumes "\<And>t. task_id (f t) = task_id t"
  shows "refs_valid (update_task l f h) ls = refs_valid h ls"
proof -
  have "existing_ids (update_task l f h) ls = existing_ids h ls"
    using assms by (simp add: existing_ids_def)
  then show ?thesis by (simp add: refs_valid_def)
qed

lemma refs_valid_update_dict [simp]: "refs_valid (update_dict l f h) ls = refs_valid h ls"
  by (simp add: refs_valid_def existing_ids_def)

lemma refs_valid_new_task:
  "refs_valid h ls \<Longrightarrow> refs_valid (snd (new_task t h)) ls"
proof -
  assume v: "refs_valid h ls"
  then have "existing_ids (snd (new_task t h)) ls = existing_ids h ls"
    by (simp add: refs_valid_def existing_ids_live)
  with v show ?thesis by (auto simp: refs_valid_def)
qed

lemma refs_valid_append_new:
  assumes "refs_valid h ls" and "task_id t \<notin> set (existing_ids h ls)"
  shows "refs_valid (snd (new_task t h)) (ls @ [fst (new_task t h)])"
proof -
  have fresh: "next_loc h \<notin> set ls" using assms(1) by (auto simp: refs_valid_def)
  have "existing_ids (snd (new_task t h)) ls = existing_ids h ls"
    using assms(1) by (simp add: refs_valid_def existing_ids_live)
  with assms fresh show ?thesis by (auto simp: refs_valid_def)
qed

lemma refs_valid_remove_at:
  "refs_valid h ls \<Longrightarrow> refs_valid h (remove_at i ls)"
  using set_remove_at_subset [of i ls]
  by (auto simp: refs_valid_def distinct_remove_at)

lemma refs_valid_rotate:
  assumes "refs_valid h ls" and "i < length ls"
  shows "refs_valid h (remove_at i ls @ [ls ! i])"
proof -
  have "existing_ids h (remove_at i ls @ [ls ! i]) =
        remove_at i (existing_ids h ls) @ [existing_ids h ls ! i]"
    using assms(2) by simp
  then show ?thesis
    using assms distinct_remove_at_snoc [of i ls] distinct_remove_at_snoc [of i "existing_ids h ls"]
      set_remove_at_snoc [of i ls]
    by (simp add: refs_valid_def)
qed

lemma task_id_bumps [simp]:
  "task_id (bump_done t) = task_id t" "task_id (bump_skip t) = task_id t"
  "task_id (t\<lparr>description := d\<rparr>) = task_id t"
  by (simp_all add: bump_done_def bump_skip_def)

subsection \<open>Every event keeps the invariant\<close>

lemma set_history_save_state:
  "hist_ok s \<Longrightarrow> set (history (save_state s)) \<subseteq> insert (state_snapshot s) (set (history s))"
proof -
  assume ok: "hist_ok s"
  let ?t = "take (nat (history_index s + 1)) (history s) @ [state_snapshot s]"
  have t: "set ?t \<subseteq> insert (state_snapshot s) (set (history s))"
    using set_take_subset [of _ "history s"] by auto
  moreover have "set (tl ?t) \<subseteq> set ?t" by (cases ?t) auto
  ultimately have "set (if 50 < length ?t then tl ?t else ?t) \<subseteq> insert (state_snapshot s) (set (history s))"
    by auto
  moreover have "history (save_state s) = pushed_history s" using ok by (simp add: save_state_closed)
  ultimately show ?thesis by (simp only: pushed_history_def Let_def)
qed

lemma app_inv_save_state: "app_inv s \<Longrightarrow> app_inv (save_state s)"
proof -
  assume inv: "app_inv s"
  then have ok: "hist_ok s" by (simp add: app_inv_def)
  have "\<forall>e\<in>insert (state_snapshot s) (set (history s)).
          refs_valid (store s) (snap_tasks e) \<and> daily (snap_statistics e) = daily (statistics s)"
    using inv by (simp add: app_inv_def state_snapshot_def)
  with set_history_save_state [OF ok] save_state_hist_ok [OF ok] inv show ?thesis
    by (auto simp: app_inv_def)
qed

text \<open>A state that keeps the history of an invariant state and changes only live fields.\<close>

lemma app_inv_changed:
  assumes inv: "app_inv s" and h: "history t = history s" and i: "history_index t = history_index s"
    and keep: "\<And>ls. refs_valid (store s) ls \<Longrightarrow> refs_valid (store t) ls"
    and live: "refs_valid (store t) (tasks t)" and d: "daily (statistics t) = daily (statistics s)"
    and grow: "next_loc (store s) \<le> next_loc (store t)"
  shows "app_inv t"
proof -
  have "hist_ok t" using inv hist_ok_same_history [OF h i] by (simp add: app_inv_def)
  with assms show ?thesis by (auto simp: app_inv_def)
qed

lemma add_task_inv: "app_inv s \<Longrightarrow> app_inv (fst (add_task s answer now))"
proof -
  assume inv: "app_inv s"
  let ?s1 = "save_state s"
  let ?t = "\<lparr>task_id = next_task_id (existing_ids (store ?s1) (tasks ?s1)), description = the answer,
             created = now, completed_count = 0, skipped_count = 0\<rparr>"
  have inv1: "app_inv ?s1" using inv by (rule app_inv_save_state)
  have "refs_valid (store ?s1) (tasks ?s1)" using inv1 by (simp add: app_inv_def)
  then have live: "refs_valid (snd (new_task ?t (store ?s1))) (tasks ?s1 @ [fst (new_task ?t (store ?s1))])"
    by (rule refs_valid_append_new) (simp add: next_task_id_unused)
  show ?thesis
  proof (cases "answer = None \<or> answer = Some []")
    case True
    with inv show ?thesis by (auto simp: add_task_def)
  next
    case False
    then obtain d where a: "answer = Some d" and "d \<noteq> []" by auto
    let ?p = "new_task ?t (store ?s1)"
    have r: "fst (add_task s answer now) = ?s1\<lparr>tasks := tasks ?s1 @ [fst ?p], store := snd ?p\<rparr>"
      using a \<open>d \<noteq> []\<close> by (simp add: add_task_def Let_def case_prod_beta)
    have grow: "next_loc (store ?s1) \<le> next_loc (snd ?p)" by (simp add: new_task_def)
    show ?thesis unfolding r
      by (rule app_inv_changed [OF inv1]) (simp_all add: refs_valid_new_task live [simplified] grow)
  qed
qed

lemma edit_task_inv: "app_inv s \<Longrightarrow> app_inv (fst (edit_task s selection answer))"
proof -
  assume inv: "app_inv s"
  have inv1: "app_inv (save_state s)" using inv by (rule app_inv_save_state)
  have keep: "refs_valid (update_task l (\<lambda>t. t\<lparr>description := d\<rparr>) h) ls = refs_valid h ls" for l d h ls
    by (rule refs_valid_update_task) simp
  have "app_inv ((save_state s)\<lparr>store := update_task l (\<lambda>t. t\<lparr>description := d\<rparr>) (store s)\<rparr>)" for l d
    using inv1 by (intro app_inv_changed [OF inv1]) (simp_all add: keep app_inv_def)
  with inv show ?thesis
    by (auto simp: edit_task_def split: option.splits sum.splits)
qed

lemma delete_task_inv: "app_inv s \<Longrightarrow> app_inv (fst (delete_task s selection confirmed))"
proof -
  assume inv: "app_inv s"
  have inv1: "app_inv (save_state s)" using inv by (rule app_inv_save_state)
  have "app_inv ((save_state s)\<lparr>tasks := remove_at i (tasks s)\<rparr>)" for i
    using inv1 by (intro app_inv_changed [OF inv1]) (simp_all add: app_inv_def refs_valid_remove_at)
  with inv inv1 show ?thesis
    by (cases "selection") (auto simp: delete_task_def py_pop_def Let_def)
qed

lemma done_rotate_inv: "app_inv s \<Longrightarrow> app_inv (fst (done_rotate s i today))"
proof (cases "i < length (tasks s)")
  case True
  assume inv: "app_inv s"
  have inv1: "app_inv (save_state s)" using inv by (rule app_inv_save_state)
  let ?h = "update_dict (daily (statistics s)) (\<lambda>d. record_completion d (date_key today))
              (update_task (tasks s ! i) bump_done (store s))"
  have keep: "refs_valid ?h ls = refs_valid (store s) ls" for ls
    by (simp add: refs_valid_update_task)
  have keep': "refs_valid (update_task (tasks s ! i) bump_done (store s)) ls = refs_valid (store s) ls" for ls
    by (simp add: refs_valid_update_task)
  have "refs_valid (store s) (tasks s)" using inv by (simp add: app_inv_def)
  then have "refs_valid (store s) (remove_at i (tasks s) @ [tasks s ! i])"
    using True by (rule refs_valid_rotate)
  then have "refs_valid ?h (remove_at i (tasks s) @ [tasks s ! i])"
    by (rule keep [THEN iffD2])
  with inv1 True show ?thesis
    by (simp add: done_rotate_in_range Let_def)
       (intro app_inv_changed [OF inv1], simp_all add: keep keep')
next
  case False
  assume "app_inv s"
  with False show ?thesis by (simp add: done_rotate_def app_inv_save_state)
qed

lemma skip_rotate_inv: "app_inv s \<Longrightarrow> app_inv (fst (skip_rotate s i))"
proof (cases "i < length (tasks s)")
  case True
  assume inv: "app_inv s"
  have inv1: "app_inv (save_state s)" using inv by (rule app_inv_save_state)
  let ?h = "update_task (tasks s ! i) bump_skip (store s)"
  have keep: "refs_valid ?h ls = refs_valid (store s) ls" for ls
    by (simp add: refs_valid_update_task)
  have "refs_valid (store s) (tasks s)" using inv by (simp add: app_inv_def)
  then have "refs_valid (store s) (remove_at i (tasks s) @ [tasks s ! i])"
    using True by (rule refs_valid_rotate)
  then have "refs_valid ?h (remove_at i (tasks s) @ [tasks s ! i])"
    by (rule keep [THEN iffD2])
  with inv1 True show ?thesis
    by (simp add: skip_rotate_in_range Let_def)
       (intro app_inv_changed [OF inv1], simp_all add: keep)
next
  case False
  assume "app_inv s"
  with False show ?thesis by (simp add: skip_rotate_def app_inv_save_state)
qed

lemma install_inv:
  assumes inv: "app_inv s" and e: "e \<in> set (history s)" and ok: "hist_ok (install e t)"
    and h: "history t = history s" and st: "store t = store s"
  shows "app_inv (install e t)"
proof -
  have "refs_valid (store s) (snap_tasks e)" and d: "daily (snap_statistics e) = daily (statistics s)"
    using inv e by (auto simp: app_inv_def)
  with inv ok h st show ?thesis by (auto simp: app_inv_def)
qed

lemma undo_inv: "app_inv s \<Longrightarrow> app_inv (fst (undo s))"
proof -
  assume inv: "app_inv s"
  then have ok: "hist_ok s" by (simp add: app_inv_def)
  show ?thesis
  proof (cases "0 < history_index s")
    case True
    with ok have "nat (history_index s) - 1 < length (history s)"
      by (auto simp: hist_ok_def split: if_splits)
    then have e: "history s ! (nat (history_index s) - 1) \<in> set (history s)" by simp
    have u: "fst (undo s) = install (history s ! (nat (history_index s) - 1))
                              (s\<lparr>history_index := history_index s - 1\<rparr>)"
      using True by (simp add: undo_closed [OF ok])
    show ?thesis unfolding u
      by (rule install_inv [OF inv e undo_hist_ok [OF ok, unfolded u]]) simp_all
  next
    case False
    with inv ok show ?thesis by (simp add: undo_closed)
  qed
qed

lemma redo_inv: "app_inv s \<Longrightarrow> app_inv (fst (redo s))"
proof -
  assume inv: "app_inv s"
  then have ok: "hist_ok s" by (simp add: app_inv_def)
  show ?thesis
  proof (cases "history_index s < int (length (history s)) - 1")
    case True
    with ok have "Suc (nat (history_index s)) < length (history s)"
      by (auto simp: hist_ok_def split: if_splits)
    then have e: "history s ! Suc (nat (history_index s)) \<in> set (history s)" by simp
    have u: "fst (redo s) = install (history s ! Suc (nat (history_index s)))
                              (s\<lparr>history_index := history_index s + 1\<rparr>)"
      using True by (simp add: redo_closed [OF ok])
    show ?thesis unfolding u
      by (rule install_inv [OF inv e redo_hist_ok [OF ok, unfolded u]]) simp_all
  next
    case False
    with inv ok show ?thesis by (simp add: redo_closed)
  qed
qed

lemma app_step_inv: "app_inv s \<Longrightarrow> app_inv (app_step s e)"
  by (cases e)
     (simp_all add: app_step_def add_task_inv edit_task_inv delete_task_inv undo_inv redo_inv
       mark_current_done_def mark_current_skip_def mark_selected_done_def mark_selected_skip_def
       done_rotate_inv skip_rotate_inv split: option.splits)

lemma reachable_app_inv: "reachable s0 s \<Longrightarrow> app_inv s0 \<Longrightarrow> app_inv s"
  by (induction rule: reachable.induct) (simp_all add: app_step_inv)

subsection \<open>What each handler does to the completion counts\<close>

lemma done_counts_save_state [simp]: "done_counts (save_state s) = done_counts s"
  by (simp add: done_counts_def)

lemma done_counts_add_task: "done_counts (fst (add_task s answer now)) = done_counts s"
  by (simp add: add_task_def Let_def case_prod_beta done_counts_def new_task_def split: option.split)

lemma done_counts_edit_task: "done_counts (fst (edit_task s selection answer)) = done_counts s"
  by (simp add: edit_task_def Let_def done_counts_def update_task_def
      split: option.split sum.split)

lemma done_counts_delete_task: "done_counts (fst (delete_task s selection confirmed)) = done_counts s"
  by (simp add: delete_task_def Let_def done_counts_def split: option.split sum.split)

lemma done_counts_skip_rotate: "done_counts (fst (skip_rotate s i)) = done_counts s"
  by (cases "i < length (tasks s)")
     (simp_all add: skip_rotate_in_range skip_rotate_def done_counts_def update_task_def Let_def)

lemma done_counts_done_rotate:
  "done_counts (fst (done_rotate s i today)) =
     (if i < length (tasks s)
      then (record_completion (fst (done_counts s)) (date_key today), snd (done_counts s) + 1)
      else done_counts s)"
  by (simp add: done_rotate_in_range done_rotate_def done_counts_def update_task_def update_dict_def Let_def)

lemma counts_consistent_done_rotate:
  "counts_consistent s \<Longrightarrow> counts_consistent (fst (done_rotate s i today))"
  using record_completion_sum [of "fst (done_counts s)" "date_key today"]
  by (auto simp: counts_consistent_def done_counts_done_rotate split: prod.splits)

lemma app_inv_ids_distinct: "app_inv s \<Longrightarrow> distinct (map task_id (live_tasks s))"
  by (simp add: app_inv_def refs_valid_def live_tasks_def existing_ids_live)

lemma app_inv_init: "app_inv init_app"
  by (simp add: app_inv_def init_app_def new_dict_def empty_store_def hist_ok_def refs_valid_def
      existing_ids_def)

text \<open>
  An event the GUI can produce never raises: every selection is an index of the listbox,
  so no handler meets an index out of range, and Undo and Redo stay inside the history
  when its cursor invariant holds.
\<close>

lemma gui_event_outcome:
  assumes "hist_ok s" and "gui_event s e"
  shows "snd (handle s e) \<noteq> Raised err"
  using assms
  by (cases e)
     (auto simp: gui_event_def add_task_def edit_task_def delete_task_def Let_def case_prod_beta
        mark_current_done_def mark_current_skip_def mark_selected_done_def mark_selected_skip_def
        done_rotate_in_range skip_rotate_in_range undo_outcome redo_outcome
        split: option.splits)

lemma store_install [simp]: "store (install e t) = store t"
  by (simp add: install_def)

subsection \<open>Properties of sessions\<close>

text \<open>
  C23: the invariant holds after any sequence of events started in a state that satisfies it,
  whatever the inputs of the events.
\<close>

theorem session_inv: "app_inv s \<Longrightarrow> app_inv (run s es)"
  by (induction es arbitrary: s) (simp_all add: app_step_inv)

text \<open>
  C5: every state a session reaches from the state \<^verbatim>\<open>__init__\<close> builds satisfies the
  invariant; in particular no two tasks of the list ever have the same identifier.
\<close>

theorem reachable_ids_unique:
  assumes "reachable init_app s"
  shows "app_inv s \<and> distinct (map task_id (live_tasks s))"
proof -
  have "app_inv s" using assms by induction (simp_all add: app_inv_init app_step_inv)
  then show ?thesis by (simp add: app_inv_ids_distinct)
qed

text \<open>
  C21: Undo and Redo never change the per-day completion counts: every snapshot shares the
  one \<^verbatim>\<open>daily\<close> dictionary of the live statistics, so installing it leaves the counts as
  they are, while the totals are restored from the snapshot.
\<close>

theorem undo_redo_keep_daily_counts:
  assumes "app_inv s"
  shows "daily_counts (live_stats (fst (undo s))) = daily_counts (live_stats s) \<and>
         daily_counts (live_stats (fst (redo s))) = daily_counts (live_stats s)"
proof -
  have ok: "hist_ok s" and d: "\<forall>e\<in>set (history s). daily (snap_statistics e) = daily (statistics s)"
    using assms by (simp_all add: app_inv_def)
  have lt: "0 < history_index s \<Longrightarrow> nat (history_index s) - 1 < length (history s)"
    and lt': "history_index s < int (length (history s)) - 1 \<Longrightarrow>
              Suc (nat (history_index s)) < length (history s)"
    using ok by (auto simp: hist_ok_def split: if_splits)
  show ?thesis
    using d lt lt' by (simp add: undo_closed [OF ok] redo_closed [OF ok] live_stats_def stats_value_def)
qed

text \<open>
  C22: every event other than Undo and Redo keeps the total of completions equal to the sum of
  the per-day counts: Done adds one to both, the other handlers touch neither.
\<close>

theorem forward_events_consistent:
  assumes "counts_consistent s" and "e \<noteq> Undo" and "e \<noteq> Redo"
  shows "counts_consistent (app_step s e)"
  using assms
  by (cases e)
     (simp_all add: app_step_def counts_consistent_def done_counts_add_task done_counts_edit_task
        done_counts_delete_task mark_current_done_def mark_current_skip_def mark_selected_done_def
        mark_selected_skip_def done_counts_skip_rotate counts_consistent_done_rotate
        [unfolded counts_consistent_def] split: option.split)

end
