(* ===== verification/Counts.thy ===== *)
theory Counts
  imports Todo_App
begin

text \<open>
  The counters of \<^verbatim>\<open>src/todo.py\<close> are Python ints that only ever count: the code never
  decreases \<^verbatim>\<open>completed_count\<close>, \<^verbatim>\<open>skipped_count\<close>, a \<^verbatim>\<open>daily\<close> entry or a total, it
  only adds one (lines 261, 266--267, 278, 281, 298--302, 318--320) or installs a snapshot
  that held one of its earlier values (Undo and Redo). \<open>counts_nat\<close> is this type
  invariant: every counter reachable from the state, in the store, in the live statistics
  and in every history entry, is a natural number. Every event keeps it, and with it the
  success rate of every task the statistics display shows is a percentage.
\<close>

definition counts_nat :: "todo_app \<Rightarrow> bool" where
  "counts_nat s \<longleftrightarrow>
     (\<forall>l. 0 \<le> completed_count (task_objs (store s) l) \<and> 0 \<le> skipped_count (task_objs (store s) l)) \<and>
     (\<forall>l. \<forall>v\<in>ran (dict_objs (store s) l). 0 \<le> v) \<and>
     0 \<le> total_done (statistics s) \<and> 0 \<le> total_skipped (statistics s) \<and>
     (\<forall>e\<in>set (history s). 0 \<le> total_done (snap_statistics e) \<and> 0 \<le> total_skipped (snap_statistics e))"

subsection \<open>The invariant is kept\<close>

lemma counts_natI:
  assumes "\<And>l. 0 \<le> completed_count (task_objs (store t) l) \<and> 0 \<le> skipped_count (task_objs (store t) l)"
    and "\<And>l v. v \<in> ran (dict_objs (store t) l) \<Longrightarrow> 0 \<le> v"
    and "0 \<le> total_done (statistics t)" and "0 \<le> total_skipped (statistics t)"
    and "\<And>e. e \<in> set (history t) \<Longrightarrow> 0 \<le> total_done (snap_statistics e) \<and> 0 \<le> total_skipped (snap_statistics e)"
  shows "counts_nat t"
  using assms by (simp add: counts_nat_def)

lemma counts_nat_save_state: "app_inv s \<Longrightarrow> counts_nat s \<Longrightarrow> counts_nat (save_state s)"
  using set_history_save_state [of s]
  by (auto simp: counts_nat_def app_inv_def state_snapshot_def)

lemma counts_nat_live:
  assumes c: "counts_nat s" and h: "history t = history s"
    and tobj: "\<And>l. 0 \<le> completed_count (task_objs (store t) l) \<and> 0 \<le> skipped_count (task_objs (store t) l)"
    and d: "\<And>l v. v \<in> ran (dict_objs (store t) l) \<Longrightarrow> 0 \<le> v"
    and st: "0 \<le> total_done (statistics t)" "0 \<le> total_skipped (statistics t)"
  shows "counts_nat t"
  using c by (intro counts_natI tobj d st) (auto simp: counts_nat_def h)

lemma ran_record_completion:
  "\<forall>v\<in>ran d. 0 \<le> v \<Longrightarrow> v \<in> ran (record_completion d k) \<Longrightarrow> 0 \<le> (v::int)"
  by (auto simp: record_completion_def dict_get_def ran_def split: if_splits option.splits)

lemma counts_nat_add_task:
  "app_inv s \<Longrightarrow> counts_nat s \<Longrightarrow> counts_nat (fst (add_task s answer now))"
  using counts_nat_save_state [of s]
  by (auto simp: add_task_def Let_def case_prod_beta new_task_def counts_nat_def
      split: option.splits)

lemma counts_nat_edit_task:
  "app_inv s \<Longrightarrow> counts_nat s \<Longrightarrow> counts_nat (fst (edit_task s selection answer))"
  using counts_nat_save_state [of s]
  by (auto simp: edit_task_def Let_def update_task_def counts_nat_def
      split: option.splits sum.splits)

lemma counts_nat_delete_task:
  "app_inv s \<Longrightarrow> counts_nat s \<Longrightarrow> counts_nat (fst (delete_task s selection confirmed))"
  using counts_nat_save_state [of s]
  by (auto simp: delete_task_def Let_def counts_nat_def split: option.splits sum.splits)

lemma counts_nat_done_rotate:
  assumes "app_inv s" and c: "counts_nat s"
  shows "counts_nat (fst (done_rotate s i today))"
proof (cases "i < length (tasks s)")
  case True
  have c1: "counts_nat (save_state s)" by (rule counts_nat_save_state [OF assms])
  then show ?thesis
    using True c ran_record_completion [of "dict_objs (store s) (daily (statistics s))"]
    by (simp add: done_rotate_in_range Let_def)
       (rule counts_nat_live [OF c1],
        auto simp: counts_nat_def update_task_def update_dict_def bump_done_def split: if_splits)
next
  case False
  then show ?thesis by (simp add: done_rotate_def counts_nat_save_state assms)
qed

lemma counts_nat_skip_rotate:
  assumes "app_inv s" and c: "counts_nat s"
  shows "counts_nat (fst (skip_rotate s i))"
proof (cases "i < length (tasks s)")
  case True
  have c1: "counts_nat (save_state s)" by (rule counts_nat_save_state [OF assms])
  then show ?thesis
    using True c
    by (simp add: skip_rotate_in_range Let_def)
       (rule counts_nat_live [OF c1], auto simp: counts_nat_def update_task_def bump_skip_def)
next
  case False
  then show ?thesis by (simp add: skip_rotate_def counts_nat_save_state assms)
qed

lemma counts_nat_install:
  "counts_nat s \<Longrightarrow> e \<in> set (history s) \<Longrightarrow> history t = history s \<Longrightarrow> store t = store s \<Longrightarrow>
   counts_nat (install e t)"
  by (simp add: counts_nat_def install_def)

lemma counts_nat_undo_redo:
  assumes "app_inv s" and "counts_nat s"
  shows "counts_nat (fst (undo s)) \<and> counts_nat (fst (redo s))"
proof -
  have ok: "hist_ok s" using assms(1) by (simp add: app_inv_def)
  have "0 < history_index s \<Longrightarrow> nat (history_index s) - 1 < length (history s)"
    and "history_index s < int (length (history s)) - 1 \<Longrightarrow> Suc (nat (history_index s)) < length (history s)"
    using ok by (auto simp: hist_ok_def split: if_splits)
  then show ?thesis
    using assms(2) by (auto simp: undo_closed [OF ok] redo_closed [OF ok] intro!: counts_nat_install)
qed

lemma counts_nat_step: "app_inv s \<Longrightarrow> counts_nat s \<Longrightarrow> counts_nat (app_step s e)"
  by (cases e)
     (simp_all add: app_step_def counts_nat_add_task counts_nat_edit_task counts_nat_delete_task
       counts_nat_undo_redo mark_current_done_def mark_current_skip_def mark_selected_done_def
       mark_selected_skip_def counts_nat_done_rotate counts_nat_skip_rotate split: option.split)

lemma counts_nat_init: "counts_nat init_app"
  by (simp add: counts_nat_def init_app_def new_dict_def empty_store_def no_task_def)

lemma counts_nat_live_tasks:
  "counts_nat s \<Longrightarrow> t \<in> set (live_tasks s) \<Longrightarrow> 0 \<le> completed_count t \<and> 0 \<le> skipped_count t"
  by (auto simp: counts_nat_def live_tasks_def task_values_def)

subsection \<open>Properties of the counters\<close>

text \<open>
  C17: type invariant: in a state satisfying the invariant whose counters are natural
  numbers, every counter stays a natural number through any session, Undo and Redo
  included.
\<close>

theorem counts_stay_natural:
  "app_inv s \<Longrightarrow> counts_nat s \<Longrightarrow> counts_nat (run s es)"
proof (induction es arbitrary: s)
  case Nil
  then show ?case by simp
next
  case (Cons e es)
  then show ?case by (simp add: counts_nat_step app_step_inv)
qed

text \<open>
  C18: in every state reachable from the start state, the success rate the statistics
  display shows for each task is a percentage, and the total of completions is not
  negative.
\<close>

theorem reachable_rates_in_range:
  assumes "reachable init_app s"
  shows "(\<forall>t\<in>set (live_tasks s). \<exists>r. success_rate t = Inr r \<and> 0 \<le> r \<and> r \<le> 100) \<and>
         0 \<le> done_total (live_stats s)"
proof -
  have "app_inv s \<and> counts_nat s"
    using assms by induction (simp_all add: app_inv_init counts_nat_init app_step_inv counts_nat_step)
  then have c: "counts_nat s" by simp
  then have "\<forall>t\<in>set (live_tasks s). \<exists>r. success_rate t = Inr r \<and> 0 \<le> r \<and> r \<le> 100"
    using counts_nat_live_tasks success_rate_range by blast
  with c show ?thesis by (simp add: counts_nat_def live_stats_def stats_value_def)
qed

end
