(* ===== verification/Day_Names.thy ===== *)
theory Day_Names
  imports Statistics
begin

text \<open>
  Day names of the statistics panel and of the seven-day chart (\<^verbatim>\<open>src/todo.py\<close>).
  The panel's "Recent Daily Counts" lines (lines 425--430) name each of the last seven
  days with \<^verbatim>\<open>strftime('%A')\<close>; the chart labels its bars, oldest day first, with
  \<^verbatim>\<open>strftime('%a')\<close> (lines 461--470). In the C locale these are the English names and
  their first three letters. A day is a day number (days since 1970-01-01, a Thursday),
  as in theory \<open>Statistics\<close>; its weekday is the day number plus 3 modulo 7, counting
  from Monday, as Python's \<^verbatim>\<open>date.weekday()\<close> does.

  \<open>weekday\<close> is an instance of the library class \<open>enum\<close>, so statements over all seven
  days are decided by the library's automation.
  The theory closes with the data of the seven-day chart (\<open>update_daily_chart\<close>), composed
  of the labels here and the counts, colours and average of theory \<open>Statistics\<close>.
\<close>

datatype weekday = Monday | Tuesday | Wednesday | Thursday | Friday | Saturday | Sunday

definition all_weekdays :: "weekday list" where
  "all_weekdays = [Monday, Tuesday, Wednesday, Thursday, Friday, Saturday, Sunday]"

lemma UNIV_weekday: "UNIV = set all_weekdays"
proof (rule UNIV_eq_I)
  fix d :: weekday show "d \<in> set all_weekdays" by (cases d) (simp_all add: all_weekdays_def)
qed

instantiation weekday :: enum
begin

definition enum_weekday :: "weekday list" where
  "enum_weekday = all_weekdays"

definition enum_all_weekday :: "(weekday \<Rightarrow> bool) \<Rightarrow> bool" where
  "enum_all_weekday P = list_all P all_weekdays"

definition enum_ex_weekday :: "(weekday \<Rightarrow> bool) \<Rightarrow> bool" where
  "enum_ex_weekday P = list_ex P all_weekdays"

instance
proof
  show "(UNIV :: weekday set) = set enum_class.enum"
    by (simp add: enum_weekday_def UNIV_weekday)
  show "distinct (enum_class.enum :: weekday list)"
    by (simp add: enum_weekday_def all_weekdays_def)
  show "enum_class.enum_all P = Ball UNIV P" for P :: "weekday \<Rightarrow> bool"
    by (simp add: enum_all_weekday_def UNIV_weekday list_all_iff)
  show "enum_class.enum_ex P = Bex UNIV P" for P :: "weekday \<Rightarrow> bool"
    by (simp add: enum_ex_weekday_def UNIV_weekday list_ex_iff)
qed

end

text \<open>\<^verbatim>\<open>strftime('%A')\<close>.\<close>

fun weekday_name :: "weekday \<Rightarrow> string" where
  "weekday_name Monday = ''Monday''"
| "weekday_name Tuesday = ''Tuesday''"
| "weekday_name Wednesday = ''Wednesday''"
| "weekday_name Thursday = ''Thursday''"
| "weekday_name Friday = ''Friday''"
| "weekday_name Saturday = ''Saturday''"
| "weekday_name Sunday = ''Sunday''"

text \<open>\<^verbatim>\<open>strftime('%a')\<close>.\<close>

definition weekday_abbr :: "weekday \<Rightarrow> string" where
  "weekday_abbr d = take 3 (weekday_name d)"

definition weekday_of :: "int \<Rightarrow> weekday" where
  "weekday_of day = all_weekdays ! nat ((day + 3) mod 7)"

definition newline :: char where
  "newline = CHR 0x0A"

text \<open>
  The lines \<^verbatim>\<open>f"{day_name} ({date}): {count} tasks\n"\<close> for today and the six days
  before it (lines 425--430).
\<close>

definition recent_line :: "(string \<rightharpoonup> int) \<Rightarrow> int \<Rightarrow> nat \<Rightarrow> string" where
  "recent_line per_day today i =
     (let day = today - int i; date = date_key day
      in weekday_name (weekday_of day) @ '' ('' @ date @ ''): '' @
         py_str (dict_get per_day date 0) @ '' tasks'' @ [newline])"

definition recent_lines :: "(string \<rightharpoonup> int) \<Rightarrow> int \<Rightarrow> string" where
  "recent_lines per_day today = concat (map (recent_line per_day today) [0..<7])"

text \<open>The labels of the bars, \<^verbatim>\<open>for i in range(6, -1, -1)\<close> (lines 461--470).\<close>

definition chart_days :: "int \<Rightarrow> string list" where
  "chart_days today = map (\<lambda>i. weekday_abbr (weekday_of (today - int i))) (rev [0..<7])"

text \<open>
  What \<^verbatim>\<open>update_daily_chart\<close> hands to matplotlib (lines 457--501): the day labels, the
  bar heights and colours, the height of the dashed average line, and the value label
  \<^verbatim>\<open>f'{int(count)}'\<close> above each bar. The \<^verbatim>\<open>if counts:\<close> test never fails, since the
  loop always collects seven counts.
\<close>

record daily_chart =
  dc_days :: "string list"
  dc_counts :: "int list"
  dc_colors :: "bar_color list"
  dc_average :: real
  dc_value_labels :: "string list"

definition update_daily_chart :: "(string \<rightharpoonup> int) \<Rightarrow> int \<Rightarrow> daily_chart option" where
  "update_daily_chart per_day today =
     (let days = chart_days today; counts = chart_counts per_day today
      in if counts = [] then None
         else Some \<lparr>dc_days = days, dc_counts = counts, dc_colors = bar_colors counts,
                    dc_average = chart_average counts, dc_value_labels = map py_str counts\<rparr>)"

subsection \<open>Seven consecutive days\<close>

lemma weekday_of_minus:
  "weekday_of (day - int i) = all_weekdays ! nat (((day + 3) mod 7 - int i) mod 7)"
proof -
  have e: "day - int i + 3 = (day + 3) - int i" by simp
  have "(day - int i + 3) mod 7 = ((day + 3) mod 7 - int i) mod 7"
    by (simp only: e mod_diff_left_eq)
  then show ?thesis by (simp add: weekday_of_def)
qed

lemma mod7_cases: "(x::int) mod 7 \<in> {0, 1, 2, 3, 4, 5, 6}"
proof -
  have "0 \<le> x mod 7" and "x mod 7 < 7" by simp_all
  then show ?thesis by (simp only: insert_iff empty_iff) arith
qed

lemma rev_upt7: "rev [0..<7] = [6, 5, 4, 3, 2, 1, 0::nat]"
  by (simp add: upt_rec)

lemma covers_week: "(set xs = UNIV) = list_all (\<lambda>d. d \<in> set xs) all_weekdays"
proof -
  have "x \<in> set all_weekdays" for x using UNIV_weekday by blast
  then show ?thesis by (auto simp: list_all_iff)
qed

lemma inj_weekday_abbr: "inj weekday_abbr"
  unfolding inj_on_def UNIV_weekday by (simp add: all_weekdays_def weekday_abbr_def)

text \<open>Seven consecutive days, oldest first, are the seven weekdays, each once.\<close>

lemma week_window:
  "distinct (map (\<lambda>i. weekday_of (t - int i)) (rev [0..<7])) \<and>
   set (map (\<lambda>i. weekday_of (t - int i)) (rev [0..<7])) = UNIV"
proof -
  define r where "r = (t + 3) mod 7"
  have r: "r \<in> {0, 1, 2, 3, 4, 5, 6}" unfolding r_def by (rule mod7_cases)
  have c: "map (\<lambda>i. weekday_of (t - int i)) (rev [0..<7]) =
           map (\<lambda>i. all_weekdays ! nat ((r - int i) mod 7)) [6, 5, 4, 3, 2, 1, 0]"
    by (simp only: weekday_of_minus r_def rev_upt7)
  show ?thesis using r unfolding c covers_week
    by (elim insertE emptyE) (simp_all add: all_weekdays_def)
qed

subsection \<open>The labels of the seven-day chart\<close>

text \<open>
  C36: the seven bars of the daily chart carry seven different day labels, every weekday
  once, and the last bar is today's.
\<close>

theorem chart_days_cover_week:
  "distinct (chart_days t) \<and> set (chart_days t) = range weekday_abbr \<and>
   last (chart_days t) = weekday_abbr (weekday_of t)"
proof -
  let ?ws = "map (\<lambda>i. weekday_of (t - int i)) (rev [0..<7])"
  have m: "chart_days t = map weekday_abbr ?ws" by (simp add: chart_days_def)
  have w1: "distinct ?ws" and w2: "set ?ws = UNIV" using week_window [of t] by simp_all
  have s: "set (map weekday_abbr ?ws) = weekday_abbr ` set ?ws" by (rule list.set_map)
  have "distinct (map weekday_abbr ?ws)"
    by (rule distinct_map [THEN iffD2]) (simp only: w1 w2 inj_weekday_abbr simp_thms)
  moreover note s [unfolded w2]
  moreover have "last (chart_days t) = weekday_abbr (weekday_of t)"
    by (simp add: chart_days_def last_map rev_upt7)
  ultimately show ?thesis by (simp only: m)
qed

subsection \<open>The seven-day chart\<close>

lemma length_bar_colors: "length (bar_colors counts) = length counts"
  by (simp add: bar_colors_def Let_def)

lemma chart_counts_shape:
  "length (chart_counts per_day today) = 7 \<and>
   last (chart_counts per_day today) = dict_get per_day (date_key today) 0"
  by (simp only: chart_counts_def rev_upt7) simp

lemma chart_days_length: "length (chart_days today) = 7"
  by (simp add: chart_days_def)

lemma daily_chart_bars:
  "\<exists>c. update_daily_chart per_day today = Some c \<and>
       length (dc_days c) = 7 \<and> length (dc_counts c) = 7 \<and> length (dc_colors c) = 7 \<and>
       last (dc_counts c) = dict_get per_day (date_key today) 0 \<and>
       dc_value_labels c = map py_str (dc_counts c)"
proof -
  have "chart_counts per_day today \<noteq> []" using chart_counts_shape [of per_day today] by auto
  then show ?thesis
    using chart_counts_shape [of per_day today] chart_days_length [of today]
    by (simp add: update_daily_chart_def Let_def length_bar_colors)
qed
end
