(* ===== verification/Stats_Panel.thy ===== *)
theory Stats_Panel
  imports Day_Names "HOL-Library.Sublist"
begin

text \<open>
  The text of the statistics panel (\<^verbatim>\<open>src/todo.py\<close>, \<^verbatim>\<open>update_statistics_display\<close>,
  lines 390--432): the three averages, the two totals, one line per task in identifier
  order, and the seven "Recent Daily Counts" lines of theory \<open>Day_Names\<close>.

  Two parts of the f-strings format floats: \<^verbatim>\<open>{daily_avg:.2f}\<close> and
  \<^verbatim>\<open>{rate:.0f}\<close>, applied to IEEE doubles. The averages and rates of the development
  are exact reals, so the two formatters are parameters of the panel (\<open>fmt2\<close>, \<open>fmt0\<close>);
  everything else of the text is as the code writes it.

  Strings are UTF-8 bytes, as in theory \<open>Display\<close>, while Python slices a \<^verbatim>\<open>str\<close> by
  code points: \<^verbatim>\<open>task['description'][:20]\<close> is \<open>utf8_take 20\<close>, which counts the bytes
  that start a character and keeps the continuation bytes (\<^verbatim>\<open>10xxxxxx\<close>) of the
  characters it takes.
\<close>

definition utf8_cont :: "char \<Rightarrow> bool" where
  "utf8_cont c \<longleftrightarrow> 128 \<le> (of_char c :: nat) \<and> (of_char c :: nat) < 192"

text \<open>\<^verbatim>\<open>s[:n]\<close> on the UTF-8 bytes of \<open>s\<close>.\<close>

fun utf8_take :: "nat \<Rightarrow> string \<Rightarrow> string" where
  "utf8_take n [] = []"
| "utf8_take n (c # cs) =
     (if utf8_cont c then c # utf8_take n cs
      else case n of 0 \<Rightarrow> [] | Suc m \<Rightarrow> c # utf8_take m cs)"

text \<open>
  The body of the loop over the sorted tasks (lines 414--419): the rate of line 418, which
  may raise, then \<^verbatim>\<open>f"{task_id} ({task['description'][:20]}...): {completed} done,
  {skipped} skip ({rate:.0f}% success)\n"\<close>.
\<close>

definition task_summary_line :: "(real \<Rightarrow> string) \<Rightarrow> task \<Rightarrow> py_error + string" where
  "task_summary_line fmt0 t =
     (case success_rate t of
        Inl e \<Rightarrow> Inl e
      | Inr rate \<Rightarrow>
          Inr (task_id t @ '' ('' @ utf8_take 20 (description t) @ ''...): '' @
               py_str (completed_count t) @ '' done, '' @ py_str (skipped_count t) @ '' skip ('' @
               fmt0 rate @ ''% success)'' @ [newline]))"

text \<open>\<^verbatim>\<open>for task in sorted_tasks: ... stats_text += ...\<close> (lines 413--419): an exception ends the loop.\<close>

fun summary_lines :: "(real \<Rightarrow> string) \<Rightarrow> task list \<Rightarrow> py_error + string" where
  "summary_lines fmt0 [] = Inr []"
| "summary_lines fmt0 (t # ts) =
     (case task_summary_line fmt0 t of
        Inl e \<Rightarrow> Inl e
      | Inr l \<Rightarrow> (case summary_lines fmt0 ts of Inl e \<Rightarrow> Inl e | Inr r \<Rightarrow> Inr (l @ r)))"

text \<open>The text built in lines 395--430, before \<^verbatim>\<open>self.stats_text.insert(1.0, stats_text)\<close>.\<close>

definition statistics_text ::
  "(real \<Rightarrow> string) \<Rightarrow> (real \<Rightarrow> string) \<Rightarrow> stats_value \<Rightarrow> task list \<Rightarrow> int \<Rightarrow> py_error + string" where
  "statistics_text fmt2 fmt0 st ts today =
     (let per_day = daily_counts st
      in case summary_lines fmt0 (task_table ts) of
           Inl e \<Rightarrow> Inl e
         | Inr body \<Rightarrow> Inr (
         ''STATISTICS (Done Tasks Only)'' @ [newline, newline] @
         ''Daily Average: '' @ fmt2 (calculate_daily_average per_day today) @ '' tasks/day'' @ [newline] @
         ''Weekly Average: '' @ fmt2 (calculate_weekly_average per_day today) @ '' tasks/week'' @ [newline] @
         ''Monthly Average: '' @ fmt2 (calculate_monthly_average per_day today) @ '' tasks/month'' @
         [newline, newline] @
         ''Total Completed: '' @ py_str (done_total st) @ [newline] @
         ''Total Skipped: '' @ py_str (skipped_total st) @ [newline, newline] @
         ''INDIVIDUAL TASK COMPLETION COUNTS:'' @ [newline] @
         body @
         [newline] @ ''Recent Daily Counts:'' @ [newline] @
         recent_lines per_day today))"

definition update_statistics_display ::
  "(real \<Rightarrow> string) \<Rightarrow> (real \<Rightarrow> string) \<Rightarrow> todo_app \<Rightarrow> int \<Rightarrow> py_error + string" where
  "update_statistics_display fmt2 fmt0 s today =
     statistics_text fmt2 fmt0 (live_stats s) (live_tasks s) today"

subsection \<open>The slice of a description\<close>

lemma utf8_take_prefix: "prefix (utf8_take n d) d"
  by (induction n d rule: utf8_take.induct) (simp_all split: nat.split)

text \<open>An ASCII description is sliced byte by byte, as \<open>take\<close>.\<close>

lemma utf8_take_ascii:
  "list_all (\<lambda>c. (of_char c :: nat) < 128) d \<Longrightarrow> utf8_take n d = take n d"
  by (induction n d rule: utf8_take.induct) (simp_all add: utf8_cont_def split: nat.split)

subsection \<open>The lines of the panel\<close>

lemma newline_digit_char: "d < 10 \<Longrightarrow> newline \<noteq> digit_char d"
proof
  assume "d < 10" and "newline = digit_char d"
  then have "(of_char (digit_char d) :: nat) = of_char newline" by simp
  with \<open>d < 10\<close> show False by (simp add: digit_char_def newline_def)
qed

lemma newline_py_str: "newline \<notin> set (py_str n)"
  using newline_digit_char int_digits_small by (auto simp: py_str_def newline_def)

lemma no_newline_count: "newline \<notin> set xs \<Longrightarrow> length (filter ((=) newline) xs) = 0"
  by (induction xs) auto

lemma sum_list_map_1: "\<forall>x\<in>set xs. f x = (1::nat) \<Longrightarrow> sum_list (map f xs) = length xs"
  by (induction xs) simp_all

lemma count_concat: "length (filter P (concat xss)) = sum_list (map (\<lambda>xs. length (filter P xs)) xss)"
  by (induction xss) simp_all

lemma newline_weekday_name: "newline \<notin> set (weekday_name d)"
  by (cases d) (simp_all add: newline_def)

lemma newline_date_key: "newline \<notin> set (date_key day)"
  using newline_py_str
  by (auto simp: date_key_def zero_pad_def split: prod.split) (simp_all add: newline_def)

lemma recent_line_count: "length (filter ((=) newline) (recent_line per_day today i)) = 1"
proof -
  have "newline \<notin> set (weekday_name (weekday_of (today - int i)))"
    and "newline \<notin> set (date_key (today - int i))"
    and "newline \<notin> set (py_str (dict_get per_day (date_key (today - int i)) 0))"
    by (simp_all only: newline_weekday_name newline_date_key newline_py_str not_False_eq_True)
  moreover have "newline \<notin> set '' (''" "newline \<notin> set ''): ''" "newline \<notin> set '' tasks''"
    by (simp_all add: newline_def)
  ultimately show ?thesis by (simp add: recent_line_def Let_def no_newline_count)
qed

lemma recent_lines_count: "length (filter ((=) newline) (recent_lines per_day today)) = 7"
  by (simp add: recent_lines_def count_concat sum_list_map_1 recent_line_count)

lemma task_summary_line_count:
  assumes "newline \<notin> set (task_id t)" and "newline \<notin> set (description t)"
    and "\<forall>x. newline \<notin> set (fmt0 x)"
  shows "\<exists>l. task_summary_line fmt0 t = Inr l \<and> length (filter ((=) newline) l) = 1"
proof -
  obtain r where r: "success_rate t = Inr r" using success_rate_value by blast
  have "newline \<notin> set (utf8_take 20 (description t))"
    using assms(2) set_mono_prefix [OF utf8_take_prefix] by blast
  moreover have "newline \<notin> set '' (''" "newline \<notin> set ''...): ''" "newline \<notin> set '' done, ''"
    "newline \<notin> set '' skip (''" "newline \<notin> set ''% success)''"
    by (simp_all add: newline_def)
  ultimately show ?thesis
    using assms newline_py_str r by (simp add: task_summary_line_def no_newline_count)
qed

lemma summary_lines_count:
  assumes "\<forall>t\<in>set ts. newline \<notin> set (task_id t) \<and> newline \<notin> set (description t)"
    and "\<forall>x. newline \<notin> set (fmt0 x)"
  shows "\<exists>b. summary_lines fmt0 ts = Inr b \<and> length (filter ((=) newline) b) = length ts"
  using assms(1)
proof (induction ts)
  case Nil
  then show ?case by simp
next
  case (Cons t ts)
  then obtain l where "task_summary_line fmt0 t = Inr l" "length (filter ((=) newline) l) = 1"
    using task_summary_line_count [OF _ _ assms(2), of t] by auto
  with Cons show ?case by auto
qed

subsection \<open>Properties of the panel\<close>

text \<open>
  C37: the statistics panel is always drawn: building its text raises no exception, since
  the guard of line 418 keeps every rate away from a division by zero; and when no
  identifier, description or formatted number holds a line break, the text has exactly
  its 19 fixed lines and one line per task.
\<close>

theorem statistics_panel_layout:
  assumes "list_all (\<lambda>t. newline \<notin> set (task_id t) \<and> newline \<notin> set (description t)) (live_tasks s)"
    and "\<forall>x. newline \<notin> set (fmt2 x) \<and> newline \<notin> set (fmt0 x)"
  shows "\<exists>txt. update_statistics_display fmt2 fmt0 s today = Inr txt \<and>
               length (filter ((=) newline) txt) = 19 + length (tasks s)"
proof -
  have "\<forall>t\<in>set (task_table (live_tasks s)). newline \<notin> set (task_id t) \<and> newline \<notin> set (description t)"
    using assms(1) by (simp add: task_table_def list_all_iff)
  then obtain b where b: "summary_lines fmt0 (task_table (live_tasks s)) = Inr b"
    and nb: "length (filter ((=) newline) b) = length (task_table (live_tasks s))"
    using summary_lines_count assms(2) by blast
  have "length (task_table (live_tasks s)) = length (tasks s)"
    by (simp add: task_table_def live_tasks_def task_values_def)
  moreover have "newline \<notin> set ''STATISTICS (Done Tasks Only)''" "newline \<notin> set ''Daily Average: ''"
    "newline \<notin> set '' tasks/day''" "newline \<notin> set ''Weekly Average: ''"
    "newline \<notin> set '' tasks/week''" "newline \<notin> set ''Monthly Average: ''"
    "newline \<notin> set '' tasks/month''" "newline \<notin> set ''Total Completed: ''"
    "newline \<notin> set ''Total Skipped: ''" "newline \<notin> set ''INDIVIDUAL TASK COMPLETION COUNTS:''"
    "newline \<notin> set ''Recent Daily Counts:''"
    by (simp_all add: newline_def)
  ultimately show ?thesis
    using assms(2) b nb newline_py_str recent_lines_count
    by (simp add: update_statistics_display_def statistics_text_def Let_def no_newline_count)
qed

end
