(* ===== verification/Display.thy ===== *)
theory Display
  imports Todo_App
begin

text \<open>
  What the task section shows (\<^verbatim>\<open>src/todo.py\<close>, \<^verbatim>\<open>on_task_select\<close> lines 161--169,
  \<^verbatim>\<open>update_task_display\<close> lines 358--388) and the data of the per-task chart
  (\<^verbatim>\<open>update_individual_task_chart\<close>, lines 503--563).

  The widgets are modelled by the part of their state the code reads or writes: the text of
  \<^verbatim>\<open>current_task_var\<close>, whether each of the four Done/Skip buttons is enabled
  (\<^verbatim>\<open>state='normal'\<close>), and the listbox as its list of lines with its selection. The
  Tk listbox behaves as \<^verbatim>\<open>delete(0, END)\<close> removing every line and with them the
  selection, \<^verbatim>\<open>insert(END, x)\<close> appending a line, and a click selecting one line
  (\<open>listbox_click\<close>, the default single-selection mode). A Python string of the display
  is written as its UTF-8 bytes: the marks \<^verbatim>\<open>U+2713\<close> and \<^verbatim>\<open>U+2717\<close> of the list
  lines are three bytes each.

  The chart is the data handed to matplotlib: the identifiers in sorted order, the two
  series of bar heights, the labels drawn above the bars and the upper limit of the y
  axis. The drawing itself is not modelled.
\<close>

record listbox =
  lb_lines :: "string list"
  lb_selection :: "nat list"

record task_widgets =
  current_task_var :: string
  done_btn :: bool
  skip_btn :: bool
  done_selected_btn :: bool
  skip_selected_btn :: bool
  task_listbox :: listbox

definition check_mark :: string where
  "check_mark = [char_of (226::nat), char_of (156::nat), char_of (147::nat)]"

definition cross_mark :: string where
  "cross_mark = [char_of (226::nat), char_of (156::nat), char_of (151::nat)]"

text \<open>\<^verbatim>\<open>f"{task_id} - {current_task['description']} (Done: {completed})"\<close> (line 365).\<close>

definition current_line :: "task \<Rightarrow> string" where
  "current_line t =
     task_id t @ '' - '' @ description t @ '' (Done: '' @ py_str (completed_count t) @ '')''"

text \<open>\<^verbatim>\<open>f"{task_id}: {task['description']} (\<checkmark>{completed}, \<times>{skipped})"\<close> (line 379).\<close>

definition list_line :: "task \<Rightarrow> string" where
  "list_line t =
     task_id t @ '': '' @ description t @ '' ('' @ check_mark @ py_str (completed_count t) @
     '', '' @ cross_mark @ py_str (skipped_count t) @ '')''"

definition lb_delete_all :: "listbox \<Rightarrow> listbox" where
  "lb_delete_all lb = \<lparr>lb_lines = [], lb_selection = []\<rparr>"

definition lb_insert_end :: "string \<Rightarrow> listbox \<Rightarrow> listbox" where
  "lb_insert_end x lb = lb\<lparr>lb_lines := lb_lines lb @ [x]\<rparr>"

text \<open>The loop \<^verbatim>\<open>for task in self.tasks: ... insert(tk.END, ...)\<close> (lines 374--379).\<close>

fun fill_listbox :: "task list \<Rightarrow> listbox \<Rightarrow> listbox" where
  "fill_listbox [] lb = lb"
| "fill_listbox (t # ts) lb = fill_listbox ts (lb_insert_end (list_line t) lb)"

definition set_selected_buttons :: "bool \<Rightarrow> task_widgets \<Rightarrow> task_widgets" where
  "set_selected_buttons b w = w\<lparr>done_selected_btn := b, skip_selected_btn := b\<rparr>"

definition update_task_display :: "todo_app \<Rightarrow> task_widgets \<Rightarrow> task_widgets" where
  "update_task_display s w =
     (let w1 = (if tasks s \<noteq> []
                then w\<lparr>current_task_var := current_line (hd (live_tasks s)),
                       done_btn := True, skip_btn := True\<rparr>
                else w\<lparr>current_task_var := ''No tasks available'',
                       done_btn := False, skip_btn := False\<rparr>);
          w2 = w1\<lparr>task_listbox := fill_listbox (live_tasks s) (lb_delete_all (task_listbox w1))\<rparr>;
          selection = lb_selection (task_listbox w2)
      in set_selected_buttons (selection \<noteq> [] \<and> tasks s \<noteq> []) w2)"

definition on_task_select :: "task_widgets \<Rightarrow> task_widgets" where
  "on_task_select w = set_selected_buttons (lb_selection (task_listbox w) \<noteq> []) w"

text \<open>A click on line \<open>i\<close> of the listbox, followed by the \<^verbatim>\<open><<ListboxSelect>>\<close> callback.\<close>

definition listbox_click :: "nat \<Rightarrow> task_widgets \<Rightarrow> task_widgets" where
  "listbox_click i w =
     (if i < length (lb_lines (task_listbox w))
      then on_task_select (w\<lparr>task_listbox := (task_listbox w)\<lparr>lb_selection := [i]\<rparr>\<rparr>)
      else w)"

text \<open>
  The index the handlers of the selected task read: \<^verbatim>\<open>selection = curselection()\<close>,
  \<^verbatim>\<open>if not selection\<close> warn, else \<^verbatim>\<open>index = selection[0]\<close> (lines 288--294).
\<close>

definition selected_index :: "task_widgets \<Rightarrow> nat option" where
  "selected_index w = (case lb_selection (task_listbox w) of [] \<Rightarrow> None | i # _ \<Rightarrow> Some i)"

text \<open>Every selected line exists: what Tk guarantees of a listbox.\<close>

definition listbox_ok :: "listbox \<Rightarrow> bool" where
  "listbox_ok lb \<longleftrightarrow> (\<forall>i\<in>set (lb_selection lb). i < length (lb_lines lb))"

subsection \<open>The per-task chart\<close>

record task_chart =
  chart_ids :: "string list"
  chart_completed :: "int list"
  chart_skipped :: "int list"
  chart_ylim :: int

text \<open>A bar is labelled with its height when the height is positive (lines 537--549).\<close>

definition bar_label :: "int \<Rightarrow> string option" where
  "bar_label h = (if 0 < h then Some (py_str h) else None)"

definition individual_task_chart :: "task list \<Rightarrow> task_chart option" where
  "individual_task_chart ts =
     (if ts = [] then None
      else let sorted_tasks = task_table ts;
               completed = map completed_count sorted_tasks;
               skipped = map skipped_count sorted_tasks
           in Some \<lparr>chart_ids = map task_id sorted_tasks, chart_completed = completed,
                    chart_skipped = skipped,
                    chart_ylim = max (Max (set completed)) (Max (set skipped)) + 1\<rparr>)"

subsection \<open>The listbox after a redraw\<close>

lemma fill_listbox_simps [simp]:
  "lb_lines (fill_listbox ts lb) = lb_lines lb @ map list_line ts"
  "lb_selection (fill_listbox ts lb) = lb_selection lb"
  by (induction ts arbitrary: lb) (simp_all add: lb_insert_end_def)

lemma update_task_display_simps:
  "lb_lines (task_listbox (update_task_display s w)) = map list_line (live_tasks s)"
  "lb_selection (task_listbox (update_task_display s w)) = []"
  "done_selected_btn (update_task_display s w) = False"
  "skip_selected_btn (update_task_display s w) = False"
  "done_btn (update_task_display s w) = (tasks s \<noteq> [])"
  "skip_btn (update_task_display s w) = (tasks s \<noteq> [])"
  "current_task_var (update_task_display s w) =
     (if tasks s = [] then ''No tasks available'' else current_line (hd (live_tasks s)))"
  by (simp_all add: update_task_display_def Let_def set_selected_buttons_def lb_delete_all_def)

lemma listbox_ok_update_task_display: "listbox_ok (task_listbox (update_task_display s w))"
  by (simp add: listbox_ok_def update_task_display_simps)

lemma listbox_click_ok:
  "listbox_ok (task_listbox w) \<Longrightarrow> listbox_ok (task_listbox (listbox_click i w))"
  "lb_lines (task_listbox (listbox_click i w)) = lb_lines (task_listbox w)"
  by (simp_all add: listbox_ok_def listbox_click_def on_task_select_def set_selected_buttons_def)

lemma selected_index_bound:
  "listbox_ok (task_listbox w) \<Longrightarrow> selected_index w = Some i \<Longrightarrow> i < length (lb_lines (task_listbox w))"
  by (auto simp: listbox_ok_def selected_index_def split: list.splits)

lemma clicks_keep_lines:
  "lb_lines (task_listbox (fold listbox_click cs w)) = lb_lines (task_listbox w) \<and>
   (listbox_ok (task_listbox w) \<longrightarrow> listbox_ok (task_listbox (fold listbox_click cs w)))"
  by (induction cs arbitrary: w) (simp_all add: listbox_click_ok)

lemma selected_press_ok:
  assumes "distinct (tasks s)" and "i < length (tasks s)"
  shows "snd (handle s (DoneSelected (Some i) today)) = Ok \<and>
         snd (handle s (SkipSelected (Some i))) = Ok \<and>
         snd (handle s (EditTask (Some i) answer)) = Ok \<and>
         snd (handle s (DeleteTask (Some i) confirmed)) = Ok"
  using done_rotate_view [OF assms] skip_rotate_view [OF assms] assms(2)
  by (simp add: mark_selected_done_def mark_selected_skip_def edit_task_def delete_task_def Let_def
      split: option.split)

subsection \<open>Properties of the display\<close>

text \<open>
  C19: what a redraw shows: the current-task line names the first task with its completion
  count, or says there is none; the listbox holds one line per task in the order of the
  queue; Done (Current) and Skip (Current) are enabled exactly when there is a task; and
  Done (Selected) and Skip (Selected) are always disabled, because
  \<^verbatim>\<open>delete(0, END)\<close> has cleared the selection before the code reads it.
\<close>

theorem redraw_shows_queue:
  "current_task_var (update_task_display s w) =
     (case live_tasks s of [] \<Rightarrow> ''No tasks available'' | t # _ \<Rightarrow> current_line t) \<and>
   lb_lines (task_listbox (update_task_display s w)) = map list_line (live_tasks s) \<and>
   done_btn (update_task_display s w) = (live_tasks s \<noteq> []) \<and>
   skip_btn (update_task_display s w) = (live_tasks s \<noteq> []) \<and>
   \<not> done_selected_btn (update_task_display s w) \<and> \<not> skip_selected_btn (update_task_display s w)"
  by (simp add: update_task_display_simps live_tasks_def task_values_def split: list.split)

text \<open>
  The selection the GUI hands a handler is always a task: after a redraw and any clicks
  on the listbox, the index the handlers of the selected task read is in range, so with
  the invariant Done (Selected), Skip (Selected), Edit and Delete on it return normally.
\<close>

lemma listbox_selection_valid:
  assumes "app_inv s" and "selected_index (fold listbox_click cs (update_task_display s w)) = Some i"
  shows "i < length (tasks s) \<and>
         snd (handle s (DoneSelected (Some i) today)) = Ok \<and>
         snd (handle s (SkipSelected (Some i))) = Ok \<and>
         snd (handle s (EditTask (Some i) answer)) = Ok \<and>
         snd (handle s (DeleteTask (Some i) confirmed)) = Ok"
proof -
  let ?w = "fold listbox_click cs (update_task_display s w)"
  have "listbox_ok (task_listbox ?w)" and "lb_lines (task_listbox ?w) = map list_line (live_tasks s)"
    using clicks_keep_lines [of cs "update_task_display s w"]
    by (simp_all add: listbox_ok_update_task_display update_task_display_simps)
  then have i: "i < length (tasks s)"
    using selected_index_bound [OF _ assms(2)] by (simp add: live_tasks_def)
  have "distinct (tasks s)" using assms(1) by (simp add: app_inv_def refs_valid_def)
  with i selected_press_ok show ?thesis by blast
qed

text \<open>
  C20: the per-task chart lists every task once, sorted by identifier, with its two counts,
  and the y axis reaches above every bar.
\<close>

theorem task_chart_data:
  assumes "individual_task_chart ts = Some c"
  shows "sorted (chart_ids c) \<and>
         mset (zip (chart_ids c) (zip (chart_completed c) (chart_skipped c))) =
           mset (map (\<lambda>t. (task_id t, completed_count t, skipped_count t)) ts) \<and>
         (\<forall>h\<in>set (chart_completed c) \<union> set (chart_skipped c). h < chart_ylim c)"
proof -
  have ne: "ts \<noteq> []" using assms by (auto simp: individual_task_chart_def)
  let ?st = "sort_key task_id ts"
  have c: "c = \<lparr>chart_ids = map task_id ?st, chart_completed = map completed_count ?st,
                chart_skipped = map skipped_count ?st,
                chart_ylim = max (Max (set (map completed_count ?st))) (Max (set (map skipped_count ?st))) + 1\<rparr>"
    using assms ne by (simp add: individual_task_chart_def task_table_def Let_def)
  have z: "zip (map task_id xs) (zip (map completed_count xs) (map skipped_count xs)) =
           map (\<lambda>t. (task_id t, completed_count t, skipped_count t)) xs" for xs :: "task list"
    by (induction xs) simp_all
  have "completed_count x \<le> Max (completed_count ` set ts)"
    and "skipped_count x \<le> Max (skipped_count ` set ts)" if "x \<in> set ts" for x
    using that by simp_all
  then show ?thesis
    by (fastforce simp: c z mset_map le_max_iff_disj)
qed

end
