(* ===== verification/Persistence.thy ===== *)
theory Persistence
  imports Todo_App
begin

text \<open>
  Loading and saving the data file (\<^verbatim>\<open>src/todo.py\<close>, \<^verbatim>\<open>save_data\<close> and
  \<^verbatim>\<open>load_data\<close>, lines 565--613). The file is read as a JSON document: \<open>json_task\<close> is a
  task dictionary as it is found in the file, with the three keys the migration fills in
  optional, and \<open>json_data\<close> the top-level dictionary, whose keys \<^verbatim>\<open>tasks\<close> and
  \<^verbatim>\<open>statistics\<close> may be missing. \<open>load_input\<close> says what opening the file gave: no
  file, a file that fails to parse (the \<^verbatim>\<open>except\<close> branch), or a document.
  The text of the file, \<^verbatim>\<open>json.dump\<close> and \<^verbatim>\<open>json.load\<close> are not modelled.
  \<open>Unreadable\<close> is a file \<^verbatim>\<open>json.load\<close> rejects (not JSON, or cut short by a failed
  save). A file that is valid JSON of another shape (a task without \<^verbatim>\<open>description\<close>,
  statistics without \<^verbatim>\<open>daily\<close>, a \<^verbatim>\<open>statistics\<close> that is not a dictionary) loads
  without an exception and then makes \<^verbatim>\<open>__init__\<close> raise in \<^verbatim>\<open>update_displays\<close>;
  such files are outside the model, and the theorems over \<open>load_input\<close> cover the
  documents of this schema.

  \<open>load_data\<close> installs the migrated tasks as fresh objects of the store and the daily
  counts as a fresh dictionary, as \<^verbatim>\<open>json.load\<close> builds new objects.
\<close>

record json_task =
  j_task_id :: "string option"
  j_description :: string
  j_created :: string
  j_completed :: "int option"
  j_skipped :: "int option"

record json_stats =
  j_daily :: "string \<rightharpoonup> int"
  j_total_done :: int
  j_total_skipped :: int

record json_data =
  j_tasks :: "json_task list option"
  j_statistics :: "json_stats option"

datatype load_input = NoFile | Unreadable | Loaded json_data

text \<open>The identifier the migration gives the task at position \<open>i\<close> (line 597).\<close>

definition migrated_id :: "nat \<Rightarrow> string" where
  "migrated_id i = (if i < 26 then letter_id i else counter_id (Suc i))"

definition migrate_task :: "nat \<Rightarrow> json_task \<Rightarrow> task" where
  "migrate_task i jt =
     \<lparr>task_id = (case j_task_id jt of Some x \<Rightarrow> x | None \<Rightarrow> migrated_id i),
      description = j_description jt, created = j_created jt,
      completed_count = (case j_completed jt of Some c \<Rightarrow> c | None \<Rightarrow> 0),
      skipped_count = (case j_skipped jt of Some c \<Rightarrow> c | None \<Rightarrow> 0)\<rparr>"

text \<open>The loop \<^verbatim>\<open>for i, task in enumerate(self.tasks)\<close> (lines 595--602).\<close>

fun migrate_from :: "nat \<Rightarrow> json_task list \<Rightarrow> task list" where
  "migrate_from i [] = []"
| "migrate_from i (jt # jts) = migrate_task i jt # migrate_from (Suc i) jts"

definition migrate_tasks :: "json_task list \<Rightarrow> task list" where
  "migrate_tasks jts = migrate_from 0 jts"

fun alloc_tasks :: "task list \<Rightarrow> store \<Rightarrow> loc list \<times> store" where
  "alloc_tasks [] h = ([], h)"
| "alloc_tasks (t # ts) h =
     (let (l, h1) = new_task t h; (ls, h2) = alloc_tasks ts h1 in (l # ls, h2))"

definition default_stats :: json_stats where
  "default_stats = \<lparr>j_daily = Map.empty, j_total_done = 0, j_total_skipped = 0\<rparr>"

text \<open>Installing a task list and a statistics dictionary as the live state.\<close>

definition install_loaded :: "task list \<Rightarrow> json_stats \<Rightarrow> todo_app \<Rightarrow> todo_app" where
  "install_loaded ts st s =
     (let (ls, h1) = alloc_tasks ts (store s);
          (d, h2) = new_dict (j_daily st) h1
      in s\<lparr>tasks := ls,
           statistics := \<lparr>daily = d, total_done = j_total_done st, total_skipped = j_total_skipped st\<rparr>,
           store := h2\<rparr>)"

text \<open>\<^verbatim>\<open>data.get('tasks', [])\<close> and \<^verbatim>\<open>data.get('statistics', {...})\<close> (lines 585--592).\<close>

definition loaded_tasks :: "json_data \<Rightarrow> json_task list" where
  "loaded_tasks d = (case j_tasks d of None \<Rightarrow> [] | Some ts \<Rightarrow> ts)"

definition loaded_stats :: "json_data \<Rightarrow> json_stats" where
  "loaded_stats d = (case j_statistics d of None \<Rightarrow> default_stats | Some x \<Rightarrow> x)"

definition load_data :: "load_input \<Rightarrow> todo_app \<Rightarrow> todo_app" where
  "load_data inp s =
     (case inp of
        NoFile \<Rightarrow> s
      | Unreadable \<Rightarrow> install_loaded [] default_stats s
      | Loaded d \<Rightarrow> install_loaded (migrate_tasks (loaded_tasks d)) (loaded_stats d) s)"

text \<open>The state the application starts in: \<^verbatim>\<open>__init__\<close> followed by \<^verbatim>\<open>load_data\<close>.\<close>

definition start_app :: "load_input \<Rightarrow> todo_app" where
  "start_app inp = load_data inp init_app"

text \<open>\<^verbatim>\<open>save_data\<close> writes the live tasks and statistics (lines 565--577).\<close>

definition task_json :: "task \<Rightarrow> json_task" where
  "task_json t =
     \<lparr>j_task_id = Some (task_id t), j_description = description t, j_created = created t,
      j_completed = Some (completed_count t), j_skipped = Some (skipped_count t)\<rparr>"

definition save_data :: "todo_app \<Rightarrow> json_data" where
  "save_data s =
     \<lparr>j_tasks = Some (map task_json (live_tasks s)),
      j_statistics = Some \<lparr>j_daily = daily_counts (live_stats s),
                           j_total_done = done_total (live_stats s),
                           j_total_skipped = skipped_total (live_stats s)\<rparr>\<rparr>"

subsection \<open>Allocation of the loaded objects\<close>

lemma alloc_tasks_locs:
  "fst (alloc_tasks ts h) = [next_loc h..<next_loc h + length ts] \<and>
   next_loc (snd (alloc_tasks ts h)) = next_loc h + length ts \<and>
   dict_objs (snd (alloc_tasks ts h)) = dict_objs h"
  by (induction ts arbitrary: h) (simp_all add: new_task_def case_prod_beta upt_rec)

lemma alloc_tasks_old:
  "l < next_loc h \<Longrightarrow> task_objs (snd (alloc_tasks ts h)) l = task_objs h l"
  by (induction ts arbitrary: h) (simp_all add: new_task_def case_prod_beta)

lemma alloc_tasks_values:
  "task_values (snd (alloc_tasks ts h)) (fst (alloc_tasks ts h)) = ts"
proof (induction ts arbitrary: h)
  case Nil
  then show ?case by simp
next
  case (Cons t ts)
  let ?h1 = "snd (new_task t h)"
  have "task_objs (snd (alloc_tasks ts ?h1)) (next_loc h) = t"
    by (simp add: alloc_tasks_old new_task_def)
  with Cons.IH [of ?h1] show ?case by (simp add: new_task_def case_prod_beta)
qed

lemma install_loaded_simps:
  "live_tasks (install_loaded ts st s) = ts"
  "live_stats (install_loaded ts st s) =
     \<lparr>daily_counts = j_daily st, done_total = j_total_done st, skipped_total = j_total_skipped st\<rparr>"
  "history (install_loaded ts st s) = history s"
  "history_index (install_loaded ts st s) = history_index s"
  using alloc_tasks_values [of ts "store s"]
  by (simp_all add: install_loaded_def case_prod_beta live_tasks_def live_stats_def stats_value_def
      new_dict_def task_values_def)

lemma install_loaded_inv:
  assumes "history s = []" and "history_index s = -1" and "distinct (map task_id ts)"
  shows "app_inv (install_loaded ts st s)"
proof -
  let ?a = "alloc_tasks ts (store s)"
  have v: "task_values (snd ?a) (fst ?a) = ts" by (rule alloc_tasks_values)
  have "existing_ids (snd (new_dict (j_daily st) (snd ?a))) (fst ?a) = map task_id ts"
    using v by (simp add: existing_ids_live task_values_def new_dict_def)
  then show ?thesis
    using assms alloc_tasks_locs [of ts "store s"]
    by (simp add: app_inv_def install_loaded_def case_prod_beta hist_ok_def refs_valid_def new_dict_def)
qed

subsection \<open>The identifiers the migration assigns\<close>

lemma length_migrate_from [simp]: "length (migrate_from i jts) = length jts"
  by (induction jts arbitrary: i) simp_all

lemma migrate_from_fresh_ids:
  "\<forall>jt\<in>set jts. j_task_id jt = None \<Longrightarrow>
   map task_id (migrate_from i jts) = map migrated_id [i..<i + length jts]"
  by (induction jts arbitrary: i) (simp_all add: migrate_task_def upt_rec)

lemma migrated_id_inj: "inj migrated_id"
proof (rule injI)
  fix i j assume eq: "migrated_id i = migrated_id j"
  have len: "length (migrated_id n) = 1 \<longleftrightarrow> n < 26" for n
    by (simp add: migrated_id_def letter_id_def counter_id_def)
  have "i < 26 \<longleftrightarrow> j < 26" using len [of i] len [of j] eq by simp
  moreover have "letter_id i = letter_id j \<Longrightarrow> i < 26 \<Longrightarrow> j < 26 \<Longrightarrow> i = j"
    by (simp add: letter_id_def)
  ultimately show "i = j" using eq by (auto simp: migrated_id_def split: if_splits)
qed

lemma migrate_from_task_json: "migrate_from i (map task_json ts) = ts"
  by (induction ts arbitrary: i) (simp_all add: migrate_task_def task_json_def)

lemma start_app_loaded: "start_app (Loaded d) = install_loaded (migrate_tasks (loaded_tasks d)) (loaded_stats d) init_app"
  by (simp add: start_app_def load_data_def)

lemma init_app_history: "history init_app = []" "history_index init_app = -1"
  by (simp_all add: init_app_def case_prod_beta)

subsection \<open>Properties of loading and saving\<close>

text \<open>
  C24: when no task of the file has an identifier, the migration gives pairwise distinct
  identifiers: letters for the first 26 positions and \<^verbatim>\<open>Task<i+1>\<close> after them.
\<close>

theorem migration_ids_distinct:
  assumes "\<forall>jt\<in>set jts. j_task_id jt = None"
  shows "distinct (map task_id (migrate_tasks jts))"
proof -
  have "map task_id (migrate_tasks jts) = map migrated_id [0..<length jts]"
    using migrate_from_fresh_ids [OF assms, of 0] by (simp add: migrate_tasks_def)
  then show ?thesis using migrated_id_inj by (simp add: distinct_map inj_on_subset [OF _ subset_UNIV])
qed

text \<open>
  C11: saving and loading back gives the same tasks and the same statistics, whatever state
  the file is loaded into.
\<close>

theorem save_load_roundtrip:
  "live_tasks (load_data (Loaded (save_data s)) t) = live_tasks s \<and>
   live_stats (load_data (Loaded (save_data s)) t) = live_stats s"
  by (simp add: load_data_def save_data_def loaded_tasks_def loaded_stats_def migrate_tasks_def
      migrate_from_task_json install_loaded_simps)

text \<open>
  C10: if the identifiers of the loaded tasks are distinct after the migration, every state
  reachable from the start state satisfies the invariant, and the identifiers of the task
  list stay distinct.
\<close>

theorem startup_ids_unique:
  assumes "distinct (map task_id (migrate_tasks (loaded_tasks d)))"
    and "reachable (start_app (Loaded d)) s"
  shows "app_inv s \<and> distinct (map task_id (live_tasks s))"
proof -
  have "app_inv (start_app (Loaded d))"
    unfolding start_app_loaded by (rule install_loaded_inv [OF init_app_history assms(1)])
  with assms(2) have "app_inv s" by (rule reachable_app_inv)
  then show ?thesis by (simp add: app_inv_ids_distinct)
qed

end
