(* ===== verification/Gui.thy ===== *)
theory Gui
  imports Display Persistence
begin

text \<open>
  The application as the user drives it (\<^verbatim>\<open>src/todo.py\<close>): the window built by
  \<^verbatim>\<open>__init__\<close> (lines 15--57), its buttons bound to the handlers
  (\<^verbatim>\<open>create_task_section\<close>, lines 78--118), the listbox with its
  \<^verbatim>\<open><<ListboxSelect>>\<close> callback, \<^verbatim>\<open>update_displays\<close> (lines 351--356), Save Progress
  and the window's close protocol (\<^verbatim>\<open>on_closing\<close>, lines 615--618).

  A \<open>gui\<close> state is the application state, the widgets of the task section, the data file
  and whether the window is still open. The user's actions are clicks on a listbox line and
  presses of the buttons, each press carrying what the dialogs it opens answer and what the
  clock says. The window also loses its listbox selection when another widget takes the
  X selection (the listbox exports its selection, Tk's default). Whether Tk then runs the
  \<^verbatim>\<open><<ListboxSelect>>\<close> callback depends on its version, so the action says it;
  without the callback the Done/Skip (Selected) buttons stay enabled with nothing selected.

  A disabled Tk button ignores a press. A press on an enabled button runs its handler with
  the index the listbox selection gives (\<open>selected_index\<close>), and the handler redraws the
  task section exactly on the branches of the code that reach \<^verbatim>\<open>self.update_displays()\<close>
  (\<open>redraws\<close>); an exception leaves the handler before that call, and Tk's main loop goes on.
  Of the four redraws of \<^verbatim>\<open>update_displays\<close>, the statistics text and the two charts only
  draw values of the state (theories \<open>Stats_Panel\<close>, \<open>Day_Names\<close> and \<open>Display\<close>); the
  task section is the one whose widgets later presses read.
\<close>

record gui =
  app :: todo_app
  widgets :: task_widgets
  data_file :: load_input
  window_open :: bool

text \<open>
  How a write of the data file fails (lines 572--574): \<^verbatim>\<open>open(DATA_FILE, 'w')\<close> itself
  raises (the file is left as it was), or \<^verbatim>\<open>json.dump\<close> raises after the open has
  truncated the file (a full disk, say), leaving it empty or cut short. Each carries the
  text of its exception.
\<close>

datatype save_failure = Open_Failed string | Dump_Failed string

text \<open>The user's actions. A save carries how its write failed, if it failed.\<close>

datatype gui_action =
    Click nat
  | Lose_Selection bool
  | Press_Add "string option" string
  | Press_Edit "string option"
  | Press_Delete bool
  | Press_Done_Current int
  | Press_Skip_Current
  | Press_Done_Selected int
  | Press_Skip_Selected
  | Press_Undo
  | Press_Redo
  | Press_Save "save_failure option"
  | Close "save_failure option"

text \<open>
  The widgets as \<^verbatim>\<open>create_task_section\<close> builds them: an empty \<^verbatim>\<open>StringVar\<close> and
  listbox, and buttons in Tk's default state \<^verbatim>\<open>normal\<close>.
\<close>

definition created_widgets :: task_widgets where
  "created_widgets =
     \<lparr>current_task_var = [], done_btn = True, skip_btn = True, done_selected_btn = True,
      skip_selected_btn = True, task_listbox = \<lparr>lb_lines = [], lb_selection = []\<rparr>\<rparr>"

definition update_displays :: "todo_app \<Rightarrow> task_widgets \<Rightarrow> task_widgets" where
  "update_displays s w = update_task_display s w"

text \<open>The event a press hands to its handler; \<open>None\<close> when the button is disabled.\<close>

fun action_event :: "task_widgets \<Rightarrow> gui_action \<Rightarrow> event option" where
  "action_event w (Press_Add answer now) = Some (AddTask answer now)"
| "action_event w (Press_Edit answer) = Some (EditTask (selected_index w) answer)"
| "action_event w (Press_Delete confirmed) = Some (DeleteTask (selected_index w) confirmed)"
| "action_event w (Press_Done_Current today) = (if done_btn w then Some (DoneCurrent today) else None)"
| "action_event w Press_Skip_Current = (if skip_btn w then Some SkipCurrent else None)"
| "action_event w (Press_Done_Selected today) =
     (if done_selected_btn w then Some (DoneSelected (selected_index w) today) else None)"
| "action_event w Press_Skip_Selected =
     (if skip_selected_btn w then Some (SkipSelected (selected_index w)) else None)"
| "action_event w Press_Undo = Some Undo"
| "action_event w Press_Redo = Some Redo"
| "action_event w _ = None"

text \<open>
  The branches of each handler that call \<^verbatim>\<open>self.update_displays()\<close>: lines 223, 239,
  252, 269, 284, 304, 322, 340 and 349.
\<close>

fun redraws :: "todo_app \<Rightarrow> event \<Rightarrow> bool" where
  "redraws s (AddTask answer now) = (case answer of Some d \<Rightarrow> d \<noteq> [] | None \<Rightarrow> False)"
| "redraws s (EditTask selection answer) =
     (selection \<noteq> None \<and> (case answer of Some d \<Rightarrow> d \<noteq> [] | None \<Rightarrow> False))"
| "redraws s (DeleteTask selection confirmed) = (selection \<noteq> None \<and> confirmed)"
| "redraws s (DoneCurrent today) = (tasks s \<noteq> [])"
| "redraws s SkipCurrent = (tasks s \<noteq> [])"
| "redraws s (DoneSelected selection today) = (selection \<noteq> None)"
| "redraws s (SkipSelected selection) = (selection \<noteq> None)"
| "redraws s Undo = (0 < history_index s)"
| "redraws s Redo = (history_index s < int (length (history s)) - 1)"

definition press :: "gui \<Rightarrow> event \<Rightarrow> gui \<times> outcome" where
  "press g e =
     (case handle (app g) e of
        (s', Raised err) \<Rightarrow> (g\<lparr>app := s'\<rparr>, Raised err)
      | (s', out) \<Rightarrow>
          (g\<lparr>app := s',
             widgets := (if redraws (app g) e then update_displays s' (widgets g) else widgets g)\<rparr>,
           out))"

text \<open>
  \<^verbatim>\<open>save_data\<close> (lines 565--577): a successful write leaves the file holding the live
  state. A failed one is caught and reported with its text. After a failed open the file
  is as it was; after a failed dump it holds a proper prefix of the JSON document, which
  \<^verbatim>\<open>json.load\<close> rejects, so the next start reads it as the \<^verbatim>\<open>except\<close> branch
  (\<open>Unreadable\<close>).
\<close>

definition save_file :: "save_failure option \<Rightarrow> gui \<Rightarrow> gui \<times> outcome" where
  "save_file write_error g =
     (case write_error of
        None \<Rightarrow> (g\<lparr>data_file := Loaded (save_data (app g))\<rparr>, Ok)
      | Some (Open_Failed msg) \<Rightarrow> (g, Warned (''Failed to save data: '' @ msg))
      | Some (Dump_Failed msg) \<Rightarrow> (g\<lparr>data_file := Unreadable\<rparr>, Warned (''Failed to save data: '' @ msg)))"

definition lose_selection :: "bool \<Rightarrow> task_widgets \<Rightarrow> task_widgets" where
  "lose_selection notify w =
     (let w1 = w\<lparr>task_listbox := (task_listbox w)\<lparr>lb_selection := []\<rparr>\<rparr>
      in if notify then on_task_select w1 else w1)"

fun gui_act :: "gui \<Rightarrow> gui_action \<Rightarrow> gui \<times> outcome" where
  "gui_act g (Click i) = (g\<lparr>widgets := listbox_click i (widgets g)\<rparr>, Ok)"
| "gui_act g (Lose_Selection notify) = (g\<lparr>widgets := lose_selection notify (widgets g)\<rparr>, Ok)"
| "gui_act g (Press_Save write_error) = save_file write_error g"
| "gui_act g (Close write_error) =
     (case save_file write_error g of (g1, out) \<Rightarrow> (g1\<lparr>window_open := False\<rparr>, out))"
| "gui_act g a = (case action_event (widgets g) a of None \<Rightarrow> (g, Ok) | Some e \<Rightarrow> press g e)"

text \<open>After \<^verbatim>\<open>root.destroy()\<close> the main loop has returned and no action reaches the window.\<close>

definition gui_step :: "gui \<Rightarrow> gui_action \<Rightarrow> gui \<times> outcome" where
  "gui_step g a = (if window_open g then gui_act g a else (g, Ok))"

fun gui_run :: "gui \<Rightarrow> gui_action list \<Rightarrow> gui \<times> outcome list" where
  "gui_run g [] = (g, [])"
| "gui_run g (a # as) =
     (case gui_step g a of (g1, out) \<Rightarrow> (case gui_run g1 as of (g2, outs) \<Rightarrow> (g2, out # outs)))"

text \<open>\<^verbatim>\<open>main\<close> and \<^verbatim>\<open>__init__\<close>: load the file, build the widgets, draw them.\<close>

definition gui_start :: "load_input \<Rightarrow> gui" where
  "gui_start f =
     \<lparr>app = start_app f, widgets = update_displays (start_app f) created_widgets,
      data_file = f, window_open = True\<rparr>"

text \<open>
  The task section shows the live queue: one listbox line per task, every selected line
  one of them, the current task's line, and Done/Skip (Current) enabled exactly when there
  is a task.
\<close>

definition display_ok :: "todo_app \<Rightarrow> task_widgets \<Rightarrow> bool" where
  "display_ok s w \<longleftrightarrow>
     lb_lines (task_listbox w) = map list_line (live_tasks s) \<and> listbox_ok (task_listbox w) \<and>
     current_task_var w = (if tasks s = [] then ''No tasks available'' else current_line (hd (live_tasks s))) \<and>
     done_btn w = (tasks s \<noteq> []) \<and> skip_btn w = (tasks s \<noteq> [])"

definition gui_inv :: "gui \<Rightarrow> bool" where
  "gui_inv g \<longleftrightarrow> app_inv (app g) \<and> display_ok (app g) (widgets g)"

text \<open>A file the application starts from without duplicate identifiers.\<close>

definition file_ids_distinct :: "load_input \<Rightarrow> bool" where
  "file_ids_distinct f \<longleftrightarrow>
     (case f of Loaded d \<Rightarrow> distinct (map task_id (migrate_tasks (loaded_tasks d))) | _ \<Rightarrow> True)"

subsection \<open>Each action keeps the display in step with the queue\<close>

lemma no_redraw_unchanged: "\<not> redraws s e \<Longrightarrow> fst (handle s e) = s"
  by (cases e)
     (auto simp: add_task_def edit_task_def delete_task_def mark_current_done_def
        mark_current_skip_def mark_selected_done_def mark_selected_skip_def undo_def redo_def
        split: option.splits sum.splits)

lemma display_ok_update: "display_ok s (update_displays s w)"
  by (simp add: display_ok_def update_displays_def update_task_display_simps
      listbox_ok_update_task_display)

lemma display_ok_click:
  "display_ok s w \<Longrightarrow> display_ok s (listbox_click i w)"
  "display_ok s w \<Longrightarrow> display_ok s (lose_selection notify w)"
  by (auto simp: display_ok_def listbox_click_ok listbox_ok_def listbox_click_def on_task_select_def
      set_selected_buttons_def lose_selection_def Let_def)

lemma action_gui_event:
  assumes "display_ok s w" and "action_event w a = Some e"
  shows "gui_event s e"
proof -
  have "selected_index w = Some i \<Longrightarrow> i < length (tasks s)" for i
    using assms(1) selected_index_bound [of w i] by (simp add: display_ok_def live_tasks_def)
  then show ?thesis using assms(2)
    by (cases a) (auto simp: gui_event_def split: if_splits option.splits)
qed

lemma press_inv:
  assumes "gui_inv g" and "gui_event (app g) e"
  shows "gui_inv (fst (press g e)) \<and> snd (press g e) \<noteq> Raised err"
proof -
  have inv: "app_inv (app g)" and d: "display_ok (app g) (widgets g)"
    using assms(1) by (simp_all add: gui_inv_def)
  have nr: "snd (handle (app g) e) \<noteq> Raised x" for x
    using inv assms(2) by (intro gui_event_outcome) (simp add: app_inv_def)
  obtain s' out where h: "handle (app g) e = (s', out)" by fastforce
  have out: "\<forall>x. out \<noteq> Raised x" using nr h by simp
  have s': "app_inv s'" using app_step_inv [OF inv, of e] h by (simp add: app_step_def)
  have "display_ok s' (if redraws (app g) e then update_displays s' (widgets g) else widgets g)"
    using d no_redraw_unchanged [of "app g" e] h by (simp add: display_ok_update)
  then show ?thesis using h out s'
    by (cases out) (simp_all add: press_def gui_inv_def)
qed

lemma gui_step_inv:
  assumes "gui_inv g"
  shows "gui_inv (fst (gui_step g a)) \<and> snd (gui_step g a) \<noteq> Raised err"
proof (cases "window_open g")
  case True
  have d: "display_ok (app g) (widgets g)" and inv: "app_inv (app g)"
    using assms by (simp_all add: gui_inv_def)
  show ?thesis
  proof (cases "action_event (widgets g) a")
    case None
    then show ?thesis using True assms d
      by (cases a) (auto simp: gui_step_def gui_inv_def save_file_def display_ok_click
          split: option.splits save_failure.splits)
  next
    case (Some e)
    have "gui_event (app g) e" by (rule action_gui_event [OF d Some])
    with press_inv [OF assms] Some True show ?thesis
      by (cases a) (simp_all add: gui_step_def)
  qed
qed (simp add: gui_step_def assms)

lemma gui_run_inv:
  "gui_inv g \<Longrightarrow> gui_inv (fst (gui_run g as)) \<and> (\<forall>err. Raised err \<notin> set (snd (gui_run g as)))"
proof (induction as arbitrary: g)
  case Nil
  then show ?case by simp
next
  case (Cons a as)
  obtain g1 out where s: "gui_step g a = (g1, out)" by fastforce
  have "gui_inv g1 \<and> (\<forall>err. out \<noteq> Raised err)" using gui_step_inv [OF Cons.prems, of a] s by simp
  with Cons.IH [of g1] s show ?case by (auto split: prod.split)
qed

lemma start_app_inv: "file_ids_distinct f \<Longrightarrow> app_inv (start_app f)"
  by (cases f)
     (simp_all add: file_ids_distinct_def start_app_def load_data_def app_inv_init
        install_loaded_inv init_app_history)

lemma gui_start_inv: "file_ids_distinct f \<Longrightarrow> gui_inv (gui_start f)"
  using start_app_inv by (simp add: gui_inv_def gui_start_def display_ok_update)

subsection \<open>Properties of a GUI session\<close>

text \<open>
  C6: safety of the whole application: started from a file whose tasks get distinct
  identifiers, in every session of clicks, presses, lost selections, saves and a close, the
  state keeps the invariant, the task section always shows the live queue (one line per
  task, the current task, Done/Skip (Current) enabled exactly when there is a task, every
  selected line a task), and no handler ever raises.
\<close>

theorem gui_session_safe:
  assumes "file_ids_distinct f"
  shows "gui_inv (fst (gui_run (gui_start f) as)) \<and>
         (\<forall>err. Raised err \<notin> set (snd (gui_run (gui_start f) as)))"
proof -
  have "gui_inv (gui_start f)" using assms by (rule gui_start_inv)
  then show ?thesis by (rule gui_run_inv)
qed


text \<open>
  C12: closing the window saves the state, and starting the application again from that
  file shows the same queue with the same statistics. When the open fails the file is as
  it was; when the dump fails after the open truncated the file, the next start shows an
  empty queue with no completion: every task is lost. Either way the window is gone.
\<close>

theorem close_restart_restores:
  assumes "window_open g"
  shows "live_tasks (app (gui_start (data_file (fst (gui_step g (Close None)))))) = live_tasks (app g) \<and>
         live_stats (app (gui_start (data_file (fst (gui_step g (Close None)))))) = live_stats (app g) \<and>
         lb_lines (task_listbox (widgets (gui_start (data_file (fst (gui_step g (Close None))))))) =
           map list_line (live_tasks (app g)) \<and>
         data_file (fst (gui_step g (Close (Some (Open_Failed msg))))) = data_file g \<and>
         live_tasks (app (gui_start (data_file (fst (gui_step g (Close (Some (Dump_Failed msg')))))))) = [] \<and>
         done_total (live_stats (app (gui_start (data_file (fst (gui_step g (Close (Some (Dump_Failed msg'))))))))) = 0 \<and>
         \<not> window_open (fst (gui_step g (Close w)))"
  using assms
  by (cases w)
     (simp_all add: gui_step_def save_file_def gui_start_def start_app_loaded save_data_def
        start_app_def load_data_def default_stats_def
        loaded_tasks_def loaded_stats_def migrate_tasks_def migrate_from_task_json
        install_loaded_simps update_displays_def update_task_display_simps
        split: save_failure.split prod.split)

end
