(* ===== verification/Task_Spec.thy ===== *)
theory Task_Spec
  imports Todo_App
begin

text \<open>
  A value-level specification of the task queue, and the refinement that the handlers of
  \<^verbatim>\<open>src/todo.py\<close> implement it. The abstract state is what the user sees and what a
  deep copy would hold: the list of task values and the statistics with the per-day counts
  as a value (\<open>app_value\<close>). Each handler of the task section is specified as a function
  on that value, as the design describes it: Add appends a task with the least unused
  identifier, Edit replaces a description, Delete removes a task, Done and Skip move a task
  to the end with its counter incremented. An out-of-range selection, a missing one and a
  cancelled dialog leave the value as it is.

  Undo and Redo have no specification on values: what they install is decided by the
  history of shallow snapshots (theories \<open>History\<close> and \<open>Todo_App\<close>), so \<open>spec_step\<close>
  is \<open>None\<close> on them. For every other event, with the invariant \<open>app_inv\<close>, the live
  state moves exactly as the specification says (\<open>app_step_refines\<close>), and so do whole
  sessions without Undo and Redo (\<open>run_refines\<close>). The rotation of the queue then gives a
  liveness property: every task becomes the current one after as many presses of
  Done (Current) or Skip (Current) as there are tasks before it.
\<close>

type_synonym app_value = "task list \<times> stats_value"

definition app_value :: "todo_app \<Rightarrow> app_value" where
  "app_value s = (live_tasks s, live_stats s)"

definition spec_add :: "app_value \<Rightarrow> string option \<Rightarrow> string \<Rightarrow> app_value" where
  "spec_add v answer now =
     (case answer of
        Some d \<Rightarrow>
          if d = [] then v
          else (fst v @ [\<lparr>task_id = next_task_id (map task_id (fst v)), description = d,
                          created = now, completed_count = 0, skipped_count = 0\<rparr>], snd v)
      | None \<Rightarrow> v)"

definition spec_edit :: "app_value \<Rightarrow> nat option \<Rightarrow> string option \<Rightarrow> app_value" where
  "spec_edit v selection answer =
     (case (selection, answer) of
        (Some i, Some d) \<Rightarrow>
          if i < length (fst v) \<and> d \<noteq> [] then ((fst v)[i := (fst v ! i)\<lparr>description := d\<rparr>], snd v)
          else v
      | _ \<Rightarrow> v)"

definition spec_delete :: "app_value \<Rightarrow> nat option \<Rightarrow> bool \<Rightarrow> app_value" where
  "spec_delete v selection confirmed =
     (case selection of
        Some i \<Rightarrow> if confirmed \<and> i < length (fst v) then (remove_at i (fst v), snd v) else v
      | None \<Rightarrow> v)"

definition spec_done :: "app_value \<Rightarrow> nat \<Rightarrow> int \<Rightarrow> app_value" where
  "spec_done v i today =
     (if i < length (fst v)
      then (remove_at i (fst v) @ [bump_done (fst v ! i)],
            (snd v)\<lparr>daily_counts := record_completion (daily_counts (snd v)) (date_key today),
                    done_total := done_total (snd v) + 1\<rparr>)
      else v)"

definition spec_skip :: "app_value \<Rightarrow> nat \<Rightarrow> app_value" where
  "spec_skip v i =
     (if i < length (fst v)
      then (remove_at i (fst v) @ [bump_skip (fst v ! i)],
            (snd v)\<lparr>skipped_total := skipped_total (snd v) + 1\<rparr>)
      else v)"

fun spec_step :: "app_value \<Rightarrow> event \<Rightarrow> app_value option" where
  "spec_step v (AddTask answer now) = Some (spec_add v answer now)"
| "spec_step v (EditTask selection answer) = Some (spec_edit v selection answer)"
| "spec_step v (DeleteTask selection confirmed) = Some (spec_delete v selection confirmed)"
| "spec_step v (DoneCurrent today) = Some (spec_done v 0 today)"
| "spec_step v SkipCurrent = Some (spec_skip v 0)"
| "spec_step v (DoneSelected selection today) =
     Some (case selection of Some i \<Rightarrow> spec_done v i today | None \<Rightarrow> v)"
| "spec_step v (SkipSelected selection) =
     Some (case selection of Some i \<Rightarrow> spec_skip v i | None \<Rightarrow> v)"
| "spec_step v Undo = None"
| "spec_step v Redo = None"

fun spec_run :: "app_value \<Rightarrow> event list \<Rightarrow> app_value option" where
  "spec_run v [] = Some v"
| "spec_run v (e # es) = (case spec_step v e of Some v' \<Rightarrow> spec_run v' es | None \<Rightarrow> None)"

text \<open>The presses that act on the current task.\<close>

fun current_press :: "event \<Rightarrow> bool" where
  "current_press (DoneCurrent _) = True"
| "current_press SkipCurrent = True"
| "current_press _ = False"

subsection \<open>Each handler implements its specification\<close>

lemma live_save_state [simp]:
  "live_tasks (save_state s) = live_tasks s" "live_stats (save_state s) = live_stats s"
  by (simp_all add: live_tasks_def live_stats_def)

lemma app_value_parts [simp]: "fst (app_value s) = live_tasks s" "snd (app_value s) = live_stats s"
  by (simp_all add: app_value_def)

lemma app_value_save_state [simp]: "app_value (save_state s) = app_value s"
  by (simp add: app_value_def)

lemma app_inv_distinct: "app_inv s \<Longrightarrow> distinct (tasks s)"
  and app_inv_fresh: "app_inv s \<Longrightarrow> \<forall>l\<in>set (tasks s). l < next_loc (store s)"
  by (simp_all add: app_inv_def refs_valid_def)

lemma length_live_tasks [simp]: "length (live_tasks s) = length (tasks s)"
  by (simp add: live_tasks_def)

lemma add_task_refines:
  assumes "app_inv s"
  shows "app_value (fst (add_task s answer now)) = spec_add (app_value s) answer now"
proof (cases "\<exists>d. answer = Some d \<and> d \<noteq> []")
  case True
  then obtain d where "answer = Some d" and d: "d \<noteq> []" by blast
  with add_task_view [OF d app_inv_fresh [OF assms], of now] show ?thesis
    by (simp add: spec_add_def app_value_def)
next
  case False
  then show ?thesis by (cases answer) (auto simp: add_task_def spec_add_def)
qed

lemma edit_task_refines:
  assumes "app_inv s"
  shows "app_value (fst (edit_task s selection answer)) = spec_edit (app_value s) selection answer"
proof (cases "\<exists>i d. selection = Some i \<and> answer = Some d \<and> i < length (tasks s) \<and> d \<noteq> []")
  case True
  then obtain i d where "selection = Some i" "answer = Some d" and i: "i < length (tasks s)"
    and d: "d \<noteq> []" by blast
  with edit_task_view [OF app_inv_distinct [OF assms] i d] show ?thesis
    by (simp add: spec_edit_def app_value_def)
next
  case False
  then show ?thesis
    by (auto simp: edit_task_def spec_edit_def split: option.splits)
qed

lemma delete_task_refines:
  "app_value (fst (delete_task s selection confirmed)) = spec_delete (app_value s) selection confirmed"
proof (cases "\<exists>i. selection = Some i \<and> confirmed \<and> i < length (tasks s)")
  case True
  then obtain i where "selection = Some i" "confirmed" and i: "i < length (tasks s)" by blast
  with delete_task_view [OF i] show ?thesis by (simp add: spec_delete_def app_value_def)
next
  case False
  then show ?thesis
    by (auto simp: delete_task_def spec_delete_def Let_def split: option.splits)
qed

lemma done_rotate_refines:
  assumes "app_inv s"
  shows "app_value (fst (done_rotate s i today)) = spec_done (app_value s) i today"
proof (cases "i < length (tasks s)")
  case True
  with done_rotate_view [OF app_inv_distinct [OF assms] True] show ?thesis
    by (simp add: spec_done_def app_value_def)
qed (simp add: done_rotate_def spec_done_def app_value_def)

lemma skip_rotate_refines:
  assumes "app_inv s"
  shows "app_value (fst (skip_rotate s i)) = spec_skip (app_value s) i"
proof (cases "i < length (tasks s)")
  case True
  with skip_rotate_view [OF app_inv_distinct [OF assms] True] show ?thesis
    by (simp add: spec_skip_def app_value_def)
qed (simp add: skip_rotate_def spec_skip_def app_value_def)

lemma app_step_value:
  assumes "app_inv s" and "spec_step (app_value s) e = Some v"
  shows "app_value (app_step s e) = v"
  using assms
  by (cases e)
     (auto simp: app_step_def add_task_refines edit_task_refines delete_task_refines
        done_rotate_refines skip_rotate_refines mark_current_done_def mark_current_skip_def
        mark_selected_done_def mark_selected_skip_def spec_done_def spec_skip_def
        split: option.splits)

lemma run_value:
  "app_inv s \<Longrightarrow> spec_run (app_value s) es = Some v \<Longrightarrow> app_value (run s es) = v"
proof (induction es arbitrary: s)
  case Nil
  then show ?case by simp
next
  case (Cons e es)
  then obtain v' where v': "spec_step (app_value s) e = Some v'" and r: "spec_run v' es = Some v"
    by (auto split: option.splits)
  have "app_value (app_step s e) = v'" by (rule app_step_value [OF Cons.prems(1) v'])
  with Cons.IH [OF app_step_inv [OF Cons.prems(1)]] r show ?case by simp
qed

subsection \<open>Presses on the current task rotate the queue\<close>

lemma spec_run_current:
  assumes "list_all current_press es" and "length es \<le> length ts"
  shows "\<exists>v ys. spec_run (ts, st) es = Some v \<and> fst v = drop (length es) ts @ ys"
  using assms
proof (induction es arbitrary: ts st)
  case Nil
  then show ?case by simp
next
  case (Cons e es)
  then have ne: "0 < length ts" and e: "current_press e" and es: "list_all current_press es" by auto
  have r0: "remove_at 0 ts = tl ts" by (simp add: remove_at_def drop_Suc)
  obtain x st' where step: "spec_step (ts, st) e = Some (tl ts @ [x], st')"
    using ne e r0 by (cases e) (auto simp: spec_done_def spec_skip_def)
  have "length es \<le> length (tl ts @ [x])" using Cons.prems(2) by simp
  with Cons.IH [OF es] obtain v ys
    where "spec_run (tl ts @ [x], st') es = Some v" and "fst v = drop (length es) (tl ts @ [x]) @ ys"
    by blast
  moreover have "length es < length ts" using Cons.prems(2) by simp
  ultimately show ?case using step by (simp add: drop_Suc)
qed

text \<open>
  C13: simulation: from a state satisfying the invariant, every event other than Undo and
  Redo moves the values of the live state exactly as its specification \<open>spec_step\<close> says,
  and the new state satisfies the invariant again.
\<close>

theorem app_step_refines:
  assumes "app_inv s" and "spec_step (app_value s) e = Some v"
  shows "app_value (app_step s e) = v \<and> app_inv (app_step s e)"
  using app_step_value [OF assms] app_step_inv [OF assms(1)] by simp

text \<open>
  C15: liveness of the queue: in a queue of \<open>N\<close> tasks, after any \<open>k < N\<close> presses of
  Done (Current) and Skip (Current), in any mix, the current task is the one that was at
  position \<open>k\<close>, unchanged: every task becomes current, after as many presses as there
  are tasks before it.
\<close>

theorem every_task_becomes_current:
  assumes "app_inv s" and "list_all current_press es" and "length es < length (tasks s)"
  shows "hd (live_tasks (run s es)) = live_tasks s ! length es"
proof -
  obtain v ys where r: "spec_run (app_value s) es = Some v"
    and v: "fst v = drop (length es) (live_tasks s) @ ys"
    using spec_run_current [OF assms(2), of "live_tasks s" "live_stats s"] assms(3)
    by (auto simp: app_value_def)
  have "live_tasks (run s es) = fst v" using run_value [OF assms(1) r] by (auto simp: app_value_def)
  with v assms(3) show ?thesis by (simp add: hd_drop_conv_nth)
qed

end
