(* ===== verification/Gui_Refinement.thy ===== *)
theory Gui_Refinement
  imports Gui Task_Spec
begin

text \<open>
  The GUI session of theory \<open>Gui\<close> refines the value-level specification of theory
  \<open>Task_Spec\<close>. A session emits a trace: the events its presses hand to the handlers
  (\<open>gui_event_of\<close>), leaving out clicks, lost selections, saves, the close, presses on a
  disabled button and every action after the window has closed. Replaying that trace in
  \<open>spec_run\<close> gives exactly the task values and statistics the application holds at the
  end, and the listbox shows those values: the window, the handlers and the object store
  together implement the specification, for every session without Undo and Redo (whose
  effect the specification does not fix, theory \<open>History\<close>).
\<close>

definition gui_event_of :: "gui \<Rightarrow> gui_action \<Rightarrow> event option" where
  "gui_event_of g a = (if window_open g then action_event (widgets g) a else None)"

fun gui_trace :: "gui \<Rightarrow> gui_action list \<Rightarrow> event list" where
  "gui_trace g [] = []"
| "gui_trace g (a # as) =
     (case gui_event_of g a of None \<Rightarrow> [] | Some e \<Rightarrow> [e]) @ gui_trace (fst (gui_step g a)) as"

subsection \<open>Replaying a trace\<close>

lemma spec_run_append:
  "spec_run v (xs @ ys) = (case spec_run v xs of None \<Rightarrow> None | Some v' \<Rightarrow> spec_run v' ys)"
  by (induction v xs rule: spec_run.induct) (simp_all split: option.split)

lemma action_event_forward:
  "action_event w a = Some e \<Longrightarrow> a \<noteq> Press_Undo \<Longrightarrow> a \<noteq> Press_Redo \<Longrightarrow> e \<noteq> Undo \<and> e \<noteq> Redo"
  by (cases a) (auto split: if_splits)

lemma spec_step_forward: "e \<noteq> Undo \<Longrightarrow> e \<noteq> Redo \<Longrightarrow> \<exists>v'. spec_step v e = Some v'"
  by (cases e) simp_all

lemma gui_event_forward:
  "gui_event_of g a = Some e \<Longrightarrow> a \<noteq> Press_Undo \<Longrightarrow> a \<noteq> Press_Redo \<Longrightarrow>
   \<exists>v'. spec_step v e = Some v'"
  using action_event_forward spec_step_forward by (auto simp: gui_event_of_def split: if_splits)

subsection \<open>The refinement\<close>

text \<open>
  C14: refinement of the whole application: from a GUI state satisfying the invariant, for
  every session of actions other than Undo and Redo, the value-level specification
  replaying the events the presses handed to the handlers ends in exactly the tasks and
  statistics of the final state, and the listbox shows one line per task of that value.
\<close>

theorem gui_refines_spec:
  assumes "gui_inv g" and "list_all (\<lambda>a. a \<noteq> Press_Undo \<and> a \<noteq> Press_Redo) as"
  shows "spec_run (app_value (app g)) (gui_trace g as) = Some (app_value (app (fst (gui_run g as)))) \<and>
         lb_lines (task_listbox (widgets (fst (gui_run g as)))) =
           map list_line (fst (app_value (app (fst (gui_run g as)))))"
proof -
  have app0: "app (fst (gui_step g a)) = app g" if "gui_event_of g a = None" for g a
    using that
    by (cases a)
       (auto simp: gui_event_of_def gui_step_def save_file_def split: if_splits prod.splits option.splits save_failure.splits)
  have app1: "app (fst (gui_step g a)) = app_step (app g) e" if "gui_event_of g a = Some e" for g a e
    using that
    by (cases a)
       (auto simp: gui_event_of_def gui_step_def press_def app_step_def
          split: if_splits option.splits prod.splits outcome.splits save_failure.splits)
  have step: "spec_run (app_value (app g)) (case gui_event_of g a of None \<Rightarrow> [] | Some e \<Rightarrow> [e]) =
              Some (app_value (app (fst (gui_step g a))))"
    if inv: "gui_inv g" and a: "a \<noteq> Press_Undo" "a \<noteq> Press_Redo" for g a
  proof (cases "gui_event_of g a")
    case None
    then show ?thesis by (simp add: app0)
  next
    case (Some e)
    then obtain v' where v': "spec_step (app_value (app g)) e = Some v'"
      using gui_event_forward a by blast
    have "app_inv (app g)" using inv by (simp add: gui_inv_def)
    from app_step_value [OF this v'] Some v' show ?thesis by (simp add: app1)
  qed
  show ?thesis
    using assms
  proof (induction as arbitrary: g)
    case Nil
    then show ?case by (simp add: gui_inv_def display_ok_def)
  next
    case (Cons a as)
    obtain g1 out where s: "gui_step g a = (g1, out)" by fastforce
    have g1: "gui_inv g1" using gui_step_inv [OF Cons.prems(1), of a] s by simp
    have h: "spec_run (app_value (app g)) (case gui_event_of g a of None \<Rightarrow> [] | Some e \<Rightarrow> [e]) =
             Some (app_value (app g1))"
      using step [OF Cons.prems(1)] Cons.prems(2) s by simp
    obtain g2 outs where r: "gui_run g1 as = (g2, outs)" by fastforce
    from Cons.IH [OF g1] Cons.prems(2) h s r show ?case by (simp add: spec_run_append)
  qed
qed

end
