(* ===== verification/Spec2Isabelle.thy ===== *)
theory Spec2Isabelle
  imports Counts Stats_Panel Gui_Refinement
begin

text \<open>
  \<^bold>\<open>A verification development of the ToDo list application (CSwebD/ToDo_List_Py).\<close>

  The program is one Tkinter class, \<^verbatim>\<open>TodoApp\<close> in \<^verbatim>\<open>src/todo.py\<close>. Its data are
  a rotating queue of task dictionaries (\<^verbatim>\<open>self.tasks\<close>), a statistics dictionary
  (\<^verbatim>\<open>self.statistics\<close>, with a nested per-day dictionary \<^verbatim>\<open>daily\<close>) and an undo/redo
  history of shallow snapshots (\<^verbatim>\<open>self.history\<close>, \<^verbatim>\<open>self.history_index\<close>). Each
  button of the task section calls one handler; every handler that changes data calls
  \<^verbatim>\<open>save_state\<close> first and then mutates the live state in place, and Undo and Redo
  install a stored snapshot. \<^verbatim>\<open>__init__\<close> loads the data file, \<^verbatim>\<open>on_closing\<close> saves
  it. The rest of the class draws widgets and charts from the data.

  \<^bold>\<open>Theories.\<close> A shallow embedding with Python's object sharing made explicit.
  \<^item> \<open>Todo_Prelude\<close>: the Python built-ins the code calls (\<^verbatim>\<open>xs[i]\<close> with negative
    indices, \<^verbatim>\<open>pop\<close>, slices, \<^verbatim>\<open>dict.get\<close>, \<^verbatim>\<open>str(n)\<close> with its parse round trip),
    the outcome of a handler (normal return, warning dialog, escaped \<^verbatim>\<open>IndexError\<close>),
    Python's division \<open>py_truediv\<close>, which raises \<^verbatim>\<open>ZeroDivisionError\<close> on a zero
    divisor, and shared lemmas on lists and dictionaries.
  \<^item> \<open>Object_Store\<close>: the task dictionaries and the \<^verbatim>\<open>daily\<close> dictionary are objects of
    a store reached by reference (\<open>new_task\<close>, \<open>update_task\<close>, \<open>update_dict\<close>); the
    task list and the statistics dictionary are values, because the code copies them
    whenever it stores or restores them. \<open>todo_app\<close> holds the five attributes.
  \<^item> \<open>History\<close>: \<^verbatim>\<open>save_state\<close>, \<^verbatim>\<open>undo\<close>, \<^verbatim>\<open>redo\<close> (lines 171--187, 333--349),
    the cursor invariant \<open>hist_ok\<close> and a refinement to an abstract bounded undo stack.
  \<^item> \<open>Task_Ids\<close>: the identifier allocator of \<^verbatim>\<open>add_task\<close> (lines 194--213), its
    counter loop as a function with a termination proof, and its specification.
  \<^item> \<open>Statistics\<close>: calendar keys (\<^verbatim>\<open>strftime('%Y-%m-%d')\<close> of a day number) and
    every figure \<^verbatim>\<open>update_statistics_display\<close> and \<^verbatim>\<open>update_daily_chart\<close> compute
    (lines 394--485).
  \<^item> \<open>Task_Queue\<close>: the handlers \<^verbatim>\<open>add_task\<close>, \<^verbatim>\<open>edit_task\<close>, \<^verbatim>\<open>delete_task\<close>,
    \<^verbatim>\<open>mark_current_done/skip\<close>, \<^verbatim>\<open>mark_selected_done/skip\<close> and the two aliases (lines
    189--331), each with its guards, dialogs, \<^verbatim>\<open>save_state\<close> call and in-place updates.
  \<^item> \<open>Todo_App\<close>: the buttons as a datatype of events carrying what the GUI hands the
    handler (dialog answers, listbox selection, the day), \<open>handle\<close> dispatching them,
    sessions (\<open>run\<close>), the state of \<^verbatim>\<open>__init__\<close>, the reachable states, and the
    invariant \<open>app_inv\<close>: valid, repetition-free references with distinct identifiers in
    the live list and in every snapshot, and one \<^verbatim>\<open>daily\<close> dictionary shared by all.
  \<^item> \<open>Persistence\<close>: \<^verbatim>\<open>load_data\<close> with its defaults, the positional migration and the
    reset on an exception, and \<^verbatim>\<open>save_data\<close>, over a JSON document value. A file
    \<^verbatim>\<open>json.load\<close> rejects is the \<^verbatim>\<open>except\<close> branch (\<open>Unreadable\<close>); a document of
    the schema, possibly without identifiers, is a \<open>Loaded\<close> value.
  \<^item> \<open>Task_Spec\<close>: a value-level specification of the handlers (what the user sees:
    task values and statistics values) and the refinement that the code implements it
    on every event but Undo and Redo, with the rotation of the queue as a liveness property.
  \<^item> \<open>Display\<close>: \<^verbatim>\<open>update_task_display\<close> and \<^verbatim>\<open>on_task_select\<close> over the widget state
    they touch (current-task text, the four Done/Skip buttons, the listbox and its
    selection), the selection the handlers read, and the data of the per-task chart.
  \<^item> \<open>Counts\<close>: the type invariant that every counter is a natural number.
  \<^item> \<open>Day_Names\<close>: the weekday of a day number (an \<open>enum\<close> instance), the names
    \<^verbatim>\<open>%A\<close> and \<^verbatim>\<open>%a\<close>, the "Recent Daily Counts" lines, and the data of the seven-day chart
    (\<^verbatim>\<open>update_daily_chart\<close>: labels, heights, colours, average, value labels).
  \<^item> \<open>Stats_Panel\<close>: the whole text of \<^verbatim>\<open>update_statistics_display\<close> (lines
    390--432), with \<^verbatim>\<open>description[:20]\<close> sliced by characters over UTF-8 bytes, and
    each rate computed by the partial division, so that an exception of the loop would
    end the panel.
  \<^item> \<open>Gui\<close>: the window as a state machine (lines 15--118, 351--356, 565--577,
    615--623): clicks, lost selections, presses that a disabled button ignores, handlers
    run on the listbox selection and redrawing exactly where the code calls
    \<^verbatim>\<open>update_displays\<close>, Save Progress with a write that may fail in its
    \<^verbatim>\<open>open\<close> (the file unchanged) or in its \<^verbatim>\<open>json.dump\<close> (the file already
    truncated, so unreadable at the next start), and the close
    protocol; \<open>gui_start\<close> is \<^verbatim>\<open>main\<close> up to the main loop.
  \<^item> \<open>Gui_Refinement\<close>: the trace of events a GUI session hands to the handlers, and
    the refinement of the whole window by the value-level specification.
  \<^item> This theory: concrete states and files, the witnesses, and the scenario of section 8
    of the design.

  \<^bold>\<open>Results.\<close>
  \<^item> Undo is off by one (\<open>undo_after_push\<close>, \<open>undo_scenario\<close>): each entry is the state
    before its action, and Undo steps the cursor back one entry, so Undo right after an
    action restores the state before the previous action; the first action cannot be
    undone. Redo after an action does nothing, and Undo then Redo after an action leaves
    the state before it (\<open>redo_after_undo\<close>). The methods implement a bounded undo stack
    (\<open>save_state_refines\<close>, \<open>undo_refines\<close>, \<open>redo_refines\<close>) of at most 50 entries.
  \<^item> Snapshots are shallow (\<open>done_alters_snapshot\<close>, \<open>undo_redo_keep_daily_counts\<close>):
    Done changes the entry it has just pushed, Undo never restores the per-day counts,
    and after Done and Undo the total of completions no longer equals the sum of the
    per-day counts, which every other event keeps equal (\<open>forward_events_consistent\<close>).
  \<^item> Every event keeps \<open>app_inv\<close> (\<open>session_inv\<close>), so identifiers stay unique in every
    state reachable from the start (\<open>reachable_ids_unique\<close>, \<open>startup_ids_unique\<close>) and
    no event the GUI can produce raises. The allocator returns
    an unused identifier, the least one of its specification.
  \<^item> The migration of \<^verbatim>\<open>load_data\<close> can create duplicate identifiers
    (\<open>migration_duplicate\<close>), though not in a file without identifiers; saving then
    loading is the identity on tasks and statistics.
  \<^item> On every event but Undo and Redo the live values move as the value-level
    specification says (\<open>app_step_refines\<close>); every task becomes the current one after
    as many presses on the current task as there are tasks before it
    (\<open>every_task_becomes_current\<close>). Edit, like Done, alters the entry it pushed
    (\<open>edit_alters_snapshot\<close>).
  \<^item> The display shows the queue in order; a redraw always disables the selected-task
    buttons, because it clears the selection first (\<open>redraw_shows_queue\<close>); a selection
    made in the listbox is always a valid index. The
    counters stay natural numbers (\<open>counts_stay_natural\<close>), so every success rate shown
    is a percentage (\<open>reachable_rates_in_range\<close>).
  \<^item> In every GUI session from a file with distinct identifiers the invariant holds, the
    task section always shows the live queue and nothing raises (\<open>gui_session_safe\<close>),
    and without Undo and Redo the specification replaying the session's trace of events
    ends in exactly the values the application holds (\<open>gui_refines_spec\<close>);
    closing saves, and a restart shows the same queue, while a close whose open fails
    loses the session's changes and a close whose dump fails loses every task, since
    line 573 truncates the file before line 574 writes it (\<open>close_restart_restores\<close>).
  \<^item> The chart's seven labels are the seven weekdays, today's last
    (\<open>chart_days_cover_week\<close>); the statistics panel never raises, since the guard of
    line 418 keeps every division away from zero, and has 19 fixed lines and one per task
    (\<open>statistics_panel_layout\<close>). The success rate is the exact percentage of
    completions, 0 for a task never acted on (\<open>success_rate_bounds\<close>).
  \<^item> Done and Skip rotate the queue; rejected inputs change nothing; an out-of-range
    selection raises after the history entry was pushed; the averages and success rates
    are within their bounds.

  \<^bold>\<open>Bounds.\<close> No fuel is needed: every loop of the code is bounded. The history holds at
  most 50 entries (\<^verbatim>\<open>save_state\<close>), the average looks at 30 days, and the counter loop
  of the allocator stops after at most one step per existing identifier. Integers are
  Python's unbounded \<open>int\<close>; days are day numbers since 1970-01-01.

  \<^bold>\<open>Not modelled.\<close> The layout of the widgets (frames, grid, labels, scrollbar and
  figures of the \<^verbatim>\<open>create_*_section\<close> methods), the matplotlib drawing of both charts
  (their data is modelled), the message boxes (a warning is an outcome value), the JSON
  text and the file system (a write succeeds, fails in its \<^verbatim>\<open>open\<close>, or fails in its
  dump leaving a file \<^verbatim>\<open>json.load\<close> rejects). A JSON document of another shape than
  the one \<^verbatim>\<open>save_data\<close> writes (a task without its \<^verbatim>\<open>description\<close> key, a
  statistics dictionary without its \<^verbatim>\<open>daily\<close> key) loads without an exception and then
  makes \<^verbatim>\<open>__init__\<close> raise in \<^verbatim>\<open>update_displays\<close>; such files are outside the
  model, whose properties of loading hold for files of the schema. The float
  formatting \<^verbatim>\<open>{:.2f}\<close> and \<^verbatim>\<open>{:.0f}\<close> of the averages and rates is a parameter
  of the panel text: the model computes exact reals, not IEEE doubles, and the rounding of
  \<^verbatim>\<open>c / t * 100\<close> in doubles differs from exact rounding at some ties. The \<^verbatim>\<open>weekly\<close> and \<^verbatim>\<open>monthly\<close> entries of the statistics
  dictionary are never used and are left out. The clock is an input of the events;
  display strings are their UTF-8 bytes.
\<close>

definition ex_stats :: stats where
  "ex_stats = \<lparr>daily = 0, total_done = 0, total_skipped = 0\<rparr>"

definition ex_task_a :: task where
  "ex_task_a = \<lparr>task_id = ''A'', description = ''Buy milk'', created = ''2024-01-03T09:00:00'',
                completed_count = 0, skipped_count = 0\<rparr>"

definition ex_task_b :: task where
  "ex_task_b = \<lparr>task_id = ''B'', description = ''Walk dog'', created = ''2024-01-03T09:05:00'',
                completed_count = 3, skipped_count = 1\<rparr>"

definition ex_store :: store where
  "ex_store =
     \<lparr>task_objs = (\<lambda>l. if l = 0 then ex_task_a else ex_task_b),
      dict_objs = (\<lambda>_. Map.empty), next_loc = 2\<rparr>"

text \<open>The counts of the example of section 8 of the design: two days with completions.\<close>

definition ex_daily :: "string \<rightharpoonup> int" where
  "ex_daily = [''2024-01-01'' \<mapsto> 2, ''2024-01-03'' \<mapsto> 4]"

text \<open>The day number of 2024-01-03.\<close>

definition ex_today :: int where
  "ex_today = 19725"

text \<open>A session with two entries in the history and the cursor on the second.\<close>

definition ex_app :: todo_app where
  "ex_app =
     \<lparr>tasks = [0, 1],
      history = [\<lparr>snap_tasks = [], snap_statistics = ex_stats\<rparr>,
                 \<lparr>snap_tasks = [0], snap_statistics = ex_stats\<rparr>],
      history_index = 1, statistics = ex_stats, store = ex_store\<rparr>"

text \<open>
  The session of section 8 of the design, from the state \<^verbatim>\<open>__init__\<close> builds: add
  "Buy milk", add "Walk dog", press Done on the current task, press Undo.
\<close>

definition ex_session :: "event list" where
  "ex_session =
     [AddTask (Some ''Buy milk'') ''2024-01-03T09:00:00'',
      AddTask (Some ''Walk dog'') ''2024-01-03T09:05:00'', DoneCurrent ex_today, Undo]"

text \<open>
  A data file written by an older version: the second task has an identifier, the first
  has none and no counts.
\<close>

definition ex_legacy_file :: json_data where
  "ex_legacy_file =
     \<lparr>j_tasks = Some
        [\<lparr>j_task_id = None, j_description = ''Buy milk'', j_created = ''2024-01-03T09:00:00'',
          j_completed = None, j_skipped = None\<rparr>,
         \<lparr>j_task_id = Some ''A'', j_description = ''Walk dog'', j_created = ''2024-01-03T09:05:00'',
          j_completed = Some 3, j_skipped = Some 1\<rparr>],
      j_statistics = None\<rparr>"

text \<open>A data file in which no task has an identifier yet.\<close>

definition ex_plain_file :: json_data where
  "ex_plain_file =
     \<lparr>j_tasks = Some
        [\<lparr>j_task_id = None, j_description = ''Buy milk'', j_created = ''2024-01-03T09:00:00'',
          j_completed = None, j_skipped = None\<rparr>,
         \<lparr>j_task_id = None, j_description = ''Walk dog'', j_created = ''2024-01-03T09:05:00'',
          j_completed = Some 3, j_skipped = None\<rparr>],
      j_statistics = None\<rparr>"

text \<open>The task widgets as \<^verbatim>\<open>create_task_section\<close> leaves them: nothing shown yet.\<close>

definition ex_widgets :: task_widgets where
  "ex_widgets =
     \<lparr>current_task_var = [], done_btn = True, skip_btn = True, done_selected_btn = True,
      skip_selected_btn = True, task_listbox = \<lparr>lb_lines = [], lb_selection = []\<rparr>\<rparr>"

text \<open>The first two steps of the session of section 8: after adding "Buy milk", and then "Walk dog".\<close>

definition ex_one_task :: todo_app where
  "ex_one_task = app_step init_app (AddTask (Some ''Buy milk'') ''2024-01-03T09:00:00'')"

definition ex_two_tasks :: todo_app where
  "ex_two_tasks = app_step ex_one_task (AddTask (Some ''Walk dog'') ''2024-01-03T09:05:00'')"

text \<open>
  A GUI session on the plain file: a click on the second line, the selection lost to another
  widget without the selection callback, Done (Selected), a click on the second line again, Done (Selected) twice (the
  redraw after the first has disabled the button), and a save whose dump fails.
\<close>

definition ex_gui_actions :: "gui_action list" where
  "ex_gui_actions =
     [Click 1, Lose_Selection False, Press_Done_Selected ex_today, Click 1, Press_Done_Selected ex_today,
      Press_Done_Selected ex_today, Press_Save (Some (Dump_Failed ''disk full''))]"

lemma ex_app_hist_ok: "hist_ok ex_app"
  by (simp add: hist_ok_def ex_app_def)

theorem save_state_refines_witness:
  "hist_ok ex_app \<and>
   hist_abs (save_state ex_app) = hist_push (state_snapshot ex_app) (hist_abs ex_app)"
  using History.save_state_refines [OF ex_app_hist_ok] ex_app_hist_ok by simp

theorem undo_refines_witness:
  "hist_ok ex_app \<and>
   undo ex_app = (case hist_undo (hist_abs ex_app) of (z, r) \<Rightarrow> (apply_entry r (hist_conc z ex_app), Ok))"
  using History.undo_refines [OF ex_app_hist_ok] ex_app_hist_ok by simp

theorem redo_refines_witness:
  "hist_ok ex_app \<and>
   redo ex_app = (case hist_redo (hist_abs ex_app) of (z, r) \<Rightarrow> (apply_entry r (hist_conc z ex_app), Ok))"
  using History.redo_refines [OF ex_app_hist_ok] ex_app_hist_ok by simp

theorem undo_after_push_witness:
  "hist_ok ex_app \<and>
   undo (save_state ex_app) =
     (install (history ex_app ! 1)
        ((save_state ex_app)\<lparr>history_index := history_index (save_state ex_app) - 1\<rparr>), Ok)"
proof -
  have "undo (save_state ex_app) =
     (if history ex_app = [] then (save_state ex_app, Ok)
      else (install (history ex_app ! nat (history_index ex_app))
              ((save_state ex_app)\<lparr>history_index := history_index (save_state ex_app) - 1\<rparr>), Ok))"
    by (rule History.undo_after_push [OF ex_app_hist_ok refl refl])
  then show ?thesis using ex_app_hist_ok by (simp add: ex_app_def)
qed

theorem redo_after_push_witness:
  "hist_ok ex_app \<and> redo (save_state ex_app) = (save_state ex_app, Ok)"
  using History.redo_after_push [OF ex_app_hist_ok refl refl] ex_app_hist_ok by simp

theorem history_bound_witness:
  "hist_ok ex_app \<and> length (history (save_state ex_app)) \<le> 50 \<and>
   fst (undo (undo_times 49 ex_app)) = undo_times 49 ex_app"
  using History.history_bound [OF ex_app_hist_ok] ex_app_hist_ok by simp

theorem daily_average_bounds_witness:
  "ran ex_daily = {2, 4} \<and> calculate_daily_average ex_daily ex_today = 3 \<and>
   calculate_daily_average ex_daily ex_today \<le> 4 \<and> calculate_weekly_average ex_daily ex_today \<le> 28"
proof -
  have r: "ran ex_daily = {2, 4}" by (auto simp: ex_daily_def ran_map_upd)
  then have h: "\<forall>v\<in>ran ex_daily. 0 \<le> v \<and> v \<le> (4::int)" by simp
  have loop: "foldl (average_step ex_daily ex_today) (0, 0) [0..<30] = (6, 2)"
    unfolding ex_daily_def ex_today_def by code_simp
  have "calculate_daily_average ex_daily ex_today = 3"
    using loop by (simp add: calculate_daily_average_def ex_daily_def)
  with r h Statistics.daily_average_bounds [of 4 ex_daily ex_today] show ?thesis by simp
qed

theorem success_rate_bounds_witness:
  "0 \<le> completed_count ex_task_b \<and> 0 \<le> skipped_count ex_task_b \<and>
   success_rate ex_task_b = Inr 75"
proof -
  have h: "0 \<le> completed_count ex_task_b" "0 \<le> skipped_count ex_task_b"
    by (simp_all add: ex_task_b_def)
  from h Statistics.success_rate_bounds [OF h] show ?thesis by (simp add: ex_task_b_def)
qed

lemma ex_app_distinct: "distinct (tasks ex_app)"
  and ex_app_len: "0 < length (tasks ex_app)"
  by (simp_all add: ex_app_def)

theorem rotate_selected_witness:
  "distinct (tasks ex_app) \<and> 0 < length (tasks ex_app) \<and>
   live_tasks (fst (mark_selected_done ex_app (Some 0) ex_today)) =
     remove_at 0 (live_tasks ex_app) @ [bump_done (live_tasks ex_app ! 0)]"
  using Task_Queue.rotate_selected [OF ex_app_distinct ex_app_len, of ex_today] ex_app_distinct ex_app_len
  by simp

theorem rotate_current_witness:
  "distinct (tasks ex_app) \<and> tasks ex_app \<noteq> [] \<and>
   live_tasks (fst (mark_current_done ex_app ex_today)) = [ex_task_b, bump_done ex_task_a]"
proof -
  have h: "tasks ex_app \<noteq> []" by (simp add: ex_app_def)
  have "live_tasks ex_app = [ex_task_a, ex_task_b]"
    by (simp add: ex_app_def live_tasks_def ex_store_def)
  with Task_Queue.rotate_current [OF ex_app_distinct h, of ex_today] ex_app_distinct h show ?thesis
    by simp
qed

theorem rejected_inputs_unchanged_witness:
  "0 < length (tasks ex_app) \<and> edit_task ex_app (Some 0) None = (ex_app, Ok) \<and>
   tasks (ex_app\<lparr>tasks := []\<rparr>) = [] \<and>
   mark_current_done (ex_app\<lparr>tasks := []\<rparr>) ex_today = (ex_app\<lparr>tasks := []\<rparr>, Ok)"
  using Task_Queue.rejected_inputs_unchanged [of ex_app _ _ 0]
    Task_Queue.rejected_inputs_unchanged [of "ex_app\<lparr>tasks := []\<rparr>" _ _ 0] ex_app_len
  by simp

theorem out_of_range_raises_witness:
  "length (tasks ex_app) \<le> 5 \<and>
   mark_selected_done ex_app (Some 5) ex_today = (save_state ex_app, Raised IndexError)"
proof -
  have h: "length (tasks ex_app) \<le> 5" by (simp add: ex_app_def)
  with Task_Queue.out_of_range_raises [OF h] show ?thesis by simp
qed

theorem add_task_appends_witness:
  "tasks ex_app = [0, 1] \<and> next_loc (store ex_app) = 2 \<and>
   live_tasks (fst (add_task ex_app (Some '' '') ''2024-01-03T10:00:00'')) =
     [ex_task_a, ex_task_b,
      \<lparr>task_id = ''C'', description = '' '', created = ''2024-01-03T10:00:00'',
       completed_count = 0, skipped_count = 0\<rparr>]"
proof -
  have h: "'' '' \<noteq> []" "\<forall>l\<in>set (tasks ex_app). l < next_loc (store ex_app)"
    by (simp_all add: ex_app_def ex_store_def)
  have v: "live_tasks ex_app = [ex_task_a, ex_task_b]"
    by (simp add: ex_app_def live_tasks_def ex_store_def)
  have "next_task_id [''A'', ''B''] = ''C''" by code_simp
  with v h Task_Queue.add_task_appends [OF h, of "''2024-01-03T10:00:00''"] show ?thesis
    by (simp add: ex_task_a_def ex_task_b_def ex_app_def ex_store_def)
qed

theorem done_alters_snapshot_witness:
  "hist_ok ex_app \<and> distinct (tasks ex_app) \<and> 0 < length (tasks ex_app) \<and>
   snapshot_view (store (fst (mark_selected_done ex_app (Some 0) ex_today)))
     (last (history (fst (mark_selected_done ex_app (Some 0) ex_today))))
   \<noteq> (live_tasks ex_app, live_stats ex_app)"
  using Task_Queue.done_alters_snapshot [OF ex_app_hist_ok ex_app_distinct ex_app_len, of ex_today]
    ex_app_hist_ok ex_app_distinct ex_app_len
  by blast

lemma ex_app_inv: "app_inv ex_app"
  by (simp add: app_inv_def hist_ok_def refs_valid_def existing_ids_def ex_app_def ex_store_def
      ex_stats_def ex_task_a_def ex_task_b_def)

lemma ex_app_counts_consistent: "counts_consistent ex_app"
  by (simp add: counts_consistent_def done_counts_def ex_app_def ex_store_def ex_stats_def)

lemma ex_session_ids: "next_task_id [] = ''A''" "next_task_id [''A''] = ''B''"
  and ex_today_key: "date_key ex_today = ''2024-01-03''"
  unfolding ex_today_def by code_simp+

lemmas ex_session_unfold = ex_session_def app_step_def init_app_def new_dict_def empty_store_def
  add_task_def Let_def save_state_def new_task_def existing_ids_def py_take_def ex_session_ids
  ex_today_key mark_current_done_def done_rotate_def py_pop_def update_task_def update_dict_def
  state_snapshot_def undo_def install_def record_completion_def dict_get_def remove_at_def

text \<open>
  C3: the session of section 8. After Undo the list holds only "Buy milk", and it is marked
  done once: the snapshot Undo installs was taken before "Walk dog" was added (the cursor
  steps back one entry from the snapshot taken before Done), and it shares the task object
  Done changed. The total of completions is restored to 0 from the snapshot, while the
  per-day count of the day stays 1, so the two records of completions disagree.
\<close>

theorem undo_scenario:
  "live_tasks (run init_app ex_session) =
     [\<lparr>task_id = ''A'', description = ''Buy milk'', created = ''2024-01-03T09:00:00'',
       completed_count = 1, skipped_count = 0\<rparr>] \<and>
   total_done (statistics (run init_app ex_session)) = 0 \<and>
   daily_counts (live_stats (run init_app ex_session)) ''2024-01-03'' = Some 1 \<and>
   \<not> counts_consistent (run init_app ex_session)"
proof -
  have "done_counts (run init_app ex_session) = ([''2024-01-03'' \<mapsto> 1], 0)"
    by (simp add: ex_session_unfold done_counts_def)
  then have "\<not> counts_consistent (run init_app ex_session)"
    by (simp add: counts_consistent_def dict_sum_def)
  moreover have "live_tasks (run init_app ex_session) =
     [\<lparr>task_id = ''A'', description = ''Buy milk'', created = ''2024-01-03T09:00:00'',
       completed_count = 1, skipped_count = 0\<rparr>]"
    by (simp add: ex_session_unfold live_tasks_def task_values_def)
  moreover have "total_done (statistics (run init_app ex_session)) = 0 \<and>
     daily_counts (live_stats (run init_app ex_session)) ''2024-01-03'' = Some 1"
    by (simp add: ex_session_unfold live_stats_def stats_value_def)
  ultimately show ?thesis by simp
qed

theorem session_inv_witness: "app_inv init_app \<and> app_inv (run init_app ex_session)"
  using Todo_App.session_inv [OF app_inv_init, of ex_session] app_inv_init by simp

theorem reachable_ids_unique_witness:
  "reachable init_app (app_step init_app (AddTask (Some ''Buy milk'') ''2024-01-03T09:00:00'')) \<and>
   distinct (map task_id (live_tasks (app_step init_app (AddTask (Some ''Buy milk'') ''2024-01-03T09:00:00''))))"
proof -
  have r: "reachable init_app (app_step init_app (AddTask (Some ''Buy milk'') ''2024-01-03T09:00:00''))"
    by (rule reachable.step [OF reachable.start])
  with Todo_App.reachable_ids_unique [OF r] show ?thesis by simp
qed

theorem undo_redo_keep_daily_counts_witness:
  "app_inv ex_app \<and>
   daily_counts (live_stats (fst (undo ex_app))) = daily_counts (live_stats ex_app) \<and>
   daily_counts (live_stats (fst (redo ex_app))) = daily_counts (live_stats ex_app)"
  using Todo_App.undo_redo_keep_daily_counts [OF ex_app_inv] ex_app_inv by simp

theorem forward_events_consistent_witness:
  "counts_consistent ex_app \<and> DoneCurrent ex_today \<noteq> Undo \<and> DoneCurrent ex_today \<noteq> Redo \<and>
   counts_consistent (app_step ex_app (DoneCurrent ex_today))"
  using Todo_App.forward_events_consistent [OF ex_app_counts_consistent, of "DoneCurrent ex_today"]
    ex_app_counts_consistent by simp

lemma ex_legacy_ids: "map task_id (migrate_tasks (loaded_tasks ex_legacy_file)) = [''A'', ''A'']"
  and ex_plain_ids: "map task_id (migrate_tasks (loaded_tasks ex_plain_file)) = [''A'', ''B'']"
  unfolding ex_legacy_file_def ex_plain_file_def by code_simp+

text \<open>
  C9: the migration of \<^verbatim>\<open>load_data\<close> names a task without identifier after its
  position, without looking at the identifiers already in the file, so a file in which a
  later task already carries the letter of an earlier position loads with two tasks of the
  same identifier, and the start state breaks the invariant every handler keeps.
\<close>

theorem migration_duplicate:
  "map task_id (live_tasks (start_app (Loaded ex_legacy_file))) = [''A'', ''A''] \<and>
   \<not> app_inv (start_app (Loaded ex_legacy_file))"
proof -
  have ids: "map task_id (live_tasks (start_app (Loaded ex_legacy_file))) = [''A'', ''A'']"
    by (simp add: start_app_loaded install_loaded_simps ex_legacy_ids)
  then have "\<not> distinct (map task_id (live_tasks (start_app (Loaded ex_legacy_file))))" by simp
  with ids show ?thesis using app_inv_ids_distinct by blast
qed

theorem migration_ids_distinct_witness:
  "map j_task_id (loaded_tasks ex_plain_file) = [None, None] \<and>
   distinct (map task_id (migrate_tasks (loaded_tasks ex_plain_file)))"
proof -
  have h: "\<forall>jt\<in>set (loaded_tasks ex_plain_file). j_task_id jt = None"
    by (simp add: loaded_tasks_def ex_plain_file_def)
  have "map j_task_id (loaded_tasks ex_plain_file) = [None, None]"
    by (simp add: loaded_tasks_def ex_plain_file_def)
  with Persistence.migration_ids_distinct [OF h] show ?thesis by simp
qed

theorem startup_ids_unique_witness:
  "distinct (map task_id (migrate_tasks (loaded_tasks ex_plain_file))) \<and>
   reachable (start_app (Loaded ex_plain_file)) (start_app (Loaded ex_plain_file)) \<and>
   distinct (map task_id (live_tasks (start_app (Loaded ex_plain_file))))"
proof -
  have h: "distinct (map task_id (migrate_tasks (loaded_tasks ex_plain_file)))"
    by (simp add: ex_plain_ids)
  have r: "reachable (start_app (Loaded ex_plain_file)) (start_app (Loaded ex_plain_file))"
    by (rule reachable.start)
  with h Persistence.startup_ids_unique [OF h r] show ?thesis by simp
qed

lemma ex_app_live: "live_tasks ex_app = [ex_task_a, ex_task_b]"
  by (simp add: ex_app_def live_tasks_def task_values_def ex_store_def)

theorem app_step_refines_witness:
  "app_inv ex_app \<and> spec_step (app_value ex_app) SkipCurrent = Some (spec_skip (app_value ex_app) 0) \<and>
   app_value (app_step ex_app SkipCurrent) = spec_skip (app_value ex_app) 0 \<and>
   app_inv (app_step ex_app SkipCurrent)"
proof -
  have h: "spec_step (app_value ex_app) SkipCurrent = Some (spec_skip (app_value ex_app) 0)" by simp
  with Task_Spec.app_step_refines [OF ex_app_inv h] ex_app_inv show ?thesis by simp
qed

theorem every_task_becomes_current_witness:
  "app_inv ex_app \<and> list_all current_press [SkipCurrent] \<and> length [SkipCurrent] < length (tasks ex_app) \<and>
   hd (live_tasks (run ex_app [SkipCurrent])) = ex_task_b"
proof -
  have h: "list_all current_press [SkipCurrent]" "length [SkipCurrent] < length (tasks ex_app)"
    by (simp_all add: ex_app_def)
  with Task_Spec.every_task_becomes_current [OF ex_app_inv h] ex_app_inv show ?thesis
    by (simp add: ex_app_live)
qed

theorem task_chart_data_witness:
  "individual_task_chart [ex_task_a, ex_task_b] =
     Some \<lparr>chart_ids = [''A'', ''B''], chart_completed = [0, 3], chart_skipped = [0, 1], chart_ylim = 4\<rparr> \<and>
   sorted [''A'', ''B''] \<and> (3::int) < 4 \<and> (1::int) < 4"
proof -
  have h: "individual_task_chart [ex_task_a, ex_task_b] =
     Some \<lparr>chart_ids = [''A'', ''B''], chart_completed = [0, 3], chart_skipped = [0, 1], chart_ylim = 4\<rparr>"
    unfolding individual_task_chart_def task_table_def ex_task_a_def ex_task_b_def by code_simp
  with Display.task_chart_data [OF h] show ?thesis by simp
qed

theorem edit_alters_snapshot_witness:
  "hist_ok ex_app \<and> distinct (tasks ex_app) \<and> 0 < length (tasks ex_app) \<and> ''Buy oat milk'' \<noteq> [] \<and>
   snapshot_view (store (fst (edit_task ex_app (Some 0) (Some ''Buy oat milk''))))
     (last (history (fst (edit_task ex_app (Some 0) (Some ''Buy oat milk'')))))
   \<noteq> (live_tasks ex_app, live_stats ex_app)"
proof -
  have d: "''Buy oat milk'' \<noteq> []" by simp
  have "''Buy oat milk'' \<noteq> description (live_tasks ex_app ! 0)"
    by (simp add: ex_app_live ex_task_a_def)
  with Task_Queue.edit_alters_snapshot [OF ex_app_hist_ok ex_app_distinct ex_app_len d]
    ex_app_hist_ok ex_app_distinct ex_app_len d
  show ?thesis by blast
qed

lemma ex_app_counts_nat: "counts_nat ex_app"
  by (simp add: counts_nat_def ex_app_def ex_store_def ex_stats_def ex_task_a_def ex_task_b_def)

theorem counts_stay_natural_witness:
  "app_inv ex_app \<and> counts_nat ex_app \<and> counts_nat (run ex_app [SkipCurrent, Undo])"
  using Counts.counts_stay_natural [OF ex_app_inv ex_app_counts_nat, of "[SkipCurrent, Undo]"]
    ex_app_inv ex_app_counts_nat by simp

theorem reachable_rates_in_range_witness:
  "reachable init_app (app_step init_app (AddTask (Some ''Buy milk'') ''2024-01-03T09:00:00'')) \<and>
   live_tasks (app_step init_app (AddTask (Some ''Buy milk'') ''2024-01-03T09:00:00'')) =
     [\<lparr>task_id = ''A'', description = ''Buy milk'', created = ''2024-01-03T09:00:00'',
       completed_count = 0, skipped_count = 0\<rparr>] \<and>
   (\<exists>r. success_rate \<lparr>task_id = ''A'', description = ''Buy milk'', created = ''2024-01-03T09:00:00'',
       completed_count = 0, skipped_count = 0\<rparr> = Inr r \<and> 0 \<le> r \<and> r \<le> 100)"
proof -
  have r: "reachable init_app (app_step init_app (AddTask (Some ''Buy milk'') ''2024-01-03T09:00:00''))"
    by (rule reachable.step [OF reachable.start])
  have l: "live_tasks (app_step init_app (AddTask (Some ''Buy milk'') ''2024-01-03T09:00:00'')) =
     [\<lparr>task_id = ''A'', description = ''Buy milk'', created = ''2024-01-03T09:00:00'',
       completed_count = 0, skipped_count = 0\<rparr>]"
    by (simp add: ex_session_unfold live_tasks_def task_values_def)
  with r Counts.reachable_rates_in_range [OF r] show ?thesis by simp
qed

theorem redo_after_undo_witness:
  "hist_ok ex_one_task \<and> history ex_one_task \<noteq> [] \<and>
   history ex_two_tasks = history (save_state ex_one_task) \<and>
   history_index ex_two_tasks = history_index (save_state ex_one_task) \<and>
   live_tasks (fst (redo (fst (undo ex_two_tasks)))) =
     [\<lparr>task_id = ''A'', description = ''Buy milk'', created = ''2024-01-03T09:00:00'',
       completed_count = 0, skipped_count = 0\<rparr>]"
proof -
  have ok: "hist_ok ex_one_task" and ne: "history ex_one_task \<noteq> []"
    by (simp_all add: ex_one_task_def ex_session_unfold hist_ok_def)
  have h: "history ex_two_tasks = history (save_state ex_one_task)"
    and i: "history_index ex_two_tasks = history_index (save_state ex_one_task)"
    by (simp_all add: ex_two_tasks_def app_step_def add_task_def Let_def case_prod_beta)
  have "live_tasks (install (state_snapshot ex_one_task) ex_two_tasks) =
     [\<lparr>task_id = ''A'', description = ''Buy milk'', created = ''2024-01-03T09:00:00'',
       completed_count = 0, skipped_count = 0\<rparr>]"
    by (simp add: ex_two_tasks_def ex_one_task_def ex_session_unfold live_tasks_def task_values_def)
  with History.redo_after_undo [OF ok ne h i] ok ne h i show ?thesis by simp
qed

lemma ex_gui_session:
  "snd (gui_run (gui_start (Loaded ex_plain_file)) ex_gui_actions) =
     [Ok, Ok, Warned ''Please select a task to mark as done'', Ok, Ok, Ok,
      Warned ''Failed to save data: disk full'']"
  "current_task_var (widgets (fst (gui_run (gui_start (Loaded ex_plain_file)) ex_gui_actions))) =
     ''A - Buy milk (Done: 0)''"
  unfolding ex_plain_file_def ex_gui_actions_def ex_today_def by code_simp+

theorem gui_session_safe_witness:
  "file_ids_distinct (Loaded ex_plain_file) \<and>
   gui_inv (fst (gui_run (gui_start (Loaded ex_plain_file)) ex_gui_actions)) \<and>
   (\<forall>err. Raised err \<notin> set (snd (gui_run (gui_start (Loaded ex_plain_file)) ex_gui_actions)))"
proof -
  have d: "file_ids_distinct (Loaded ex_plain_file)" by (simp add: file_ids_distinct_def ex_plain_ids)
  with Gui.gui_session_safe [OF d, of ex_gui_actions] show ?thesis by simp
qed

theorem close_restart_restores_witness:
  "window_open (gui_start (Loaded ex_plain_file)) \<and>
   live_tasks (app (gui_start (data_file (fst (gui_step (gui_start (Loaded ex_plain_file)) (Close None)))))) =
     live_tasks (app (gui_start (Loaded ex_plain_file))) \<and>
   data_file (fst (gui_step (gui_start (Loaded ex_plain_file)) (Close (Some (Open_Failed ''permission denied''))))) =
     Loaded ex_plain_file \<and>
   live_tasks (app (gui_start (data_file (fst (gui_step (gui_start (Loaded ex_plain_file))
     (Close (Some (Dump_Failed ''disk full'')))))))) = []"
proof -
  have o: "window_open (gui_start (Loaded ex_plain_file))" by (simp add: gui_start_def)
  with Gui.close_restart_restores [OF o, of "''permission denied''" "''disk full''" None] show ?thesis
    by (simp add: gui_start_def)
qed

theorem statistics_panel_layout_witness:
  "list_all (\<lambda>t. newline \<notin> set (task_id t) \<and> newline \<notin> set (description t)) (live_tasks ex_app) \<and>
   (\<exists>txt. update_statistics_display (\<lambda>_. ''0'') (\<lambda>_. ''0'') ex_app ex_today = Inr txt \<and>
          length (filter ((=) newline) txt) = 21)"
proof -
  have h1: "list_all (\<lambda>t. newline \<notin> set (task_id t) \<and> newline \<notin> set (description t)) (live_tasks ex_app)"
    by (simp add: ex_app_live ex_task_a_def ex_task_b_def newline_def)
  have h2: "\<forall>x::real. newline \<notin> set ''0'' \<and> newline \<notin> set ''0''" by (simp add: newline_def)
  have n: "length (tasks ex_app) = 2" by (simp add: ex_app_def)
  from Stats_Panel.statistics_panel_layout
    [of ex_app "\<lambda>_. ''0''" "\<lambda>_. ''0''" ex_today] h1 h2 n
  show ?thesis by simp
qed

lemma ex_gui_trace:
  "gui_trace (gui_start (Loaded ex_plain_file)) ex_gui_actions =
     [DoneSelected None ex_today, DoneSelected (Some 1) ex_today]"
  unfolding ex_plain_file_def ex_gui_actions_def ex_today_def by code_simp

theorem gui_refines_spec_witness:
  "gui_inv (gui_start (Loaded ex_plain_file)) \<and>
   list_all (\<lambda>a. a \<noteq> Press_Undo \<and> a \<noteq> Press_Redo) ex_gui_actions \<and>
   spec_run (app_value (app (gui_start (Loaded ex_plain_file))))
     [DoneSelected None ex_today, DoneSelected (Some 1) ex_today] =
   Some (app_value (app (fst (gui_run (gui_start (Loaded ex_plain_file)) ex_gui_actions))))"
proof -
  have i: "gui_inv (gui_start (Loaded ex_plain_file))"
    by (rule gui_start_inv) (simp add: file_ids_distinct_def ex_plain_ids)
  have a: "list_all (\<lambda>a. a \<noteq> Press_Undo \<and> a \<noteq> Press_Redo) ex_gui_actions"
    by (simp add: ex_gui_actions_def)
  from Gui_Refinement.gui_refines_spec [OF i a] i a show ?thesis by (simp add: ex_gui_trace)
qed

end
